(* ===== verification/AD_Prelude.thy ===== *)
theory AD_Prelude
  imports
    "HOL-Library.Word"
    "HOL-Library.Finite_Map"
    "HOL-Library.List_Lexorder"
    "HOL-Library.Char_ord"
    "HOL-Library.Product_Lexorder"
begin

text \<open>
  The vocabulary shared by all components: Rust results, fixed-width arithmetic,
  byte strings, ordered maps, and the hexadecimal and decimal text forms.

  \<^item> A \<^verbatim>\<open>Result<T, E>\<close> is a value of \<^typ>\<open>'e + 'a\<close>, with \<open>Ok\<close> and \<open>Err\<close> as
    abbreviations of the two injections; the question-mark operator is \<open>res_bind\<close>.
  \<^item> A Rust string is the list of its UTF-8 bytes, each byte an Isabelle character, so that
    \<^verbatim>\<open>str::len\<close> is \<^const>\<open>length\<close> and \<^verbatim>\<open>str::bytes\<close> is the list itself.  A byte vector is a list of
    8-bit words.
  \<^item> A \<^verbatim>\<open>BTreeMap\<close> is a finite map over a linearly ordered key type; its iteration order is
    \<^const>\<open>sorted_list_of_fmap\<close>.
  \<^item> \<^verbatim>\<open>u64\<close>, \<^verbatim>\<open>u32\<close>, \<^verbatim>\<open>u16\<close> and \<^verbatim>\<open>u8\<close> are words; collection lengths (\<^verbatim>\<open>usize\<close>) are natural numbers.
\<close>

section \<open>Types\<close>

type_synonym byte = "8 word"
type_synonym bytes = "8 word list"
type_synonym u16 = "16 word"
type_synonym u32 = "32 word"
type_synonym u64 = "64 word"
type_synonym ('k, 'v) btree = "('k, 'v) fmap"

named_theorems word_arith \<open>natural-number readings of the fixed-width operations\<close>
named_theorems text_codec \<open>lengths and inverses of the text forms\<close>
named_theorems fmap_facts \<open>cardinality and iteration of ordered maps\<close>

section \<open>Results\<close>

abbreviation Ok :: "'a \<Rightarrow> 'e + 'a" where "Ok \<equiv> Inr"
abbreviation Err :: "'e \<Rightarrow> 'e + 'a" where "Err \<equiv> Inl"

fun res_bind :: "'e + 'a \<Rightarrow> ('a \<Rightarrow> 'e + 'b) \<Rightarrow> 'e + 'b" where
  "res_bind (Inl e) f = Inl e"
| "res_bind (Inr a) f = f a"

fun ok_or :: "'a option \<Rightarrow> 'e \<Rightarrow> 'e + 'a" where
  "ok_or None e = Inl e"
| "ok_or (Some a) e = Inr a"

fun is_ok :: "'e + 'a \<Rightarrow> bool" where
  "is_ok (Inl _) = False"
| "is_ok (Inr _) = True"

fun map_err :: "('e \<Rightarrow> 'f) \<Rightarrow> 'e + 'a \<Rightarrow> 'f + 'a" where
  "map_err f (Inl e) = Inl (f e)"
| "map_err f (Inr a) = Inr a"

fun res_ok :: "'e + 'a \<Rightarrow> 'a option" where
  "res_ok (Inr x) = Some x"
| "res_ok (Inl _) = None"

lemma res_bind_eq_Ok [simp]: "res_bind r f = Ok b \<longleftrightarrow> (\<exists>a. r = Ok a \<and> f a = Ok b)"
  by (cases r) auto

lemma res_bind_eq_Err: "res_bind r f = Err e \<longleftrightarrow> r = Err e \<or> (\<exists>a. r = Ok a \<and> f a = Err e)"
  by (cases r) auto

lemma ok_or_eq_Ok [simp]: "ok_or x e = Ok a \<longleftrightarrow> x = Some a"
  by (cases x) auto

lemma is_ok_iff: "is_ok r \<longleftrightarrow> (\<exists>a. r = Ok a)"
  by (cases r) auto

lemma map_err_eq_Ok [simp]: "map_err f r = Ok a \<longleftrightarrow> r = Ok a"
  by (cases r) auto

section \<open>Fixed-width arithmetic\<close>

definition sat_add :: "'a::len word \<Rightarrow> 'a word \<Rightarrow> 'a word" where
  "sat_add a b = (if unat a + unat b < 2 ^ LENGTH('a) then a + b else - 1)"

definition sat_sub :: "'a::len word \<Rightarrow> 'a word \<Rightarrow> 'a word" where
  "sat_sub a b = (if b \<le> a then a - b else 0)"

definition sat_mul :: "'a::len word \<Rightarrow> 'a word \<Rightarrow> 'a word" where
  "sat_mul a b = (if unat a * unat b < 2 ^ LENGTH('a) then a * b else - 1)"

definition sat_pow :: "'a::len word \<Rightarrow> nat \<Rightarrow> 'a word" where
  "sat_pow a n = (if unat a ^ n < 2 ^ LENGTH('a) then a ^ n else - 1)"

definition checked_add :: "'a::len word \<Rightarrow> 'a word \<Rightarrow> 'a word option" where
  "checked_add a b = (if unat a + unat b < 2 ^ LENGTH('a) then Some (a + b) else None)"

definition checked_sub :: "'a::len word \<Rightarrow> 'a word \<Rightarrow> 'a word option" where
  "checked_sub a b = (if b \<le> a then Some (a - b) else None)"

definition abs_diff :: "'a::len word \<Rightarrow> 'a word \<Rightarrow> 'a word" where
  "abs_diff a b = (if b \<le> a then a - b else b - a)"

definition div_ceil :: "nat \<Rightarrow> nat \<Rightarrow> nat" where
  "div_ceil n d = n div d + (if n mod d = 0 then 0 else 1)"

lemma unat_minus_one_word: "unat (- 1 :: 'a::len word) = 2 ^ LENGTH('a) - 1"
  by (simp add: unsigned_minus_1_eq_mask mask_eq_exp_minus_1)

lemma unat_sat_add [word_arith]:
  "unat (sat_add a b :: 'a::len word) = min (unat a + unat b) (2 ^ LENGTH('a) - 1)"
  by (auto simp: sat_add_def unat_minus_one_word unat_add_lem [THEN iffD1] min_def)

lemma unat_sat_sub [word_arith]: "unat (sat_sub a b) = unat a - unat b"
  by (auto simp: sat_sub_def unat_sub word_le_nat_alt)

lemma unat_sat_mul [word_arith]:
  "unat (sat_mul a b :: 'a::len word) = min (unat a * unat b) (2 ^ LENGTH('a) - 1)"
proof (cases "unat a * unat b < 2 ^ LENGTH('a)")
  case True
  then show ?thesis by (simp add: sat_mul_def unat_mult_lem [THEN iffD1])
next
  case False
  then have "2 ^ LENGTH('a) - 1 \<le> unat a * unat b" by linarith
  with False show ?thesis by (simp add: sat_mul_def unat_minus_one_word)
qed

lemma unat_abs_diff [word_arith]:
  "unat (abs_diff a b) = (if unat b \<le> unat a then unat a - unat b else unat b - unat a)"
  by (auto simp: abs_diff_def unat_sub word_le_nat_alt)

lemma checked_add_Some [word_arith]:
  "checked_add a b = Some (c :: 'a::len word) \<longleftrightarrow> unat c = unat a + unat b"
proof
  assume "checked_add a b = Some c"
  then show "unat c = unat a + unat b"
    by (auto simp: checked_add_def unat_add_lem split: if_splits)
next
  assume c: "unat c = unat a + unat b"
  then have "unat a + unat b < 2 ^ LENGTH('a)"
    by (metis unsigned_less)
  with c show "checked_add a b = Some c"
    by (simp add: checked_add_def) (metis unat_add_lem word_unat_eq_iff)
qed

lemma le_sat_add: "a \<le> sat_add a b"
proof -
  have "unat a \<le> 2 ^ LENGTH('a) - 1"
    using unsigned_less [of a, where 'a = nat] by linarith
  then show ?thesis by (simp add: word_le_nat_alt word_arith)
qed

lemma less_sat_add:
  assumes "a \<noteq> - 1" "0 < (b::'a::len word)"
  shows "a < sat_add a b"
proof -
  have "unat a \<noteq> unat (- 1 :: 'a word)" using assms(1) word_unat_eq_iff by blast
  moreover have "unat a < 2 ^ LENGTH('a)" by (rule unsigned_less)
  ultimately have "unat a < 2 ^ LENGTH('a) - 1" unfolding unat_minus_one_word by linarith
  moreover have "0 < unat b" using assms(2) by (simp add: word_less_nat_alt)
  ultimately show ?thesis by (simp add: word_less_nat_alt unat_sat_add)
qed

lemma div_ceil_bounds:
  assumes "0 < d"
  shows "n \<le> div_ceil n d * d" and "div_ceil n d * d < n + d"
proof -
  have n: "n = n div d * d + n mod d" and m: "n mod d < d"
    using assms by simp_all
  have c: "div_ceil n d * d = n div d * d + (if n mod d = 0 then 0 else d)"
    by (simp add: div_ceil_def algebra_simps)
  show "n \<le> div_ceil n d * d"
    unfolding c by (split if_split, intro conjI impI; use n m in linarith)
  show "div_ceil n d * d < n + d"
    unfolding c by (split if_split, intro conjI impI; use n m assms in linarith)
qed

section \<open>Byte strings and ASCII classes\<close>

abbreviation code :: "char \<Rightarrow> nat" where "code c \<equiv> of_char c"

definition as_bytes :: "string \<Rightarrow> bytes" where
  "as_bytes s = map of_char s"

definition is_ascii :: "char \<Rightarrow> bool" where
  "is_ascii c \<longleftrightarrow> code c < 128"

definition is_ascii_control :: "char \<Rightarrow> bool" where
  "is_ascii_control c \<longleftrightarrow> code c < 32 \<or> code c = 127"

definition is_ascii_graphic :: "char \<Rightarrow> bool" where
  "is_ascii_graphic c \<longleftrightarrow> 33 \<le> code c \<and> code c \<le> 126"

definition is_ascii_digit :: "char \<Rightarrow> bool" where
  "is_ascii_digit c \<longleftrightarrow> 48 \<le> code c \<and> code c \<le> 57"

definition is_ascii_lower :: "char \<Rightarrow> bool" where
  "is_ascii_lower c \<longleftrightarrow> 97 \<le> code c \<and> code c \<le> 122"

definition is_ascii_upper :: "char \<Rightarrow> bool" where
  "is_ascii_upper c \<longleftrightarrow> 65 \<le> code c \<and> code c \<le> 90"

definition is_ascii_alphanumeric :: "char \<Rightarrow> bool" where
  "is_ascii_alphanumeric c \<longleftrightarrow> is_ascii_digit c \<or> is_ascii_lower c \<or> is_ascii_upper c"

definition is_ascii_hexdigit :: "char \<Rightarrow> bool" where
  "is_ascii_hexdigit c \<longleftrightarrow>
     is_ascii_digit c \<or> (97 \<le> code c \<and> code c \<le> 102) \<or> (65 \<le> code c \<and> code c \<le> 70)"

lemmas ascii_defs = is_ascii_def is_ascii_control_def is_ascii_graphic_def is_ascii_digit_def
  is_ascii_lower_def is_ascii_upper_def is_ascii_alphanumeric_def is_ascii_hexdigit_def

lemma as_bytes_simps [simp]:
  "as_bytes [] = []"
  "as_bytes (c # s) = of_char c # as_bytes s"
  "as_bytes (s @ t) = as_bytes s @ as_bytes t"
  "length (as_bytes s) = length s"
  by (simp_all add: as_bytes_def)

lemma word8_of_char: "(of_char c :: byte) = of_nat (code c)"
  by (simp add: of_nat_of_char)

lemma code_less [simp]: "code c < 256"
  by (metis of_char_mod_256 mod_less_divisor zero_less_numeral)

lemma unat_of_char [simp]: "unat (of_char c :: byte) = code c"
  by (simp add: word8_of_char unat_of_nat)

lemma of_char_byte_inject [simp]: "(of_char c :: byte) = of_char d \<longleftrightarrow> c = d"
proof
  assume "(of_char c :: byte) = of_char d"
  then have "code c = code d" by (metis unat_of_char)
  then show "c = d" by simp
qed simp

lemma as_bytes_inject [simp]: "as_bytes s = as_bytes t \<longleftrightarrow> s = t"
  by (auto simp: as_bytes_def inj_map_eq_map inj_def)

section \<open>Hexadecimal text\<close>

definition hex_digit :: "nat \<Rightarrow> char" where
  "hex_digit n = ''0123456789abcdef'' ! n"

fun hex :: "bytes \<Rightarrow> string" where
  "hex [] = []"
| "hex (b # bs) = hex_digit (unat b div 16) # hex_digit (unat b mod 16) # hex bs"

definition hex_value :: "char \<Rightarrow> nat option" where
  "hex_value c =
     (if is_ascii_digit c then Some (code c - 48)
      else if 97 \<le> code c \<and> code c \<le> 102 then Some (code c - 87)
      else if 65 \<le> code c \<and> code c \<le> 70 then Some (code c - 55)
      else None)"

fun decode_pairs :: "string \<Rightarrow> bytes option" where
  "decode_pairs [] = Some []"
| "decode_pairs [c] = None"
| "decode_pairs (c # d # s) =
     (case (hex_value c, hex_value d) of
        (Some x, Some y) \<Rightarrow> map_option ((#) (of_nat (16 * x + y))) (decode_pairs s)
      | _ \<Rightarrow> None)"

definition decode_hex :: "string \<Rightarrow> bytes option" where
  "decode_hex s =
     (if odd (length s) \<or> \<not> list_all is_ascii_hexdigit s then None else decode_pairs s)"

lemma hex_digits_table:
  "list_all (\<lambda>n. hex_value (hex_digit n) = Some n \<and> is_ascii_hexdigit (hex_digit n)) [0..<16]"
  by (simp add: upt_rec hex_value_def hex_digit_def ascii_defs)

lemma hex_value_digit [simp]: "n < 16 \<Longrightarrow> hex_value (hex_digit n) = Some n"
  and hex_digit_class [simp]: "n < 16 \<Longrightarrow> is_ascii_hexdigit (hex_digit n)"
  using hex_digits_table by (simp_all add: list_all_iff)

lemma byte_nibbles: "unat (b::byte) div 16 < 16" "unat b mod 16 < 16"
  using unsigned_less [of b, where 'a = nat] by (simp_all add: less_mult_imp_div_less)

lemma length_hex [simp, text_codec]: "length (hex bs) = 2 * length bs"
  by (induction bs) simp_all

lemma hex_all_hexdigits [simp, text_codec]: "list_all is_ascii_hexdigit (hex bs)"
  by (induction bs) (simp_all add: byte_nibbles)

lemma decode_pairs_hex [simp]: "decode_pairs (hex bs) = Some bs"
  by (induction bs) (simp_all add: byte_nibbles)

lemma decode_hex_hex [simp, text_codec]: "decode_hex (hex bs) = Some bs"
  by (simp add: decode_hex_def)

lemma decode_pairs_length: "decode_pairs s = Some bs \<Longrightarrow> length s = 2 * length bs"
  by (induction s arbitrary: bs rule: decode_pairs.induct) (auto split: option.splits)

lemma decode_hex_length: "decode_hex s = Some bs \<Longrightarrow> length s = 2 * length bs"
  by (auto simp: decode_hex_def decode_pairs_length split: if_splits)

lemma hex_value_Some: "is_ascii_hexdigit c \<Longrightarrow> \<exists>x < 16. hex_value c = Some x"
  by (auto simp: hex_value_def ascii_defs)

lemma decode_pairs_total:
  "even (length s) \<Longrightarrow> list_all is_ascii_hexdigit s \<Longrightarrow> \<exists>bs. decode_pairs s = Some bs"
  by (induction s rule: decode_pairs.induct) (auto dest!: hex_value_Some)

lemma decode_hex_iff:
  "(\<exists>bs. decode_hex s = Some bs) \<longleftrightarrow> even (length s) \<and> list_all is_ascii_hexdigit s"
  by (auto simp: decode_hex_def decode_pairs_total split: if_splits)

section \<open>Ordered maps\<close>

lemma fcard_fmupd_le [fmap_facts]: "fcard (fmdom (fmupd k v m)) \<le> Suc (fcard (fmdom m))"
  by (simp add: fcard_finsert_if)

lemma fcard_fmdrop_le [fmap_facts]: "fcard (fmdom (fmdrop k m)) \<le> fcard (fmdom m)"
  by (simp add: fcard_fminus1_le)

lemma fmupd_same_lookup [fmap_facts]: "fmlookup m k = Some v \<Longrightarrow> fmupd k v m = m"
  by (intro fmap_ext) auto

lemma set_sorted_list_of_fmap [fmap_facts]:
  "(k, v) \<in> set (sorted_list_of_fmap m) \<longleftrightarrow> fmlookup m k = Some v"
  by (auto simp: sorted_list_of_fmap_def fmlookup_dom_iff image_iff sorted_list_of_fset.rep_eq)

lemma length_sorted_list_of_fmap [fmap_facts]:
  "length (sorted_list_of_fmap m) = fcard (fmdom m)"
  by (simp add: sorted_list_of_fmap_def sorted_list_of_fset.rep_eq fcard.rep_eq)

lemma keys_sorted_list_of_fmap [fmap_facts]:
  "map fst (sorted_list_of_fmap m) = sorted_list_of_fset (fmdom m)"
  by (simp add: sorted_list_of_fmap_def comp_def)

lemma distinct_sorted_list_of_fmap [fmap_facts]:
  "distinct (map fst (sorted_list_of_fmap m))"
  by (simp add: fmap_facts sorted_list_of_fset.rep_eq)

lemma fmap_of_sorted_list [simp]: "fmap_of_list (sorted_list_of_fmap m) = m"
  by (rule fmap_ext) (simp add: fmlookup_of_list)

lemma sorted_list_of_fmap_inject [simp]:
  "sorted_list_of_fmap m = sorted_list_of_fmap n \<longleftrightarrow> m = n"
  by (metis fmap_of_sorted_list)

lemma sorted_list_of_fmap_empty [simp]: "sorted_list_of_fmap fmempty = []"
  by (simp add: sorted_list_of_fmap_def sorted_list_of_fset.rep_eq)

lemma sorted_list_of_fmap_single [simp]: "sorted_list_of_fmap (fmupd k v fmempty) = [(k, v)]"
  by (simp add: sorted_list_of_fmap_def sorted_list_of_fset.rep_eq)

section \<open>Interfaces\<close>

text \<open>A text or byte form that the program writes and reads back.\<close>

locale codec =
  fixes encode :: "'a \<Rightarrow> 'b" and decode :: "'b \<Rightarrow> 'a option" and valid :: "'a \<Rightarrow> bool"
  assumes decode_encode: "valid x \<Longrightarrow> decode (encode x) = Some x"
begin

lemma encode_inject: "valid x \<Longrightarrow> valid y \<Longrightarrow> encode x = encode y \<longleftrightarrow> x = y"
  by (metis decode_encode option.inject)

lemma inj_on_encode: "inj_on encode {x. valid x}"
  by (rule inj_onI) (simp add: encode_inject)

lemma decode_image: "decode ` encode ` {x. valid x} = Some ` {x. valid x}"
  by (auto simp: decode_encode image_iff)

end

interpretation hex_text: codec hex decode_hex "\<lambda>_. True"
  by unfold_locales simp

text \<open>
  A fail-closed state machine: a transition function that answers with a new state or an error,
  and a set of final states that accept no event.  A caller that keeps its state when the
  transition is refused runs \<open>run_events\<close>.
\<close>

fun run_events :: "('s \<Rightarrow> 'v \<Rightarrow> 'r + 's) \<Rightarrow> 's \<Rightarrow> 'v list \<Rightarrow> 's" where
  "run_events tr s [] = s"
| "run_events tr s (e # es) =
     (case tr s e of Inl _ \<Rightarrow> run_events tr s es | Inr s' \<Rightarrow> run_events tr s' es)"

lemma run_events_append: "run_events tr s (es @ fs) = run_events tr (run_events tr s es) fs"
  by (induction tr s es rule: run_events.induct) (auto split: sum.splits)

locale fail_closed_machine =
  fixes tr :: "'s \<Rightarrow> 'v \<Rightarrow> 'r + 's" and final :: "'s \<Rightarrow> bool" and rank :: "'s \<Rightarrow> nat"
  assumes final_refuses: "final s \<Longrightarrow> \<exists>r. tr s e = Inl r"
    and reach_final: "\<not> final s \<Longrightarrow> \<exists>e s'. tr s e = Inr s' \<and> rank s' < rank s"
begin

lemma final_absorbs: "final s \<Longrightarrow> run_events tr s es = s"
proof (induction es)
  case (Cons e es)
  then show ?case using final_refuses [of s e] by auto
qed simp

lemma final_prefix_decides:
  "final (run_events tr s es) \<Longrightarrow> run_events tr s (es @ fs) = run_events tr s es"
  by (simp add: run_events_append final_absorbs)

lemma can_finish: "\<exists>es. final (run_events tr s es)"
proof (induction "rank s" arbitrary: s rule: less_induct)
  case less
  show ?case
  proof (cases "final s")
    case True
    then show ?thesis by (intro exI [of _ "[]"]) simp
  next
    case False
    then obtain e s' where s': "tr s e = Inr s'" "rank s' < rank s"
      using reach_final by blast
    then obtain es where "final (run_events tr s' es)" using less by blast
    then show ?thesis using s' by (intro exI [of _ "e # es"]) simp
  qed
qed

end

end
