(* ===== verification/Protocol_Gate.thy ===== *)
theory Protocol_Gate
  imports AD_Prelude
begin

text \<open>
  The admission boundary of the daemon (\<^verbatim>\<open>protocol_gate.rs\<close>): the lifetime contract shared by
  sessions, bundles and invites, the identifier syntax, version negotiation, the clock check and
  the admission of a peer.
\<close>

section \<open>Definitions\<close>

definition DAEMON_PROTOCOL :: string where "DAEMON_PROTOCOL = ''openmls-1''"
definition DAEMON_PROTOCOL_VERSION :: u16 where "DAEMON_PROTOCOL_VERSION = 1"
definition SUPPORTED_PROTOCOLS :: "string list" where "SUPPORTED_PROTOCOLS = [DAEMON_PROTOCOL]"
definition MAX_TEXT_BYTES :: nat where "MAX_TEXT_BYTES = 64 * 1024"
definition MAX_ENVELOPE_BYTES :: nat where "MAX_ENVELOPE_BYTES = 96 * 1024"
definition MAX_ATTACHMENT_BYTES :: nat where "MAX_ATTACHMENT_BYTES = 32 * 1024 * 1024"
definition MAX_CLOCK_SKEW_SECONDS :: u64 where "MAX_CLOCK_SKEW_SECONDS = 300"
definition MAX_PROTOCOL_IDENTIFIER_BYTES :: nat where "MAX_PROTOCOL_IDENTIFIER_BYTES = 128"

record TtlContract =
  issued_at :: u64
  ttl_seconds :: u64

definition ttl_expires_at :: "TtlContract \<Rightarrow> u64" where
  "ttl_expires_at c = sat_add (issued_at c) (ttl_seconds c)"

definition ttl_is_expired :: "TtlContract \<Rightarrow> u64 \<Rightarrow> u64 \<Rightarrow> bool" where
  "ttl_is_expired c wall_now monotonic_elapsed \<longleftrightarrow>
     ttl_seconds c \<le> monotonic_elapsed \<or> ttl_expires_at c \<le> wall_now"

datatype AdmissionError =
  EmptyPeerIdentity | UnsupportedProtocol | UnsupportedVersion | ClockSkew | InvalidIdentifier

definition validate_protocol_identifier :: "string \<Rightarrow> AdmissionError + unit" where
  "validate_protocol_identifier value =
     (if value = [] \<or> MAX_PROTOCOL_IDENTIFIER_BYTES < length value
         \<or> \<not> list_all is_ascii value \<or> list_ex is_ascii_control value
      then Err InvalidIdentifier else Ok ())"

definition supports :: "string \<Rightarrow> bool" where
  "supports protocol \<longleftrightarrow> protocol \<in> set SUPPORTED_PROTOCOLS"

definition negotiate :: "u16 \<Rightarrow> AdmissionError + u16" where
  "negotiate peer_version =
     (if peer_version = DAEMON_PROTOCOL_VERSION then Ok DAEMON_PROTOCOL_VERSION
      else Err UnsupportedVersion)"

definition validate_clock :: "u64 \<Rightarrow> u64 \<Rightarrow> AdmissionError + unit" where
  "validate_clock now remote =
     (if abs_diff now remote \<le> MAX_CLOCK_SKEW_SECONDS then Ok () else Err ClockSkew)"

record SessionAdmission =
  peer_account_id :: string
  peer_device_id :: string
  protocol :: string

definition admit :: "string \<Rightarrow> string \<Rightarrow> string \<Rightarrow> AdmissionError + SessionAdmission" where
  "admit account device proto =
     (if account = [] \<or> device = [] then Err EmptyPeerIdentity
      else res_bind (validate_protocol_identifier account) (\<lambda>_.
           res_bind (validate_protocol_identifier device) (\<lambda>_.
             if \<not> supports proto then Err UnsupportedProtocol
             else Ok \<lparr> peer_account_id = account, peer_device_id = device,
                        protocol = DAEMON_PROTOCOL \<rparr>)))"

lemmas gate_consts = DAEMON_PROTOCOL_def DAEMON_PROTOCOL_VERSION_def SUPPORTED_PROTOCOLS_def
  MAX_TEXT_BYTES_def MAX_ENVELOPE_BYTES_def MAX_ATTACHMENT_BYTES_def MAX_CLOCK_SKEW_SECONDS_def
  MAX_PROTOCOL_IDENTIFIER_BYTES_def

section \<open>Identifiers\<close>

definition wf_identifier :: "string \<Rightarrow> bool" where
  "wf_identifier s \<longleftrightarrow> s \<noteq> [] \<and> length s \<le> 128 \<and> (\<forall>c \<in> set s. 32 \<le> code c \<and> code c \<le> 126)"

lemma validate_protocol_identifier_ok [simp]:
  "validate_protocol_identifier s = Ok u \<longleftrightarrow> wf_identifier s"
proof -
  have "is_ascii c \<and> \<not> is_ascii_control c \<longleftrightarrow> 32 \<le> code c \<and> code c \<le> 126" for c
    by (auto simp: ascii_defs)
  then have "list_all is_ascii s \<and> \<not> list_ex is_ascii_control s
      \<longleftrightarrow> (\<forall>c \<in> set s. 32 \<le> code c \<and> code c \<le> 126)"
    unfolding list_all_iff list_ex_iff by blast
  then show ?thesis
    by (auto simp: validate_protocol_identifier_def wf_identifier_def gate_consts)
qed

lemma validate_protocol_identifier_err [simp]:
  "validate_protocol_identifier s = Err e \<longleftrightarrow> \<not> wf_identifier s \<and> e = InvalidIdentifier"
  using validate_protocol_identifier_ok [of s "()"]
  by (auto simp: validate_protocol_identifier_def simp del: validate_protocol_identifier_ok
           split: if_splits)

lemma admit_ok_iff:
  "admit a d p = Ok s \<longleftrightarrow>
     wf_identifier a \<and> wf_identifier d \<and> p = DAEMON_PROTOCOL \<and>
     s = \<lparr> peer_account_id = a, peer_device_id = d, protocol = DAEMON_PROTOCOL \<rparr>"
  by (auto simp: admit_def supports_def SUPPORTED_PROTOCOLS_def wf_identifier_def)

section \<open>Lifetimes\<close>

lemma ttl_is_expired_mono:
  "ttl_is_expired c w m \<Longrightarrow> w \<le> w' \<Longrightarrow> m \<le> m' \<Longrightarrow> ttl_is_expired c w' m'"
  by (auto simp: ttl_is_expired_def)

lemma ttl_live_iff:
  "\<not> ttl_is_expired c w m \<longleftrightarrow>
     unat m < unat (ttl_seconds c) \<and>
     unat w < min (unat (issued_at c) + unat (ttl_seconds c)) (2 ^ 64 - 1)"
  by (auto simp: ttl_is_expired_def ttl_expires_at_def word_le_nat_alt word_arith)

lemma validate_clock_ok:
  "validate_clock now remote = Ok u \<longleftrightarrow>
     unat now \<le> unat remote + 300 \<and> unat remote \<le> unat now + 300"
  by (auto simp: validate_clock_def MAX_CLOCK_SKEW_SECONDS_def word_le_nat_alt word_arith)

lemma validate_clock_sym: "validate_clock now remote = validate_clock remote now"
  by (auto simp: validate_clock_def word_le_nat_alt word_arith)

section \<open>Properties\<close>

text \<open>A peer is admitted exactly when both of its identifiers are non-empty printable-ASCII
  strings of at most 128 bytes and it asks for the daemon's own protocol; the admission records
  these identifiers unchanged, and every refusal is one of the three errors of the gate, the first
  one that applies.\<close>
theorem admit_decides:
  "admit a d p =
     (if a = [] \<or> d = [] then Err EmptyPeerIdentity
      else if \<not> (wf_identifier a \<and> wf_identifier d) then Err InvalidIdentifier
      else if p \<noteq> ''openmls-1'' then Err UnsupportedProtocol
      else Ok \<lparr> peer_account_id = a, peer_device_id = d, protocol = ''openmls-1'' \<rparr>)"
proof -
  have v: "validate_protocol_identifier s = (if wf_identifier s then Ok () else Err InvalidIdentifier)"
    for s by (cases "validate_protocol_identifier s") auto
  show ?thesis
    by (simp add: admit_def v supports_def SUPPORTED_PROTOCOLS_def DAEMON_PROTOCOL_def)
qed

end
