(* ===== verification/Domain_Model.thy ===== *)
theory Domain_Model
  imports Protocol_Gate "HOL-Library.Sublist"
begin

text \<open>
  The domain vocabulary of the daemon (\<^verbatim>\<open>model.rs\<close>): typed identifiers and the six fail-closed
  state machines for accounts, devices, contacts, conversations, messages and deliveries.
  The machines are instances of the interface \<open>fail_closed_machine\<close>.
\<close>

section \<open>Identifiers\<close>

datatype InvalidId = InvalidId

definition MAX_ID_BYTES :: nat where "MAX_ID_BYTES = 128"

text \<open>The macro \<^verbatim>\<open>typed_id!\<close> stamps out six newtypes with this one constructor function.\<close>

datatype AccountId = AccountId string
datatype DeviceId = DeviceId string
datatype ContactId = ContactId string
datatype ConversationId = ConversationId string
datatype MessageId = MessageId string
datatype DeliveryId = DeliveryId string

definition typed_id_new :: "(string \<Rightarrow> 'i) \<Rightarrow> string \<Rightarrow> InvalidId + 'i" where
  "typed_id_new mk value =
     (if value = [] \<or> MAX_ID_BYTES < length value
         \<or> \<not> is_ok (validate_protocol_identifier value)
      then Err InvalidId else Ok (mk value))"

section \<open>States and events\<close>

datatype AccountState = Locked | Ready | Recovering | Revoked
datatype AccountEvent = Unlock | Lock | BeginRecovery | CompleteRecovery | Revoke
datatype DeviceState = Provisioning | Active | Revoked
datatype DeviceEvent = Activate | Revoke
datatype ContactState = Invited | Pending | Verified | Blocked | Removed
datatype ContactEvent = ReceiveRequest | Verify | Block | Unblock | Remove
datatype ConversationState = Pairing | Active | Suspended | Closed
datatype ConversationEvent = Establish | Suspend | Resume | Close
datatype MessageState =
  Draft | Encrypted | Queued | RelayAccepted | RecipientReceived | Decrypted | Retryable
  | Failed | Expired
datatype MessageEvent = Encrypt | Queue | RelayAccept | Receive | Decrypt | Retry | Fail | Expire
datatype DeliveryState =
  Queued | RelayAccepted | RecipientReceived | Decrypted | Retryable | Failed | Expired
datatype DeliveryEvent = RelayAccept | Receive | Decrypt | Retry | Fail | Expire

record InvalidTransition =
  entity :: string
  state :: string
  event :: string

definition invalid :: "string \<Rightarrow> string \<Rightarrow> string \<Rightarrow> InvalidTransition + 's" where
  "invalid n s e = Err \<lparr> entity = n, state = s, event = e \<rparr>"

section \<open>Names\<close>

fun account_state_name :: "AccountState \<Rightarrow> string" where
  "account_state_name Locked = ''locked''"
| "account_state_name Ready = ''ready''"
| "account_state_name Recovering = ''recovering''"
| "account_state_name AccountState.Revoked = ''revoked''"

fun account_event_name :: "AccountEvent \<Rightarrow> string" where
  "account_event_name Unlock = ''unlock''"
| "account_event_name Lock = ''lock''"
| "account_event_name BeginRecovery = ''begin_recovery''"
| "account_event_name CompleteRecovery = ''complete_recovery''"
| "account_event_name AccountEvent.Revoke = ''revoke''"

fun device_state_name :: "DeviceState \<Rightarrow> string" where
  "device_state_name Provisioning = ''provisioning''"
| "device_state_name DeviceState.Active = ''active''"
| "device_state_name DeviceState.Revoked = ''revoked''"

fun device_event_name :: "DeviceEvent \<Rightarrow> string" where
  "device_event_name Activate = ''activate''"
| "device_event_name DeviceEvent.Revoke = ''revoke''"

fun contact_state_name :: "ContactState \<Rightarrow> string" where
  "contact_state_name Invited = ''invited''"
| "contact_state_name Pending = ''pending''"
| "contact_state_name Verified = ''verified''"
| "contact_state_name Blocked = ''blocked''"
| "contact_state_name Removed = ''removed''"

fun contact_event_name :: "ContactEvent \<Rightarrow> string" where
  "contact_event_name ReceiveRequest = ''receive_request''"
| "contact_event_name Verify = ''verify''"
| "contact_event_name Block = ''block''"
| "contact_event_name Unblock = ''unblock''"
| "contact_event_name Remove = ''remove''"

fun conversation_state_name :: "ConversationState \<Rightarrow> string" where
  "conversation_state_name Pairing = ''pairing''"
| "conversation_state_name ConversationState.Active = ''active''"
| "conversation_state_name Suspended = ''suspended''"
| "conversation_state_name Closed = ''closed''"

fun conversation_event_name :: "ConversationEvent \<Rightarrow> string" where
  "conversation_event_name Establish = ''establish''"
| "conversation_event_name Suspend = ''suspend''"
| "conversation_event_name Resume = ''resume''"
| "conversation_event_name Close = ''close''"

fun message_state_name :: "MessageState \<Rightarrow> string" where
  "message_state_name Draft = ''draft''"
| "message_state_name Encrypted = ''encrypted''"
| "message_state_name MessageState.Queued = ''queued''"
| "message_state_name MessageState.RelayAccepted = ''relay_accepted''"
| "message_state_name MessageState.RecipientReceived = ''recipient_received''"
| "message_state_name MessageState.Decrypted = ''decrypted''"
| "message_state_name MessageState.Retryable = ''retryable''"
| "message_state_name MessageState.Failed = ''failed''"
| "message_state_name MessageState.Expired = ''expired''"

fun message_event_name :: "MessageEvent \<Rightarrow> string" where
  "message_event_name Encrypt = ''encrypt''"
| "message_event_name Queue = ''queue''"
| "message_event_name MessageEvent.RelayAccept = ''relay_accept''"
| "message_event_name MessageEvent.Receive = ''receive''"
| "message_event_name MessageEvent.Decrypt = ''decrypt''"
| "message_event_name MessageEvent.Retry = ''retry''"
| "message_event_name MessageEvent.Fail = ''fail''"
| "message_event_name MessageEvent.Expire = ''expire''"

fun delivery_state_name :: "DeliveryState \<Rightarrow> string" where
  "delivery_state_name Queued = ''queued''"
| "delivery_state_name RelayAccepted = ''relay_accepted''"
| "delivery_state_name RecipientReceived = ''recipient_received''"
| "delivery_state_name Decrypted = ''decrypted''"
| "delivery_state_name Retryable = ''retryable''"
| "delivery_state_name Failed = ''failed''"
| "delivery_state_name Expired = ''expired''"

fun delivery_event_name :: "DeliveryEvent \<Rightarrow> string" where
  "delivery_event_name RelayAccept = ''relay_accept''"
| "delivery_event_name Receive = ''receive''"
| "delivery_event_name Decrypt = ''decrypt''"
| "delivery_event_name Retry = ''retry''"
| "delivery_event_name Fail = ''fail''"
| "delivery_event_name Expire = ''expire''"

section \<open>Transitions\<close>

definition account_transition ::
    "AccountState \<Rightarrow> AccountEvent \<Rightarrow> InvalidTransition + AccountState" where
  "account_transition s e =
     (case (s, e) of
        (Locked, Unlock) \<Rightarrow> Ok Ready
      | (Ready, Lock) \<Rightarrow> Ok Locked
      | (Locked, BeginRecovery) \<Rightarrow> Ok Recovering
      | (Recovering, CompleteRecovery) \<Rightarrow> Ok Ready
      | (Locked, AccountEvent.Revoke) \<Rightarrow> Ok AccountState.Revoked
      | (Ready, AccountEvent.Revoke) \<Rightarrow> Ok AccountState.Revoked
      | (Recovering, AccountEvent.Revoke) \<Rightarrow> Ok AccountState.Revoked
      | _ \<Rightarrow> invalid ''account'' (account_state_name s) (account_event_name e))"

definition device_transition ::
    "DeviceState \<Rightarrow> DeviceEvent \<Rightarrow> InvalidTransition + DeviceState" where
  "device_transition s e =
     (case (s, e) of
        (Provisioning, Activate) \<Rightarrow> Ok DeviceState.Active
      | (Provisioning, DeviceEvent.Revoke) \<Rightarrow> Ok DeviceState.Revoked
      | (DeviceState.Active, DeviceEvent.Revoke) \<Rightarrow> Ok DeviceState.Revoked
      | _ \<Rightarrow> invalid ''device'' (device_state_name s) (device_event_name e))"

definition contact_transition ::
    "ContactState \<Rightarrow> ContactEvent \<Rightarrow> InvalidTransition + ContactState" where
  "contact_transition s e =
     (case (s, e) of
        (Invited, ReceiveRequest) \<Rightarrow> Ok Pending
      | (Pending, Verify) \<Rightarrow> Ok Verified
      | (Verified, Block) \<Rightarrow> Ok Blocked
      | (Blocked, Unblock) \<Rightarrow> Ok Verified
      | (Invited, Remove) \<Rightarrow> Ok Removed
      | (Pending, Remove) \<Rightarrow> Ok Removed
      | (Verified, Remove) \<Rightarrow> Ok Removed
      | (Blocked, Remove) \<Rightarrow> Ok Removed
      | _ \<Rightarrow> invalid ''contact'' (contact_state_name s) (contact_event_name e))"

definition conversation_transition ::
    "ConversationState \<Rightarrow> ConversationEvent \<Rightarrow> InvalidTransition + ConversationState" where
  "conversation_transition s e =
     (case (s, e) of
        (Pairing, Establish) \<Rightarrow> Ok ConversationState.Active
      | (ConversationState.Active, Suspend) \<Rightarrow> Ok Suspended
      | (Suspended, Resume) \<Rightarrow> Ok ConversationState.Active
      | (Pairing, Close) \<Rightarrow> Ok Closed
      | (ConversationState.Active, Close) \<Rightarrow> Ok Closed
      | (Suspended, Close) \<Rightarrow> Ok Closed
      | _ \<Rightarrow> invalid ''conversation'' (conversation_state_name s) (conversation_event_name e))"

definition message_transition ::
    "MessageState \<Rightarrow> MessageEvent \<Rightarrow> InvalidTransition + MessageState" where
  "message_transition s e =
     (case (s, e) of
        (Draft, Encrypt) \<Rightarrow> Ok Encrypted
      | (Encrypted, Queue) \<Rightarrow> Ok MessageState.Queued
      | (MessageState.Queued, MessageEvent.RelayAccept) \<Rightarrow> Ok MessageState.RelayAccepted
      | (MessageState.RelayAccepted, MessageEvent.Receive) \<Rightarrow> Ok MessageState.RecipientReceived
      | (MessageState.RecipientReceived, MessageEvent.Decrypt) \<Rightarrow> Ok MessageState.Decrypted
      | (MessageState.Queued, MessageEvent.Retry) \<Rightarrow> Ok MessageState.Retryable
      | (MessageState.RelayAccepted, MessageEvent.Retry) \<Rightarrow> Ok MessageState.Retryable
      | (MessageState.Retryable, Queue) \<Rightarrow> Ok MessageState.Queued
      | (s', MessageEvent.Fail) \<Rightarrow>
          (if s' \<in> {Draft, Encrypted, MessageState.Queued, MessageState.RelayAccepted,
                    MessageState.RecipientReceived, MessageState.Retryable}
           then Ok MessageState.Failed
           else invalid ''message'' (message_state_name s) (message_event_name e))
      | (s', MessageEvent.Expire) \<Rightarrow>
          (if s' \<in> {Draft, Encrypted, MessageState.Queued, MessageState.RelayAccepted,
                    MessageState.Retryable}
           then Ok MessageState.Expired
           else invalid ''message'' (message_state_name s) (message_event_name e))
      | _ \<Rightarrow> invalid ''message'' (message_state_name s) (message_event_name e))"

definition delivery_transition ::
    "DeliveryState \<Rightarrow> DeliveryEvent \<Rightarrow> InvalidTransition + DeliveryState" where
  "delivery_transition s e =
     (case (s, e) of
        (Queued, RelayAccept) \<Rightarrow> Ok RelayAccepted
      | (RelayAccepted, Receive) \<Rightarrow> Ok RecipientReceived
      | (RecipientReceived, Decrypt) \<Rightarrow> Ok Decrypted
      | (Queued, Retry) \<Rightarrow> Ok Retryable
      | (RelayAccepted, Retry) \<Rightarrow> Ok Retryable
      | (Retryable, Retry) \<Rightarrow> Ok Queued
      | (Queued, Fail) \<Rightarrow> Ok Failed
      | (RelayAccepted, Fail) \<Rightarrow> Ok Failed
      | (Retryable, Fail) \<Rightarrow> Ok Failed
      | (Queued, Expire) \<Rightarrow> Ok Expired
      | (RelayAccepted, Expire) \<Rightarrow> Ok Expired
      | (Retryable, Expire) \<Rightarrow> Ok Expired
      | _ \<Rightarrow> invalid ''delivery'' (delivery_state_name s) (delivery_event_name e))"

lemmas transition_defs = account_transition_def device_transition_def contact_transition_def
  conversation_transition_def message_transition_def delivery_transition_def invalid_def

section \<open>The machines are fail-closed\<close>

fun account_final :: "AccountState \<Rightarrow> bool" where
  "account_final s \<longleftrightarrow> s = AccountState.Revoked"

fun device_final :: "DeviceState \<Rightarrow> bool" where
  "device_final s \<longleftrightarrow> s = DeviceState.Revoked"

fun contact_final :: "ContactState \<Rightarrow> bool" where
  "contact_final s \<longleftrightarrow> s = Removed"

fun conversation_final :: "ConversationState \<Rightarrow> bool" where
  "conversation_final s \<longleftrightarrow> s = Closed"

fun message_final :: "MessageState \<Rightarrow> bool" where
  "message_final s \<longleftrightarrow> s \<in> {MessageState.Decrypted, MessageState.Failed, MessageState.Expired}"

fun delivery_final :: "DeliveryState \<Rightarrow> bool" where
  "delivery_final s \<longleftrightarrow> s \<in> {Decrypted, Failed, Expired}"

interpretation account: fail_closed_machine account_transition account_final
    "\<lambda>s. if account_final s then 0 else 1"
proof unfold_locales
  show "account_final s \<Longrightarrow> \<exists>r. account_transition s e = Err r" for s e
    by (simp add: transition_defs)
  show "\<not> account_final s \<Longrightarrow> \<exists>e s'. account_transition s e = Ok s' \<and>
      (if account_final s' then 0 else 1) < (if account_final s then 0 else (1::nat))" for s
    by (intro exI [of _ AccountEvent.Revoke]) (cases s; simp add: transition_defs)
qed

interpretation device: fail_closed_machine device_transition device_final
    "\<lambda>s. if device_final s then 0 else 1"
proof unfold_locales
  show "device_final s \<Longrightarrow> \<exists>r. device_transition s e = Err r" for s e
    by (simp add: transition_defs)
  show "\<not> device_final s \<Longrightarrow> \<exists>e s'. device_transition s e = Ok s' \<and>
      (if device_final s' then 0 else 1) < (if device_final s then 0 else (1::nat))" for s
    by (intro exI [of _ DeviceEvent.Revoke]) (cases s; simp add: transition_defs)
qed

interpretation contact: fail_closed_machine contact_transition contact_final
    "\<lambda>s. if contact_final s then 0 else 1"
proof unfold_locales
  show "contact_final s \<Longrightarrow> \<exists>r. contact_transition s e = Err r" for s e
    by (simp add: transition_defs)
  show "\<not> contact_final s \<Longrightarrow> \<exists>e s'. contact_transition s e = Ok s' \<and>
      (if contact_final s' then 0 else 1) < (if contact_final s then 0 else (1::nat))" for s
    by (intro exI [of _ Remove]) (cases s; simp add: transition_defs)
qed

interpretation conversation: fail_closed_machine conversation_transition conversation_final
    "\<lambda>s. if conversation_final s then 0 else 1"
proof unfold_locales
  show "conversation_final s \<Longrightarrow> \<exists>r. conversation_transition s e = Err r" for s e
    by (simp add: transition_defs)
  show "\<not> conversation_final s \<Longrightarrow> \<exists>e s'. conversation_transition s e = Ok s' \<and>
      (if conversation_final s' then 0 else 1) < (if conversation_final s then 0 else (1::nat))" for s
    by (intro exI [of _ Close]) (cases s; simp add: transition_defs)
qed

interpretation message: fail_closed_machine message_transition message_final
    "\<lambda>s. if message_final s then 0 else 1"
proof unfold_locales
  show "message_final s \<Longrightarrow> \<exists>r. message_transition s e = Err r" for s e
    by (cases s; cases e) (simp_all add: transition_defs)
  show "\<not> message_final s \<Longrightarrow> \<exists>e s'. message_transition s e = Ok s' \<and>
      (if message_final s' then 0 else 1) < (if message_final s then 0 else (1::nat))" for s
    by (intro exI [of _ MessageEvent.Fail]) (cases s; simp add: transition_defs)
qed

text \<open>A delivery that the recipient has received can only be decrypted; every other open delivery
  can fail.\<close>

interpretation delivery: fail_closed_machine delivery_transition delivery_final
    "\<lambda>s. if delivery_final s then 0 else 1"
proof unfold_locales
  show "delivery_final s \<Longrightarrow> \<exists>r. delivery_transition s e = Err r" for s e
    by (cases s; cases e) (simp_all add: transition_defs)
  show "\<not> delivery_final s \<Longrightarrow> \<exists>e s'. delivery_transition s e = Ok s' \<and>
      (if delivery_final s' then 0 else 1) < (if delivery_final s then 0 else (1::nat))" for s
    by (intro exI [of _ "if s = RecipientReceived then Decrypt else Fail"])
       (cases s; simp add: transition_defs)
qed

section \<open>Properties\<close>

text \<open>Final states are absorbing in all six machines: once an account or device is revoked,
  a contact removed, a conversation closed, or a message or delivery decrypted, failed or expired,
  no sequence of events changes its state.\<close>
theorem final_states_absorb:
  "run_events account_transition AccountState.Revoked es1 = AccountState.Revoked \<and>
   run_events device_transition DeviceState.Revoked es2 = DeviceState.Revoked \<and>
   run_events contact_transition Removed es3 = Removed \<and>
   run_events conversation_transition Closed es4 = Closed \<and>
   run_events message_transition MessageState.Decrypted es5 = MessageState.Decrypted \<and>
   run_events message_transition MessageState.Failed es5 = MessageState.Failed \<and>
   run_events message_transition MessageState.Expired es5 = MessageState.Expired \<and>
   run_events delivery_transition Decrypted es6 = Decrypted \<and>
   run_events delivery_transition Failed es6 = Failed \<and>
   run_events delivery_transition Expired es6 = Expired"
  by (simp add: account.final_absorbs device.final_absorbs contact.final_absorbs
        conversation.final_absorbs message.final_absorbs delivery.final_absorbs)

text \<open>The way a delivery state and its event read as a message state and event: a delivery retries
  back into the queue where a message is queued again.\<close>

fun message_of_delivery :: "DeliveryState \<Rightarrow> MessageState" where
  "message_of_delivery Queued = MessageState.Queued"
| "message_of_delivery RelayAccepted = MessageState.RelayAccepted"
| "message_of_delivery RecipientReceived = MessageState.RecipientReceived"
| "message_of_delivery Decrypted = MessageState.Decrypted"
| "message_of_delivery Retryable = MessageState.Retryable"
| "message_of_delivery Failed = MessageState.Failed"
| "message_of_delivery Expired = MessageState.Expired"

fun message_event_of :: "DeliveryState \<Rightarrow> DeliveryEvent \<Rightarrow> MessageEvent" where
  "message_event_of s RelayAccept = MessageEvent.RelayAccept"
| "message_event_of s Receive = MessageEvent.Receive"
| "message_event_of s Decrypt = MessageEvent.Decrypt"
| "message_event_of s Retry = (if s = Retryable then Queue else MessageEvent.Retry)"
| "message_event_of s Fail = MessageEvent.Fail"
| "message_event_of s Expire = MessageEvent.Expire"



text \<open>The events a message still has to see, in this order, before it is decrypted.\<close>

fun remaining_path :: "MessageState \<Rightarrow> MessageEvent list" where
  "remaining_path Draft =
     [Encrypt, Queue, MessageEvent.RelayAccept, MessageEvent.Receive, MessageEvent.Decrypt]"
| "remaining_path Encrypted =
     [Queue, MessageEvent.RelayAccept, MessageEvent.Receive, MessageEvent.Decrypt]"
| "remaining_path MessageState.Retryable =
     [Queue, MessageEvent.RelayAccept, MessageEvent.Receive, MessageEvent.Decrypt]"
| "remaining_path MessageState.Queued =
     [MessageEvent.RelayAccept, MessageEvent.Receive, MessageEvent.Decrypt]"
| "remaining_path MessageState.RelayAccepted = [MessageEvent.Receive, MessageEvent.Decrypt]"
| "remaining_path MessageState.RecipientReceived = [MessageEvent.Decrypt]"
| "remaining_path _ = []"

lemma message_step_path:
  assumes "message_transition s e = Ok s'" and "\<not> message_final s' \<or> s' = MessageState.Decrypted"
    and "subseq (remaining_path s') es"
  shows "subseq (remaining_path s) (e # es)"
  using assms
  by (cases s; cases e) (auto simp: transition_defs dest: subseq_Cons')

lemma decrypted_path:
  "run_events message_transition s es = MessageState.Decrypted \<Longrightarrow> subseq (remaining_path s) es"
proof (induction es arbitrary: s)
  case Nil
  then show ?case by simp
next
  case (Cons e es)
  show ?case
  proof (cases "message_transition s e")
    case (Inl r)
    then show ?thesis using Cons by (auto intro: list_emb_Cons)
  next
    case (Inr s')
    then have run: "run_events message_transition s' es = MessageState.Decrypted"
      using Cons.prems by simp
    then have "\<not> message_final s' \<or> s' = MessageState.Decrypted"
      using message.final_absorbs [of s' es] by auto
    then show ?thesis using message_step_path Inr Cons.IH [OF run] by blast
  qed
qed

text \<open>A message that was a draft can only be shown as decrypted after it was encrypted, queued,
  accepted by the relay and received by the recipient, in this order: whatever other events
  happened and however often it was retried, these five events are a subsequence of its history.\<close>
theorem decrypted_only_after_delivery:
  "run_events message_transition Draft es = MessageState.Decrypted \<Longrightarrow>
     subseq [Encrypt, Queue, MessageEvent.RelayAccept, MessageEvent.Receive, MessageEvent.Decrypt] es"
  using decrypted_path [of Draft es] by simp

theorem decrypted_only_after_delivery_witness:
  "subseq [Encrypt, Queue, MessageEvent.RelayAccept, MessageEvent.Receive, MessageEvent.Decrypt]
     [Encrypt, Queue, MessageEvent.Retry, Queue, MessageEvent.RelayAccept, MessageEvent.Receive,
      MessageEvent.Decrypt]"
  by (rule decrypted_only_after_delivery) (simp add: transition_defs)

end
