(* ===== verification/AD_Bytes.thy ===== *)
theory AD_Bytes
  imports AD_Prelude
begin

text \<open>
  Byte and text forms of the Rust standard library that several components use: big-endian
  integers (\<^verbatim>\<open>to_be_bytes\<close>, \<^verbatim>\<open>from_be_bytes\<close>), UTF-8 validation and decoding (\<^verbatim>\<open>String::from_utf8\<close>,
  \<^verbatim>\<open>str::chars\<close>), white space (\<^verbatim>\<open>str::trim\<close>), and decimal integers (\<^verbatim>\<open>u64::to_string\<close>,
  \<^verbatim>\<open>str::parse\<close>).
\<close>

section \<open>Big-endian integers\<close>

fun be_bytes :: "nat \<Rightarrow> nat \<Rightarrow> bytes" where
  "be_bytes 0 n = []"
| "be_bytes (Suc k) n = be_bytes k (n div 256) @ [of_nat (n mod 256)]"

definition from_be :: "bytes \<Rightarrow> nat" where
  "from_be bs = foldl (\<lambda>a b. 256 * a + unat b) 0 bs"

lemma length_be_bytes [simp, text_codec]: "length (be_bytes k n) = k"
  by (induction k arbitrary: n) simp_all

lemma from_be_snoc: "from_be (bs @ [b]) = 256 * from_be bs + unat b"
  by (simp add: from_be_def)

lemma from_be_Nil [simp]: "from_be [] = 0"
  by (simp add: from_be_def)

lemma unat_of_nat_byte: "n < 256 \<Longrightarrow> unat (of_nat n :: byte) = n"
  by (simp add: unat_of_nat)

lemma from_be_bytes_mod: "from_be (be_bytes k n) = n mod 256 ^ k"
proof (induction k arbitrary: n)
  case (Suc k)
  have "from_be (be_bytes (Suc k) n) = 256 * ((n div 256) mod 256 ^ k) + n mod 256"
    by (simp add: from_be_snoc Suc unat_of_nat_byte)
  also have "\<dots> = n mod (256 * 256 ^ k)"
    by (simp add: mod_mult2_eq)
  finally show ?case by simp
qed simp

lemma from_be_bytes [simp, text_codec]: "n < 256 ^ k \<Longrightarrow> from_be (be_bytes k n) = n"
  by (simp add: from_be_bytes_mod)

lemma from_be_less: "from_be bs < 256 ^ length bs"
proof (induction bs rule: rev_induct)
  case (snoc b bs)
  have b: "unat b < 256" using unsigned_less [of b, where 'a = nat] by simp
  then have "256 * from_be bs + unat b < 256 * from_be bs + 256" by simp
  also have "\<dots> \<le> 256 * 256 ^ length bs"
    using snoc by (metis Suc_leI add.commute mult_Suc_right mult_le_mono2)
  finally show ?case by (simp add: from_be_snoc)
qed simp

lemma be_bytes_from_be [text_codec]: "length bs = k \<Longrightarrow> be_bytes k (from_be bs) = bs"
proof (induction bs arbitrary: k rule: rev_induct)
  case (snoc b bs)
  have b: "unat b < 256" using unsigned_less [of b, where 'a = nat] by simp
  obtain j where k: "k = Suc j" and j: "length bs = j"
    using snoc.prems by (cases k) auto
  have "(256 * from_be bs + unat b) div 256 = from_be bs"
       "(256 * from_be bs + unat b) mod 256 = unat b"
    using b by simp_all
  then show ?case using snoc.IH [OF j] by (simp add: k from_be_snoc)
qed simp

lemma be_bytes_inject: "m < 256 ^ k \<Longrightarrow> n < 256 ^ k \<Longrightarrow> be_bytes k m = be_bytes k n \<longleftrightarrow> m = n"
  by (metis from_be_bytes)

definition u64_be :: "u64 \<Rightarrow> bytes" where
  "u64_be w = be_bytes 8 (unat w)"

definition u64_from_be :: "bytes \<Rightarrow> u64" where
  "u64_from_be bs = of_nat (from_be bs)"

lemma unat_u64_less: "unat (w::u64) < 256 ^ 8"
  using unsigned_less [of w, where 'a = nat] by simp

lemma u64_be_length [simp, text_codec]: "length (u64_be w) = 8"
  by (simp add: u64_be_def)

lemma u64_from_be_inverse [simp, text_codec]: "u64_from_be (u64_be w) = w"
  unfolding u64_from_be_def u64_be_def by (subst from_be_bytes [OF unat_u64_less]) simp

lemma u64_be_inverse [text_codec]: "length bs = 8 \<Longrightarrow> u64_be (u64_from_be bs) = bs"
proof -
  assume l: "length bs = 8"
  then have "from_be bs < 2 ^ 64" using from_be_less [of bs] by simp
  then show ?thesis
    by (simp add: u64_be_def u64_from_be_def unat_of_nat be_bytes_from_be [OF l])
qed

lemma u64_be_inject [simp]: "u64_be v = u64_be w \<longleftrightarrow> v = w"
  by (metis u64_from_be_inverse)

section \<open>Bytes as text\<close>

definition bytes_to_string :: "bytes \<Rightarrow> string" where
  "bytes_to_string bs = map (\<lambda>b. char_of (unat b)) bs"

lemma bytes_to_string_as_bytes [simp, text_codec]: "bytes_to_string (as_bytes s) = s"
  by (induction s) (simp_all add: bytes_to_string_def)

lemma length_bytes_to_string [simp]: "length (bytes_to_string bs) = length bs"
  by (simp add: bytes_to_string_def)

lemma as_bytes_bytes_to_string [simp, text_codec]: "as_bytes (bytes_to_string bs) = bs"
proof -
  have "(of_char (char_of (unat b) :: char) :: byte) = b" for b :: byte
  proof -
    have "unat b < 256" using unsigned_less [of b, where 'a = nat] by simp
    then show ?thesis by (simp add: word8_of_char)
  qed
  then show ?thesis by (simp add: as_bytes_def bytes_to_string_def comp_def)
qed

text \<open>The well-formedness table of UTF-8: the second byte is restricted after E0, ED, F0 and F4,
  so overlong forms, surrogates and code points above 10FFFF are rejected.\<close>

definition utf8_cont :: "char \<Rightarrow> bool" where
  "utf8_cont c \<longleftrightarrow> 128 \<le> code c \<and> code c \<le> 191"

definition utf8_second :: "nat \<Rightarrow> char \<Rightarrow> bool" where
  "utf8_second b c \<longleftrightarrow> utf8_cont c \<and>
     (b = 224 \<longrightarrow> 160 \<le> code c) \<and> (b = 237 \<longrightarrow> code c \<le> 159) \<and>
     (b = 240 \<longrightarrow> 144 \<le> code c) \<and> (b = 244 \<longrightarrow> code c \<le> 143)"

fun utf8_decode :: "string \<Rightarrow> nat list option" where
  "utf8_decode [] = Some []"
| "utf8_decode (c # s) =
     (if code c < 128 then map_option ((#) (code c)) (utf8_decode s)
      else if 194 \<le> code c \<and> code c \<le> 223 then
        (case s of
           c1 # s' \<Rightarrow>
             if utf8_cont c1
             then map_option ((#) ((code c - 192) * 64 + (code c1 - 128))) (utf8_decode s')
             else None
         | _ \<Rightarrow> None)
      else if 224 \<le> code c \<and> code c \<le> 239 then
        (case s of
           c1 # c2 # s' \<Rightarrow>
             if utf8_second (code c) c1 \<and> utf8_cont c2
             then map_option
                    ((#) ((code c - 224) * 4096 + (code c1 - 128) * 64 + (code c2 - 128)))
                    (utf8_decode s')
             else None
         | _ \<Rightarrow> None)
      else if 240 \<le> code c \<and> code c \<le> 244 then
        (case s of
           c1 # c2 # c3 # s' \<Rightarrow>
             if utf8_second (code c) c1 \<and> utf8_cont c2 \<and> utf8_cont c3
             then map_option
                    ((#) ((code c - 240) * 262144 + (code c1 - 128) * 4096
                          + (code c2 - 128) * 64 + (code c3 - 128)))
                    (utf8_decode s')
             else None
         | _ \<Rightarrow> None)
      else None)"

definition utf8_valid :: "string \<Rightarrow> bool" where
  "utf8_valid s \<longleftrightarrow> utf8_decode s \<noteq> None"

text \<open>\<^verbatim>\<open>str::chars().count()\<close> on a valid string: the bytes that are not continuation bytes.\<close>

definition chars_count :: "string \<Rightarrow> nat" where
  "chars_count s = length (filter (\<lambda>c. \<not> utf8_cont c) s)"

lemma utf8_decode_ascii: "list_all is_ascii s \<Longrightarrow> utf8_decode s = Some (map code s)"
  by (induction s) (simp_all add: is_ascii_def)

lemma utf8_valid_ascii: "list_all is_ascii s \<Longrightarrow> utf8_valid s"
  by (simp add: utf8_valid_def utf8_decode_ascii)

lemma chars_count_decode: "utf8_decode s = Some cs \<Longrightarrow> length cs = chars_count s"
  by (induction s arbitrary: cs rule: utf8_decode.induct)
     (auto simp: chars_count_def utf8_cont_def utf8_second_def split: if_splits list.splits)

section \<open>White space and decimal integers\<close>

definition is_whitespace :: "nat \<Rightarrow> bool" where
  "is_whitespace n \<longleftrightarrow> (9 \<le> n \<and> n \<le> 13) \<or> n = 32 \<or> n = 133 \<or> n = 160 \<or> n = 5760
     \<or> (8192 \<le> n \<and> n \<le> 8202) \<or> n = 8232 \<or> n = 8233 \<or> n = 8239 \<or> n = 8287 \<or> n = 12288"

definition is_control :: "nat \<Rightarrow> bool" where
  "is_control n \<longleftrightarrow> n < 32 \<or> (127 \<le> n \<and> n < 160)"

definition trim_chars :: "nat list \<Rightarrow> nat list" where
  "trim_chars cs = rev (dropWhile is_whitespace (rev (dropWhile is_whitespace cs)))"

fun dec_string :: "nat \<Rightarrow> string" where
  "dec_string n =
     (if n < 10 then [''0123456789'' ! n] else dec_string (n div 10) @ [''0123456789'' ! (n mod 10)])"

declare dec_string.simps [simp del]

definition u64_to_string :: "u64 \<Rightarrow> string" where
  "u64_to_string w = dec_string (unat w)"

definition dec_value :: "nat list \<Rightarrow> nat" where
  "dec_value cs = foldl (\<lambda>a c. 10 * a + (c - 48)) 0 cs"

text \<open>\<^verbatim>\<open>str::parse::<u64>\<close>: an optional plus sign, at least one ASCII digit, no overflow.\<close>

definition parse_digits :: "nat list \<Rightarrow> u64 option" where
  "parse_digits cs =
     (if cs = [] \<or> \<not> list_all (\<lambda>c. 48 \<le> c \<and> c \<le> 57) cs \<or> 2 ^ 64 \<le> dec_value cs then None
      else Some (of_nat (dec_value cs)))"

definition parse_u64 :: "nat list \<Rightarrow> u64 option" where
  "parse_u64 cs =
     (case cs of [] \<Rightarrow> None | c # cs' \<Rightarrow> if c = 43 then parse_digits cs' else parse_digits cs)"

lemma digit_code: "n < 10 \<Longrightarrow> code (''0123456789'' ! n) = 48 + n"
proof -
  assume "n < 10"
  then have "n \<in> {0, 1, 2, 3, 4, 5, 6, 7, 8, 9}" by auto
  then show ?thesis by (elim insertE emptyE) simp_all
qed

lemma dec_string_digits:
  "list_all (\<lambda>c. 48 \<le> code c \<and> code c \<le> 57) (dec_string n) \<and> dec_string n \<noteq> []"
  by (induction n rule: dec_string.induct, subst dec_string.simps, subst (2) dec_string.simps)
     (auto simp: digit_code)

lemma dec_value_dec_string: "dec_value (map code (dec_string n)) = n"
proof (induction n rule: dec_string.induct)
  case (1 n)
  show ?case
  proof (cases "n < 10")
    case True
    then show ?thesis by (subst dec_string.simps) (simp add: dec_value_def digit_code)
  next
    case False
    then show ?thesis
      using 1 by (subst dec_string.simps) (simp add: dec_value_def digit_code)
  qed
qed

lemma dec_string_ascii: "list_all is_ascii (dec_string n)"
  using dec_string_digits [of n] by (auto simp: list_all_iff is_ascii_def)

lemma dropWhile_none: "\<forall>c \<in> set cs. \<not> P c \<Longrightarrow> dropWhile P cs = cs"
  by (cases cs) simp_all

lemma trim_chars_id: "\<forall>c \<in> set cs. \<not> is_whitespace c \<Longrightarrow> trim_chars cs = cs"
  using dropWhile_none [of cs is_whitespace] dropWhile_none [of "rev cs" is_whitespace]
  by (simp add: trim_chars_def)

lemma dec_string_codes:
  "list_all (\<lambda>c. 48 \<le> c \<and> c \<le> 57) (map code (dec_string n))" "map code (dec_string n) \<noteq> []"
  using dec_string_digits [of n] by (auto simp: list_all_iff)

lemma trim_u64_to_string [simp]: "trim_chars (map code (u64_to_string w)) = map code (u64_to_string w)"
  unfolding u64_to_string_def
  by (rule trim_chars_id) (use dec_string_codes(1) [of "unat w"] in \<open>auto simp: list_all_iff is_whitespace_def\<close>)

lemma parse_u64_to_string [simp, text_codec]: "parse_u64 (map code (u64_to_string w)) = Some w"
proof -
  let ?cs = "map code (dec_string (unat w))"
  note d = dec_string_codes [of "unat w"]
  have "hd ?cs \<noteq> 43" using d by (cases ?cs) auto
  then have "parse_u64 ?cs = parse_digits ?cs"
    using d(2) by (auto simp: parse_u64_def split: list.splits)
  also have "\<dots> = Some w"
    using d dec_value_dec_string [of "unat w"] unsigned_less [of w, where 'a = nat]
    by (simp add: parse_digits_def)
  finally show ?thesis by (simp add: u64_to_string_def)
qed

lemma u64_to_string_utf8 [simp]: "utf8_decode (u64_to_string w) = Some (map code (u64_to_string w))"
  by (simp add: u64_to_string_def utf8_decode_ascii dec_string_ascii)

interpretation u64_bytes: codec u64_be "\<lambda>bs. if length bs = 8 then Some (u64_from_be bs) else None"
    "\<lambda>_. True"
  by unfold_locales simp

interpretation u64_text: codec u64_to_string
    "\<lambda>s. Option.bind (utf8_decode s) (\<lambda>cs. parse_u64 (trim_chars cs))" "\<lambda>_. True"
  by unfold_locales simp

end
