(* ===== verification/Store_Format.thy ===== *)
theory Store_Format
  imports AD_Bytes
begin

text \<open>
  The byte formats of the encrypted store (\<^verbatim>\<open>storage.rs\<close>): the record payload inside the ciphertext,
  the store file around it, the revision marker and the recovery artifact.  Records are kept in a
  \<^verbatim>\<open>BTreeMap\<close> ordered by class and key, and are written in that order.

  The JSON text of the recovery manifest and SHA-256 come from third-party crates; they are
  arguments of the definitions that use them.
\<close>

section \<open>Definitions\<close>

definition FILE_MAGIC :: bytes where "FILE_MAGIC = as_bytes ''ADSTORE1''"
definition FILE_VERSION :: byte where "FILE_VERSION = 1"
definition SALT_BYTES :: nat where "SALT_BYTES = 16"
definition NONCE_BYTES :: nat where "NONCE_BYTES = 12"
definition KEY_BYTES :: nat where "KEY_BYTES = 32"
definition MAX_RECORDS :: nat where "MAX_RECORDS = 4096"
definition RECOVERY_MAGIC :: bytes where "RECOVERY_MAGIC = as_bytes ''ADRECOVERY2'' @ [0, 0]"
definition MAX_RECOVERY_ARTIFACT_BYTES :: nat where
  "MAX_RECOVERY_ARTIFACT_BYTES = 64 * 1024 * 1024"
definition MAX_KEY_BYTES :: nat where "MAX_KEY_BYTES = 256"
definition MAX_VALUE_BYTES :: nat where "MAX_VALUE_BYTES = 4 * 1024 * 1024"
definition MAX_PASSPHRASE_CHARS :: nat where "MAX_PASSPHRASE_CHARS = 1024"

lemmas store_consts = FILE_MAGIC_def FILE_VERSION_def SALT_BYTES_def NONCE_BYTES_def KEY_BYTES_def
  MAX_RECORDS_def RECOVERY_MAGIC_def MAX_RECOVERY_ARTIFACT_BYTES_def MAX_KEY_BYTES_def
  MAX_VALUE_BYTES_def MAX_PASSPHRASE_CHARS_def

datatype RecordClass =
  AccountRoot | Device | ProtocolSession | Transcript | Recovery | Account | Contact
  | Conversation | Message | Outbox | Inbox | Attachment | Seen

fun class_number :: "RecordClass \<Rightarrow> nat" where
  "class_number AccountRoot = 1"
| "class_number Device = 2"
| "class_number ProtocolSession = 3"
| "class_number Transcript = 4"
| "class_number Recovery = 5"
| "class_number Account = 6"
| "class_number Contact = 7"
| "class_number Conversation = 8"
| "class_number Message = 9"
| "class_number Outbox = 10"
| "class_number Inbox = 11"
| "class_number Attachment = 12"
| "class_number Seen = 13"

datatype StorageError =
  Io | WeakPassphrase | InvalidPassphrase | CorruptStore | AuthenticationFailed
  | RollbackDetected | RecordTooLarge | TooManyRecords | OsKeyStoreUnavailable | Locked

definition from_byte :: "byte \<Rightarrow> StorageError + RecordClass" where
  "from_byte b =
     (if b = 1 then Ok AccountRoot else if b = 2 then Ok Device
      else if b = 3 then Ok ProtocolSession else if b = 4 then Ok Transcript
      else if b = 5 then Ok Recovery else if b = 6 then Ok Account
      else if b = 7 then Ok Contact else if b = 8 then Ok Conversation
      else if b = 9 then Ok Message else if b = 10 then Ok Outbox
      else if b = 11 then Ok Inbox else if b = 12 then Ok Attachment
      else if b = 13 then Ok Seen else Err CorruptStore)"

text \<open>The derived order of the enumeration is the order of its discriminants.\<close>

lemma class_number_inject [simp]: "class_number c = class_number d \<longleftrightarrow> c = d"
  by (cases c; cases d) simp_all

instantiation RecordClass :: linorder
begin

definition less_eq_RecordClass :: "RecordClass \<Rightarrow> RecordClass \<Rightarrow> bool" where
  "less_eq_RecordClass c d \<longleftrightarrow> class_number c \<le> class_number d"

definition less_RecordClass :: "RecordClass \<Rightarrow> RecordClass \<Rightarrow> bool" where
  "less_RecordClass c d \<longleftrightarrow> class_number c < class_number d"

instance
  by standard (auto simp: less_eq_RecordClass_def less_RecordClass_def)

end

type_synonym record_key = "RecordClass \<times> string"
type_synonym records = "(record_key, bytes) btree"

datatype RecordMutation = Put RecordClass string bytes | Delete RecordClass string

definition validate_passphrase :: "string \<Rightarrow> StorageError + unit" where
  "validate_passphrase passphrase =
     (let len = chars_count passphrase in
      if len < 12 then Err WeakPassphrase
      else if MAX_PASSPHRASE_CHARS < len then Err InvalidPassphrase
      else Ok ())"

definition validate_record_key :: "string \<Rightarrow> StorageError + unit" where
  "validate_record_key key =
     (if key = [] \<or> MAX_KEY_BYTES < length key
         \<or> list_ex (\<lambda>c. code c = 0 \<or> is_ascii_control c) key
      then Err RecordTooLarge else Ok ())"

definition associated_data :: "bytes \<Rightarrow> u64 \<Rightarrow> bytes" where
  "associated_data salt revision = FILE_MAGIC @ [FILE_VERSION] @ salt @ u64_be revision"

definition encode_file :: "bytes \<Rightarrow> u64 \<Rightarrow> bytes \<Rightarrow> bytes \<Rightarrow> bytes" where
  "encode_file salt revision nonce ciphertext =
     FILE_MAGIC @ [FILE_VERSION] @ salt @ u64_be revision @ nonce @ ciphertext"

record ParsedFile =
  pf_salt :: bytes
  pf_revision :: u64
  pf_nonce :: bytes
  pf_ciphertext :: bytes

definition parse_file :: "bytes \<Rightarrow> StorageError + ParsedFile" where
  "parse_file bs =
     (if length bs < 8 + 1 + SALT_BYTES + 8 + NONCE_BYTES + 16
         \<or> take 8 bs \<noteq> FILE_MAGIC \<or> bs ! 8 \<noteq> FILE_VERSION
      then Err CorruptStore
      else Ok \<lparr> pf_salt = take SALT_BYTES (drop 9 bs),
                pf_revision = u64_from_be (take 8 (drop (9 + SALT_BYTES) bs)),
                pf_nonce = take NONCE_BYTES (drop (9 + SALT_BYTES + 8) bs),
                pf_ciphertext = drop (9 + SALT_BYTES + 8 + NONCE_BYTES) bs \<rparr>)"

definition encode_record :: "record_key \<Rightarrow> bytes \<Rightarrow> bytes" where
  "encode_record k v =
     of_nat (class_number (fst k)) # be_bytes 2 (length (snd k)) @ be_bytes 4 (length v)
       @ as_bytes (snd k) @ v"

fun encode_entries :: "(record_key \<times> bytes) list \<Rightarrow> StorageError + bytes" where
  "encode_entries [] = Ok []"
| "encode_entries ((k, v) # es) =
     res_bind (validate_record_key (snd k)) (\<lambda>_.
       if MAX_VALUE_BYTES < length v then Err RecordTooLarge
       else res_bind (encode_entries es) (\<lambda>bs. Ok (encode_record k v @ bs)))"

definition encode_records :: "records \<Rightarrow> StorageError + bytes" where
  "encode_records m =
     (if MAX_RECORDS < fcard (fmdom m) then Err TooManyRecords
      else res_bind (encode_entries (sorted_list_of_fmap m)) (\<lambda>bs.
             Ok (as_bytes ''ADPAY1'' @ be_bytes 4 (fcard (fmdom m)) @ bs)))"

text \<open>The decoding loop.  Its last argument is the input from the current offset on, so that the
  test against the total length is a test of what is left.\<close>

fun decode_entries :: "nat \<Rightarrow> records \<Rightarrow> bytes \<Rightarrow> StorageError + records \<times> bytes" where
  "decode_entries 0 m bs = Ok (m, bs)"
| "decode_entries (Suc n) m bs =
     (if length bs < 7 then Err CorruptStore
      else res_bind (from_byte (bs ! 0)) (\<lambda>class.
        let key_len = from_be (take 2 (drop 1 bs));
            value_len = from_be (take 4 (drop 3 bs));
            rest = drop 7 bs
        in if MAX_KEY_BYTES < key_len \<or> MAX_VALUE_BYTES < value_len
              \<or> length rest < key_len + value_len
           then Err CorruptStore
           else let key = bytes_to_string (take key_len rest) in
             if \<not> utf8_valid key then Err CorruptStore
             else res_bind (validate_record_key key) (\<lambda>_.
               if fmlookup m (class, key) \<noteq> None then Err CorruptStore
               else decode_entries n
                      (fmupd (class, key) (take value_len (drop key_len rest)) m)
                      (drop (key_len + value_len) rest))))"

definition decode_records :: "bytes \<Rightarrow> StorageError + records" where
  "decode_records bs =
     (if length bs < 10 \<or> take 6 bs \<noteq> as_bytes ''ADPAY1'' then Err CorruptStore
      else let count = from_be (take 4 (drop 6 bs)) in
        if MAX_RECORDS < count then Err TooManyRecords
        else res_bind (decode_entries count fmempty (drop 10 bs)) (\<lambda>(m, rest).
               if rest \<noteq> [] then Err CorruptStore else Ok m))"

text \<open>The marker file: reading it fails on invalid UTF-8 like any other read error.\<close>

definition marker_bytes :: "u64 \<Rightarrow> bytes" where
  "marker_bytes revision = as_bytes (u64_to_string revision)"

definition read_marker_text :: "bytes \<Rightarrow> StorageError + u64" where
  "read_marker_text content =
     (case utf8_decode (bytes_to_string content) of
        None \<Rightarrow> Err Io
      | Some cs \<Rightarrow> ok_or (parse_u64 (trim_chars cs)) CorruptStore)"

record RecoveryManifest =
  schema_version :: u16
  created_at :: u64
  store_bytes :: u64
  revision_bytes :: u64
  store_sha256 :: string
  revision_sha256 :: string

definition append_blob :: "bytes \<Rightarrow> bytes \<Rightarrow> bytes" where
  "append_blob output value = output @ be_bytes 8 (length value) @ value"

definition read_blob :: "bytes \<Rightarrow> nat \<Rightarrow> StorageError + bytes \<times> nat" where
  "read_blob bs offset =
     (if length bs < offset + 8 then Err CorruptStore
      else let len = from_be (take 8 (drop offset bs)) in
        if length bs < offset + 8 + len then Err CorruptStore
        else Ok (take len (drop (offset + 8) bs), offset + 8 + len))"

definition recovery_manifest ::
    "(bytes \<Rightarrow> bytes) \<Rightarrow> u64 \<Rightarrow> bytes \<Rightarrow> bytes \<Rightarrow> RecoveryManifest" where
  "recovery_manifest sha256 created store revision =
     \<lparr> schema_version = 2, created_at = created,
       store_bytes = of_nat (length store), revision_bytes = of_nat (length revision),
       store_sha256 = hex (sha256 store), revision_sha256 = hex (sha256 revision) \<rparr>"

definition recovery_artifact ::
    "(RecoveryManifest \<Rightarrow> bytes) \<Rightarrow> (bytes \<Rightarrow> bytes) \<Rightarrow> u64 \<Rightarrow> bytes \<Rightarrow> bytes \<Rightarrow> bytes" where
  "recovery_artifact to_json sha256 created store revision =
     append_blob (append_blob (append_blob RECOVERY_MAGIC
       (to_json (recovery_manifest sha256 created store revision))) store) revision"

definition parse_recovery_artifact ::
    "(bytes \<Rightarrow> RecoveryManifest option) \<Rightarrow> (bytes \<Rightarrow> bytes) \<Rightarrow> bytes
      \<Rightarrow> StorageError + bytes \<times> bytes" where
  "parse_recovery_artifact of_json sha256 bs =
     (if MAX_RECOVERY_ARTIFACT_BYTES < length bs
         \<or> take (length RECOVERY_MAGIC) bs \<noteq> RECOVERY_MAGIC
      then Err CorruptStore
      else res_bind (read_blob bs (length RECOVERY_MAGIC)) (\<lambda>(manifest_bytes, offset1).
           res_bind (ok_or (of_json manifest_bytes) CorruptStore) (\<lambda>manifest.
           res_bind (read_blob bs offset1) (\<lambda>(store, offset2).
           res_bind (read_blob bs offset2) (\<lambda>(revision, end).
             if end \<noteq> length bs \<or> schema_version manifest \<noteq> 2
                \<or> store_bytes manifest \<noteq> of_nat (length store)
                \<or> revision_bytes manifest \<noteq> of_nat (length revision)
                \<or> store_sha256 manifest \<noteq> hex (sha256 store)
                \<or> revision_sha256 manifest \<noteq> hex (sha256 revision)
                \<or> store = [] \<or> revision = []
             then Err CorruptStore
             else res_bind (parse_file store) (\<lambda>parsed.
                  res_bind (ok_or (utf8_decode (bytes_to_string revision)) CorruptStore) (\<lambda>cs.
                  res_bind (ok_or (parse_u64 (trim_chars cs)) CorruptStore) (\<lambda>marker.
                    if pf_revision parsed \<noteq> marker then Err CorruptStore
                    else Ok (store, revision)))))))))"

section \<open>Single records\<close>

definition wf_key :: "string \<Rightarrow> bool" where
  "wf_key s \<longleftrightarrow> s \<noteq> [] \<and> length s \<le> 256 \<and> (\<forall>c \<in> set s. \<not> is_ascii_control c)"

lemma validate_record_key_ok [simp]: "validate_record_key s = Ok u \<longleftrightarrow> wf_key s"
proof -
  have "(code c = 0 \<or> is_ascii_control c) = is_ascii_control c" for c
    by (auto simp: ascii_defs)
  then show ?thesis
    by (auto simp: validate_record_key_def wf_key_def list_ex_iff MAX_KEY_BYTES_def)
qed

lemma validate_record_key_wf [simp]: "wf_key s \<Longrightarrow> validate_record_key s = Ok ()"
  by simp

lemma from_byte_class [simp]: "from_byte (of_nat (class_number c)) = Ok c"
  by (cases c) (simp_all add: from_byte_def)

lemma from_byte_ok: "from_byte b = Ok c \<Longrightarrow> b = of_nat (class_number c)"
  by (auto simp: from_byte_def split: if_splits)

lemma encode_record_fields:
  "(encode_record k v @ r) ! 0 = of_nat (class_number (fst k))"
  "take 2 (drop 1 (encode_record k v @ r)) = be_bytes 2 (length (snd k))"
  "take 4 (drop 3 (encode_record k v @ r)) = be_bytes 4 (length v)"
  "drop 7 (encode_record k v @ r) = as_bytes (snd k) @ v @ r"
  "7 \<le> length (encode_record k v @ r)"
  by (simp_all add: encode_record_def)

lemma decode_entries_step:
  assumes "wf_key (snd k)" "utf8_valid (snd k)" "length v \<le> MAX_VALUE_BYTES" "fmlookup m k = None"
  shows "decode_entries (Suc n) m (encode_record k v @ r) = decode_entries n (fmupd k v m) r"
proof -
  have kl: "length (snd k) \<le> MAX_KEY_BYTES" "length (snd k) < 256 ^ 2"
    using assms(1) by (simp_all add: wf_key_def MAX_KEY_BYTES_def)
  have vl: "length v < 256 ^ 4" using assms(3) by (simp add: MAX_VALUE_BYTES_def)
  show ?thesis
    unfolding decode_entries.simps encode_record_fields
    using assms kl vl encode_record_fields(5) [of k v r]
    by (simp add: Let_def del: be_bytes.simps)
qed

section \<open>Record payloads\<close>

abbreviation "upd_all \<equiv> foldl (\<lambda>m (k, v). fmupd k v m)"

lemma fmlookup_upd_all:
  "distinct (map fst es) \<Longrightarrow>
     fmlookup (upd_all m es) k = (case map_of es k of Some v \<Rightarrow> Some v | None \<Rightarrow> fmlookup m k)"
proof (induction es arbitrary: m)
  case (Cons e es)
  obtain a b where e: "e = (a, b)" by (cases e)
  have "k = a \<Longrightarrow> map_of es k = None"
    using Cons.prems by (simp add: e map_of_eq_None_iff)
  then show ?case using Cons by (auto simp: e split: option.splits)
qed simp

lemma upd_all_sorted_list: "upd_all fmempty (sorted_list_of_fmap m) = m"
  by (rule fmap_ext) (simp add: fmlookup_upd_all distinct_sorted_list_of_fmap split: option.split)

lemma decode_encode_entries:
  assumes "encode_entries es = Ok bs" "\<forall>(k, v) \<in> set es. utf8_valid (snd k)"
    "distinct (map fst es)" "\<forall>(k, v) \<in> set es. fmlookup m k = None"
  shows "decode_entries (length es) m (bs @ r) = Ok (upd_all m es, r)"
  using assms
proof (induction es arbitrary: m bs)
  case (Cons e es)
  obtain k v where e: "e = (k, v)" by (cases e)
  obtain bs' where bs: "bs = encode_record k v @ bs'" and bs': "encode_entries es = Ok bs'"
    and k: "wf_key (snd k)" and v: "length v \<le> MAX_VALUE_BYTES"
    using Cons.prems(1) by (auto simp: e split: if_splits)
  have "decode_entries (length (e # es)) m (bs @ r) = decode_entries (length es) (fmupd k v m) (bs' @ r)"
    using decode_entries_step [OF k _ v, of m "length es" "bs' @ r"] Cons.prems(2,4)
    by (simp add: e bs del: decode_entries.simps)
  also have "\<dots> = Ok (upd_all (fmupd k v m) es, r)"
    using Cons.prems by (intro Cons.IH bs') (force simp: e image_iff)+
  finally show ?case by (simp add: e)
qed simp

lemma encode_entries_ok_iff:
  "(\<exists>bs. encode_entries es = Ok bs) \<longleftrightarrow>
     (\<forall>(k, v) \<in> set es. wf_key (snd k) \<and> length v \<le> MAX_VALUE_BYTES)"
  by (induction es rule: encode_entries.induct) auto

text \<open>The records the store can hold: bounded in number, with valid keys (Rust strings are UTF-8) and
  bounded values.\<close>

definition wf_records :: "records \<Rightarrow> bool" where
  "wf_records m \<longleftrightarrow> fcard (fmdom m) \<le> MAX_RECORDS \<and>
     (\<forall>k v. fmlookup m k = Some v \<longrightarrow>
        wf_key (snd k) \<and> utf8_valid (snd k) \<and> length v \<le> MAX_VALUE_BYTES)"

lemma wf_records_utf8: "wf_records m \<Longrightarrow> \<forall>k v. fmlookup m k = Some v \<longrightarrow> utf8_valid (snd k)"
  by (auto simp: wf_records_def)

lemma encode_records_ok_iff:
  "(\<exists>bs. encode_records m = Ok bs) \<longleftrightarrow>
     fcard (fmdom m) \<le> MAX_RECORDS \<and>
     (\<forall>k v. fmlookup m k = Some v \<longrightarrow> wf_key (snd k) \<and> length v \<le> MAX_VALUE_BYTES)"
proof -
  have "(\<exists>bs. encode_records m = Ok bs) \<longleftrightarrow>
      fcard (fmdom m) \<le> MAX_RECORDS \<and> (\<exists>bs. encode_entries (sorted_list_of_fmap m) = Ok bs)"
    by (auto simp: encode_records_def)
  then show ?thesis
    by (force simp: encode_entries_ok_iff set_sorted_list_of_fmap)
qed

lemma decode_records_header:
  "n < 256 ^ 4 \<Longrightarrow> decode_records (as_bytes ''ADPAY1'' @ be_bytes 4 n @ bs) =
     (if MAX_RECORDS < n then Err TooManyRecords
      else res_bind (decode_entries n fmempty bs) (\<lambda>(m, rest).
             if rest \<noteq> [] then Err CorruptStore else Ok m))"
  by (simp add: decode_records_def Let_def del: be_bytes.simps as_bytes_simps(2))

lemma decode_encode_records:
  assumes "encode_records m = Ok bs" "\<forall>k v. fmlookup m k = Some v \<longrightarrow> utf8_valid (snd k)"
  shows "decode_records bs = Ok m"
proof -
  let ?es = "sorted_list_of_fmap m"
  obtain es where c: "fcard (fmdom m) \<le> MAX_RECORDS" and es: "encode_entries ?es = Ok es"
    and bs: "bs = as_bytes ''ADPAY1'' @ be_bytes 4 (fcard (fmdom m)) @ es"
    using assms(1) by (auto simp: encode_records_def split: if_splits)
  have "decode_entries (length ?es) fmempty (es @ []) = Ok (upd_all fmempty ?es, [])"
    using assms(2) es
    by (intro decode_encode_entries)
       (fastforce simp: set_sorted_list_of_fmap distinct_sorted_list_of_fmap)+
  moreover have "fcard (fmdom m) < 256 ^ 4" using c by (simp add: MAX_RECORDS_def)
  ultimately show ?thesis
    using c by (simp add: bs decode_records_header upd_all_sorted_list length_sorted_list_of_fmap
                     del: as_bytes_simps be_bytes.simps)
qed

lemma fmupd_all:
  "\<forall>k v. fmlookup m k = Some v \<longrightarrow> P k v \<Longrightarrow> P a b \<Longrightarrow>
     \<forall>k v. fmlookup (fmupd a b m) k = Some v \<longrightarrow> P k v"
  by simp

lemma decode_entries_wf:
  assumes "decode_entries n m bs = Ok (m', rest)"
    and "\<forall>k v. fmlookup m k = Some v \<longrightarrow>
           wf_key (snd k) \<and> utf8_valid (snd k) \<and> length v \<le> MAX_VALUE_BYTES"
  shows "fcard (fmdom m') = fcard (fmdom m) + n \<and>
         (\<forall>k v. fmlookup m' k = Some v \<longrightarrow>
            wf_key (snd k) \<and> utf8_valid (snd k) \<and> length v \<le> MAX_VALUE_BYTES)"
  using assms
proof (induction n arbitrary: m bs)
  case (Suc n)
  let ?kl = "from_be (take 2 (drop 1 bs))" and ?vl = "from_be (take 4 (drop 3 bs))"
  let ?key = "bytes_to_string (take ?kl (drop 7 bs))"
  let ?val = "take ?vl (drop ?kl (drop 7 bs))"
  obtain cl where g: "?vl \<le> MAX_VALUE_BYTES"
    and u: "utf8_valid ?key" and w: "wf_key ?key" and n: "fmlookup m (cl, ?key) = None"
    and d: "decode_entries n (fmupd (cl, ?key) ?val m) (drop (?kl + ?vl) (drop 7 bs))
              = Ok (m', rest)"
    using Suc.prems(1) by (auto simp: Let_def not_less split: if_splits simp del: drop_drop)
  have c: "fcard (fmdom (fmupd (cl, ?key) ?val m)) = Suc (fcard (fmdom m))"
    using n by (simp add: fcard_finsert_if fmlookup_dom_iff)
  have wf: "\<forall>k v. fmlookup (fmupd (cl, ?key) ?val m) k = Some v \<longrightarrow>
      wf_key (snd k) \<and> utf8_valid (snd k) \<and> length v \<le> MAX_VALUE_BYTES"
    using u w g
    by (intro fmupd_all [where P = "\<lambda>k v. wf_key (snd k) \<and> utf8_valid (snd k) \<and>
              length v \<le> MAX_VALUE_BYTES", OF Suc.prems(2)])
       (simp only: snd_conv length_take min.coboundedI2 simp_thms)
  show ?case
    using Suc.IH [OF d wf] unfolding c by (simp only: add_Suc add_Suc_right simp_thms) blast
qed simp

lemma decode_records_wf: "decode_records bs = Ok m \<Longrightarrow> wf_records m"
proof -
  let ?n = "from_be (take 4 (drop 6 bs))"
  assume "decode_records bs = Ok m"
  then have n: "?n \<le> MAX_RECORDS" and d: "decode_entries ?n fmempty (drop 10 bs) = Ok (m, [])"
    by (auto simp: decode_records_def Let_def split: if_splits)
  show ?thesis
    using decode_entries_wf [OF d] n by (simp add: wf_records_def fcard_fempty)
qed

section \<open>Store file, marker and recovery artifact\<close>

lemma parse_encode_file:
  assumes "length salt = SALT_BYTES" "length nonce = NONCE_BYTES" "16 \<le> length ct"
  shows "parse_file (encode_file salt r nonce ct) =
    Ok \<lparr> pf_salt = salt, pf_revision = r, pf_nonce = nonce, pf_ciphertext = ct \<rparr>"
  using assms by (simp add: parse_file_def encode_file_def store_consts nth_append)

lemma encode_parse_file:
  assumes "parse_file bs = Ok p"
  shows "encode_file (pf_salt p) (pf_revision p) (pf_nonce p) (pf_ciphertext p) = bs"
    and "length (pf_salt p) = SALT_BYTES" and "length (pf_nonce p) = NONCE_BYTES"
    and "16 \<le> length (pf_ciphertext p)"
proof -
  have p: "p = \<lparr> pf_salt = take 16 (drop 9 bs), pf_revision = u64_from_be (take 8 (drop 25 bs)),
      pf_nonce = take 12 (drop 33 bs), pf_ciphertext = drop 45 bs \<rparr>"
    and l: "61 \<le> length bs" and m: "take 8 bs = FILE_MAGIC" and v: "bs ! 8 = FILE_VERSION"
    using assms
    by (auto simp: parse_file_def SALT_BYTES_def NONCE_BYTES_def split: if_splits)
  have t: "take 8 (drop 25 bs) @ take 12 (drop 33 bs) @ drop 45 bs = drop 25 bs"
    using append_take_drop_id [of 8 "drop 25 bs"] append_take_drop_id [of 12 "drop 33 bs"] by simp
  have "bs = take 8 bs @ bs ! 8 # drop 9 bs"
    using l id_take_nth_drop [of 8 bs] by simp
  moreover have "drop 9 bs = take 16 (drop 9 bs) @ drop 25 bs"
    using append_take_drop_id [of 16 "drop 9 bs"] by simp
  ultimately show "encode_file (pf_salt p) (pf_revision p) (pf_nonce p) (pf_ciphertext p) = bs"
    using l m v t by (simp add: p encode_file_def u64_be_inverse)
  show "length (pf_salt p) = SALT_BYTES" "length (pf_nonce p) = NONCE_BYTES"
    "16 \<le> length (pf_ciphertext p)"
    using l by (simp_all add: p SALT_BYTES_def NONCE_BYTES_def)
qed

lemma read_marker_bytes [simp]: "read_marker_text (marker_bytes r) = Ok r"
  by (simp add: read_marker_text_def marker_bytes_def)

lemma read_blob_append:
  assumes "length value < 256 ^ 8"
  shows "read_blob (append_blob out value @ rest) (length out)
    = Ok (value, length (append_blob out value))"
proof -
  have "take 8 (drop (length out) (append_blob out value @ rest)) = be_bytes 8 (length value)"
    by (simp add: append_blob_def)
  then show ?thesis
    using assms by (simp add: read_blob_def append_blob_def Let_def from_be_bytes del: be_bytes.simps)
qed

lemma append_blob_assoc: "append_blob (out @ x) value = out @ append_blob x value"
  by (simp add: append_blob_def)

lemma dec_string_nonempty [simp]: "dec_string n \<noteq> []"
  using dec_string_digits by blast

lemma parse_recovery_artifact_complete:
  assumes json: "of_json (to_json (recovery_manifest sha created store (marker_bytes r)))
      = Some (recovery_manifest sha created store (marker_bytes r))"
    and size: "length (recovery_artifact to_json sha created store (marker_bytes r)) \<le> MAX_RECOVERY_ARTIFACT_BYTES"
    and parsed: "parse_file store = Ok p" "pf_revision p = r"
  shows "parse_recovery_artifact of_json sha
      (recovery_artifact to_json sha created store (marker_bytes r)) = Ok (store, marker_bytes r)"
proof -
  let ?manifest = "recovery_manifest sha created store (marker_bytes r)"
  define a1 where "a1 = append_blob RECOVERY_MAGIC (to_json ?manifest)"
  define a2 where "a2 = append_blob a1 store"
  define a3 where "a3 = append_blob a2 (marker_bytes r)"
  have art: "recovery_artifact to_json sha created store (marker_bytes r) = a3"
    by (simp add: recovery_artifact_def a3_def a2_def a1_def)
  have pre: "a3 = a2 @ be_bytes 8 (length (marker_bytes r)) @ marker_bytes r"
    "a2 = a1 @ be_bytes 8 (length store) @ store"
    "a1 = RECOVERY_MAGIC @ be_bytes 8 (length (to_json ?manifest)) @ to_json ?manifest"
    by (simp_all add: a1_def a2_def a3_def append_blob_def)
  have len: "length (to_json ?manifest) < 256 ^ 8" "length store < 256 ^ 8"
    "length (marker_bytes r) < 256 ^ 8"
    using size unfolding art pre MAX_RECOVERY_ARTIFACT_BYTES_def by simp_all
  have b1: "read_blob a3 (length RECOVERY_MAGIC) = Ok (to_json ?manifest, length a1)"
    using read_blob_append [OF len(1), of RECOVERY_MAGIC] a1_def pre(1,2) by simp
  have b2: "read_blob a3 (length a1) = Ok (store, length a2)"
    using read_blob_append [OF len(2), of a1] a2_def pre(1) by simp
  have b3: "read_blob a3 (length a2) = Ok (marker_bytes r, length a3)"
    using read_blob_append [OF len(3), of a2 "[]"] a3_def by simp
  have magic: "take (length RECOVERY_MAGIC) a3 = RECOVERY_MAGIC" using pre by simp
  have ne: "store \<noteq> []" "marker_bytes r \<noteq> []"
    using parsed(1)
    by (auto simp: parse_file_def store_consts marker_bytes_def as_bytes_def u64_to_string_def
             split: if_splits)
  show ?thesis
    using size ne parsed unfolding art parse_recovery_artifact_def magic
    by (simp add: b1 b2 b3 json) (simp add: recovery_manifest_def marker_bytes_def)
qed

lemma parse_recovery_artifact_sound:
  assumes "parse_recovery_artifact of_json sha bs = Ok (store, marker)"
  obtains p where "parse_file store = Ok p" "read_marker_text marker = Ok (pf_revision p)"
  using assms
  by (auto simp: parse_recovery_artifact_def read_marker_text_def split: if_splits prod.splits)

section \<open>Properties\<close>


text \<open>The store file format is unambiguous: parsing a file succeeds with certain fields exactly
  when the file is the encoding of these fields and they have the fixed sizes, with room for the
  authentication tag.\<close>
theorem parse_file_exact:
  "parse_file bs = Ok p \<longleftrightarrow>
     bs = encode_file (pf_salt p) (pf_revision p) (pf_nonce p) (pf_ciphertext p) \<and>
     length (pf_salt p) = 16 \<and> length (pf_nonce p) = 12 \<and> 16 \<le> length (pf_ciphertext p)"
  using encode_parse_file [of bs p]
    parse_encode_file [of "pf_salt p" "pf_nonce p" "pf_ciphertext p" "pf_revision p"]
  by (auto simp: SALT_BYTES_def NONCE_BYTES_def)

text \<open>C16. A recovery artifact gives back the two files it was made from: for a parseable store file and
  the marker of the same revision, parsing the exported artifact returns both files unchanged, as
  long as it fits the size limit.  The only assumption on the JSON library is that it reads back the
  manifest it wrote.\<close>
theorem recovery_artifact_round_trip:
  assumes "of_json (to_json (recovery_manifest sha created store (marker_bytes (pf_revision p))))
      = Some (recovery_manifest sha created store (marker_bytes (pf_revision p)))"
    and "length (recovery_artifact to_json sha created store (marker_bytes (pf_revision p))) \<le> 64 * 1024 * 1024"
    and "parse_file store = Ok p"
  shows "parse_recovery_artifact of_json sha
      (recovery_artifact to_json sha created store (marker_bytes (pf_revision p)))
    = Ok (store, marker_bytes (pf_revision p))"
  by (rule parse_recovery_artifact_complete [of of_json to_json sha created store "pf_revision p" p,
        unfolded MAX_RECOVERY_ARTIFACT_BYTES_def, OF assms refl])

text \<open>The witness is a store file at revision 5 with stand-ins for the JSON and hash functions.\<close>
theorem recovery_artifact_round_trip_witness:
  "let store = encode_file (replicate 16 1) 5 (replicate 12 2) (replicate 16 3);
       sha = (\<lambda>_. replicate 32 9)
   in parse_recovery_artifact (\<lambda>_. Some (recovery_manifest sha 77 store (marker_bytes 5))) sha
        (recovery_artifact (\<lambda>_. [1, 2, 3]) sha 77 store (marker_bytes 5)) = Ok (store, marker_bytes 5)"
proof -
  let ?store = "encode_file (replicate 16 1) 5 (replicate 12 2) (replicate 16 3)"
  let ?p = "\<lparr> pf_salt = replicate 16 1, pf_revision = 5, pf_nonce = replicate 12 2,
              pf_ciphertext = replicate 16 3 \<rparr>"
  let ?sha = "\<lambda>_::bytes. replicate 32 9 :: bytes"
  have p: "parse_file ?store = Ok ?p"
    by (rule parse_encode_file) (simp_all add: SALT_BYTES_def NONCE_BYTES_def)
  have "length (recovery_artifact (\<lambda>_. [1, 2, 3]) ?sha 77 ?store (marker_bytes (pf_revision ?p)))
      \<le> 64 * 1024 * 1024"
    by (simp add: recovery_artifact_def append_blob_def encode_file_def marker_bytes_def
        u64_to_string_def dec_string.simps RECOVERY_MAGIC_def FILE_MAGIC_def)
  then show ?thesis
    using recovery_artifact_round_trip
      [of "\<lambda>_. Some (recovery_manifest ?sha 77 ?store (marker_bytes 5))" "\<lambda>_. [1, 2, 3]" ?sha 77 ?store ?p] p
    by (simp only: Let_def simp_thms ParsedFile.select_convs)
qed

end
