(* ===== verification/Encrypted_Store.thy ===== *)
theory Encrypted_Store
  imports Store_Format
begin

text \<open>
  The encrypted record store (\<^verbatim>\<open>storage.rs\<close>): in-memory records, the store file and the revision
  marker beside it, the two-step commit with its restore path, opening with rollback detection,
  locking, wiping, rekeying and recovery artifacts.

  The file system is explicit.  A \<open>disk\<close> holds what a later start of the daemon would find at the
  store path, the marker path and the pending-recovery path.  Every system call that can fail takes
  its outcome as an argument: an atomic write is done, fails before its rename (the target is
  untouched) or fails after it (the directory sync failed, the target is new).  AES-256-GCM and
  Argon2id are third-party code and are the argument \<open>store_crypto\<close>.
\<close>

section \<open>Files\<close>

text \<open>An entry is a regular file, or something else that may still be readable (a symbolic link).\<close>

datatype fs_entry = Regular bytes | NotRegular "bytes option"

record disk =
  store_path :: "fs_entry option"
  marker_path :: "fs_entry option"
  pending_path :: "fs_entry option"

datatype io_outcome = Done | FailedBefore | FailedAfter

fun fs_content :: "fs_entry option \<Rightarrow> bytes option" where
  "fs_content None = None"
| "fs_content (Some (Regular bs)) = Some bs"
| "fs_content (Some (NotRegular x)) = x"

definition fs_read :: "bool \<Rightarrow> fs_entry option \<Rightarrow> StorageError + bytes" where
  "fs_read ok entry = (if ok then ok_or (fs_content entry) Io else Err Io)"

definition ensure_private_file :: "bool \<Rightarrow> fs_entry option \<Rightarrow> StorageError + bool" where
  "ensure_private_file ok entry =
     (if \<not> ok then Err Io
      else case entry of
        None \<Rightarrow> Ok False
      | Some (NotRegular _) \<Rightarrow> Err CorruptStore
      | Some (Regular _) \<Rightarrow> Ok True)"

definition read_marker :: "bool \<Rightarrow> fs_entry option \<Rightarrow> StorageError + u64 option" where
  "read_marker ok entry =
     (if \<not> ok then Err Io
      else case entry of
        None \<Rightarrow> Ok None
      | Some _ \<Rightarrow>
          (case fs_content entry of
             None \<Rightarrow> Err Io
           | Some content \<Rightarrow> res_bind (read_marker_text content) (\<lambda>r. Ok (Some r))))"

fun atomic_write :: "io_outcome \<Rightarrow> bytes \<Rightarrow> fs_entry option \<Rightarrow>
    (StorageError + unit) \<times> fs_entry option" where
  "atomic_write Done contents entry = (Ok (), Some (Regular contents))"
| "atomic_write FailedBefore contents entry = (Err Io, entry)"
| "atomic_write FailedAfter contents entry = (Err Io, Some (Regular contents))"

text \<open>Removing a file; an absent file counts as removed.\<close>

fun remove_file :: "bool \<Rightarrow> fs_entry option \<Rightarrow> bool \<times> fs_entry option" where
  "remove_file ok None = (True, None)"
| "remove_file ok (Some e) = (if ok then (True, None) else (False, Some e))"

section \<open>The store\<close>

record store_crypto =
  aes_encrypt :: "bytes \<Rightarrow> bytes \<Rightarrow> bytes \<Rightarrow> bytes \<Rightarrow> bytes option"
  aes_decrypt :: "bytes \<Rightarrow> bytes \<Rightarrow> bytes \<Rightarrow> bytes \<Rightarrow> bytes option"
  argon2id :: "string \<Rightarrow> bytes \<Rightarrow> bytes option"

record EncryptedStore =
  key :: bytes
  salt :: bytes
  revision :: u64
  records :: records
  locked :: bool

definition derive_key :: "store_crypto \<Rightarrow> string \<Rightarrow> bytes \<Rightarrow> StorageError + bytes" where
  "derive_key C passphrase slt = ok_or (argon2id C passphrase slt) AuthenticationFailed"

text \<open>The outcomes of the system calls of one commit, in the order in which they are made.\<close>

record commit_io =
  io_nonce :: "bytes option"
  io_read_store :: bool
  io_read_marker :: bool
  io_write_store :: io_outcome
  io_write_marker :: io_outcome
  io_restore_store :: io_outcome
  io_restore_marker :: io_outcome

text \<open>What \<^verbatim>\<open>commit\<close> computes before it first writes: the new file contents, the next revision and
  the previous contents of the two files.\<close>

definition seal_records ::
    "store_crypto \<Rightarrow> EncryptedStore \<Rightarrow> bytes option \<Rightarrow> u64 \<Rightarrow> StorageError + bytes" where
  "seal_records C st nonce_result rev_no =
     res_bind (encode_records (records st)) (\<lambda>plaintext.
     res_bind (ok_or nonce_result Io) (\<lambda>nonce.
       if length (key st) \<noteq> KEY_BYTES then Err CorruptStore
       else res_bind (ok_or (aes_encrypt C (key st) nonce (associated_data (salt st) rev_no) plaintext) Io)
              (\<lambda>ciphertext. Ok (encode_file (salt st) rev_no nonce ciphertext))))"

definition commit_prepare ::
    "store_crypto \<Rightarrow> commit_io \<Rightarrow> EncryptedStore \<Rightarrow> disk
      \<Rightarrow> StorageError + bytes \<times> u64 \<times> bytes \<times> bytes option" where
  "commit_prepare C io st d =
     (if locked st then Err Locked
      else if MAX_RECORDS < fcard (fmdom (records st)) then Err TooManyRecords
      else res_bind (ok_or (checked_add (revision st) 1) RollbackDetected) (\<lambda>next_revision.
           res_bind (seal_records C st (io_nonce io) next_revision) (\<lambda>bs.
           res_bind (fs_read (io_read_store io) (store_path d)) (\<lambda>previous_store.
           res_bind (if marker_path d = None \<and> io_read_marker io then Ok None
                     else res_bind (fs_read (io_read_marker io) (marker_path d)) (\<lambda>m. Ok (Some m)))
             (\<lambda>previous_marker. Ok (bs, next_revision, previous_store, previous_marker))))))"

definition write_store_file :: "commit_io \<Rightarrow> bytes \<Rightarrow> disk \<Rightarrow> (StorageError + unit) \<times> disk" where
  "write_store_file io bs d =
     (let (r, e) = atomic_write (io_write_store io) bs (store_path d)
      in (r, d \<lparr> store_path := e \<rparr>))"

definition write_marker :: "io_outcome \<Rightarrow> u64 \<Rightarrow> disk \<Rightarrow> (StorageError + unit) \<times> disk" where
  "write_marker out rev_no d =
     (let (r, e) = atomic_write out (marker_bytes rev_no) (marker_path d)
      in (r, d \<lparr> marker_path := e \<rparr>))"

definition restore_store_file :: "commit_io \<Rightarrow> bytes \<Rightarrow> disk \<Rightarrow> bool \<times> disk" where
  "restore_store_file io previous d =
     (let (r, e) = atomic_write (io_restore_store io) previous (store_path d)
      in (is_ok r, d \<lparr> store_path := e \<rparr>))"

definition restore_marker_file :: "commit_io \<Rightarrow> bytes option \<Rightarrow> disk \<Rightarrow> bool \<times> disk" where
  "restore_marker_file io previous d =
     (case previous of
        Some bs \<Rightarrow>
          (let (r, e) = atomic_write (io_restore_marker io) bs (marker_path d)
           in (is_ok r, d \<lparr> marker_path := e \<rparr>))
      | None \<Rightarrow>
          (let (r, e) = remove_file (io_restore_marker io = Done) (marker_path d)
           in (r, d \<lparr> marker_path := e \<rparr>)))"

definition commit ::
    "store_crypto \<Rightarrow> commit_io \<Rightarrow> EncryptedStore \<Rightarrow> disk
      \<Rightarrow> (StorageError + unit) \<times> EncryptedStore \<times> disk" where
  "commit C io st d =
     (case commit_prepare C io st d of
        Inl e \<Rightarrow> (Err e, st, d)
      | Inr (bs, next_revision, previous_store, previous_marker) \<Rightarrow>
          (case write_store_file io bs d of
             (Inl e, d1) \<Rightarrow> (Err e, st, d1)
           | (Inr _, d1) \<Rightarrow>
               (case write_marker (io_write_marker io) next_revision d1 of
                  (Inr _, d2) \<Rightarrow> (Ok (), st \<lparr> revision := next_revision \<rparr>, d2)
                | (Inl e, d2) \<Rightarrow>
                    (let (store_restored, d3) = restore_store_file io previous_store d2;
                         (marker_restored, d4) = restore_marker_file io previous_marker d3
                     in (if \<not> store_restored \<or> \<not> marker_restored then Err Io else Err e,
                         st, d4)))))"

text \<open>The disks that a crash during a commit can leave behind.\<close>

definition commit_disks :: "store_crypto \<Rightarrow> commit_io \<Rightarrow> EncryptedStore \<Rightarrow> disk \<Rightarrow> disk list" where
  "commit_disks C io st d =
     d # (case commit_prepare C io st d of
        Inl e \<Rightarrow> []
      | Inr (bs, next_revision, previous_store, previous_marker) \<Rightarrow>
          (case write_store_file io bs d of
             (Inl e, d1) \<Rightarrow> [d1]
           | (Inr _, d1) \<Rightarrow> d1 #
               (case write_marker (io_write_marker io) next_revision d1 of
                  (Inr _, d2) \<Rightarrow> [d2]
                | (Inl e, d2) \<Rightarrow>
                    (let d3 = snd (restore_store_file io previous_store d2)
                     in [d2, d3, snd (restore_marker_file io previous_marker d3)]))))"

section \<open>Record operations\<close>

definition put ::
    "store_crypto \<Rightarrow> commit_io \<Rightarrow> RecordClass \<Rightarrow> string \<Rightarrow> bytes \<Rightarrow> EncryptedStore \<times> disk
      \<Rightarrow> (StorageError + unit) \<times> EncryptedStore \<times> disk" where
  "put C io cl k v = (\<lambda>(st, d).
     if locked st then (Err Locked, st, d)
     else case validate_record_key k of
       Inl e \<Rightarrow> (Err e, st, d)
     | Inr _ \<Rightarrow>
         if MAX_VALUE_BYTES < length v then (Err RecordTooLarge, st, d)
         else let previous = fmlookup (records st) (cl, k);
                  st1 = st \<lparr> records := fmupd (cl, k) v (records st) \<rparr>
              in case commit C io st1 d of
                   (Inr _, st2, d2) \<Rightarrow> (Ok (), st2, d2)
                 | (Inl e, st2, d2) \<Rightarrow>
                     (Err e,
                      st2 \<lparr> records := (case previous of
                                Some old \<Rightarrow> fmupd (cl, k) old (records st2)
                              | None \<Rightarrow> fmdrop (cl, k) (records st2)) \<rparr>,
                      d2))"

definition get :: "RecordClass \<Rightarrow> string \<Rightarrow> EncryptedStore \<Rightarrow> bytes option" where
  "get cl k st = (if locked st then None else fmlookup (records st) (cl, k))"

definition records_with_prefix_page ::
    "RecordClass \<Rightarrow> string \<Rightarrow> nat \<Rightarrow> nat \<Rightarrow> EncryptedStore \<Rightarrow> (string \<times> bytes) list" where
  "records_with_prefix_page cl prefix offset limit st =
     (if locked st then []
      else map (\<lambda>((_, k), v). (k, v))
             (take limit (drop offset
               (filter (\<lambda>((c, k), _). c = cl \<and> take (length prefix) k = prefix)
                  (sorted_list_of_fmap (records st))))))"

definition records_with_prefix ::
    "RecordClass \<Rightarrow> string \<Rightarrow> EncryptedStore \<Rightarrow> (string \<times> bytes) list" where
  "records_with_prefix cl prefix st = records_with_prefix_page cl prefix 0 MAX_RECORDS st"

text \<open>The loop of \<^verbatim>\<open>apply_batch\<close>: the records so far, and the error of the first refused mutation.\<close>

fun apply_mutations :: "RecordMutation list \<Rightarrow> records \<Rightarrow> (StorageError + unit) \<times> records" where
  "apply_mutations [] m = (Ok (), m)"
| "apply_mutations (Put cl k v # ms) m =
     (case validate_record_key k of
        Inl e \<Rightarrow> (Err e, m)
      | Inr _ \<Rightarrow>
          if MAX_VALUE_BYTES < length v then (Err RecordTooLarge, m)
          else apply_mutations ms (fmupd (cl, k) v m))"
| "apply_mutations (Delete cl k # ms) m =
     (case validate_record_key k of
        Inl e \<Rightarrow> (Err e, m)
      | Inr _ \<Rightarrow> apply_mutations ms (fmdrop (cl, k) m))"

definition apply_batch ::
    "store_crypto \<Rightarrow> commit_io \<Rightarrow> RecordMutation list \<Rightarrow> EncryptedStore \<times> disk
      \<Rightarrow> (StorageError + unit) \<times> EncryptedStore \<times> disk" where
  "apply_batch C io mutations = (\<lambda>(st, d).
     if locked st then (Err Locked, st, d)
     else let previous = records st in
       case apply_mutations mutations previous of
         (Inl e, m) \<Rightarrow> (Err e, st \<lparr> records := m \<rparr>, d)
       | (Inr _, m) \<Rightarrow>
           (case commit C io (st \<lparr> records := m \<rparr>) d of
              (Inr _, st2, d2) \<Rightarrow> (Ok (), st2, d2)
            | (Inl e, st2, d2) \<Rightarrow> (Err e, st2 \<lparr> records := previous \<rparr>, d2)))"

definition delete_record ::
    "store_crypto \<Rightarrow> commit_io \<Rightarrow> RecordClass \<Rightarrow> string \<Rightarrow> EncryptedStore \<times> disk
      \<Rightarrow> (StorageError + bool) \<times> EncryptedStore \<times> disk" where
  "delete_record C io cl k = (\<lambda>(st, d).
     if locked st then (Err Locked, st, d)
     else case fmlookup (records st) (cl, k) of
       None \<Rightarrow> (Ok False, st, d)
     | Some previous \<Rightarrow>
         (case commit C io (st \<lparr> records := fmdrop (cl, k) (records st) \<rparr>) d of
            (Inr _, st2, d2) \<Rightarrow> (Ok True, st2, d2)
          | (Inl e, st2, d2) \<Rightarrow>
              (Err e, st2 \<lparr> records := fmupd (cl, k) previous (records st2) \<rparr>, d2)))"

definition record_count :: "EncryptedStore \<Rightarrow> nat" where
  "record_count st = (if locked st then 0 else fcard (fmdom (records st)))"

section \<open>Life cycle\<close>

text \<open>Locking zeroes the key and drops every record.\<close>

definition lock :: "EncryptedStore \<Rightarrow> EncryptedStore" where
  "lock st = st \<lparr> records := fmempty, key := replicate (length (key st)) 0, locked := True \<rparr>"

definition wipe_files ::
    "bool \<Rightarrow> bool \<Rightarrow> EncryptedStore \<times> disk \<Rightarrow> (StorageError + unit) \<times> EncryptedStore \<times> disk" where
  "wipe_files store_ok marker_ok = (\<lambda>(st, d).
     let st1 = lock st in
     case remove_file store_ok (store_path d) of
       (False, e) \<Rightarrow> (Err Io, st1, d \<lparr> store_path := e \<rparr>)
     | (True, e) \<Rightarrow>
         (case remove_file marker_ok (marker_path d) of
            (False, e') \<Rightarrow> (Err Io, st1, d \<lparr> store_path := e, marker_path := e' \<rparr>)
          | (True, e') \<Rightarrow> (Ok (), st1, d \<lparr> store_path := e, marker_path := e' \<rparr>)))"

record create_io =
  ci_salt :: "bytes option"
  ci_stat :: bool
  ci_nonce :: "bytes option"
  ci_write_store :: io_outcome
  ci_write_marker :: io_outcome
  ci_remove_store :: bool
  ci_remove_marker :: bool

definition remove_files :: "create_io \<Rightarrow> disk \<Rightarrow> disk" where
  "remove_files io d =
     d \<lparr> store_path := snd (remove_file (ci_remove_store io) (store_path d)),
         marker_path := snd (remove_file (ci_remove_marker io) (marker_path d)) \<rparr>"

definition persist ::
    "store_crypto \<Rightarrow> create_io \<Rightarrow> EncryptedStore \<Rightarrow> disk \<Rightarrow> (StorageError + unit) \<times> disk" where
  "persist C io st d =
     (case seal_records C st (ci_nonce io) (revision st) of
        Inl e \<Rightarrow> (Err e, d)
      | Inr bs \<Rightarrow>
          (let (r, e) = atomic_write (ci_write_store io) bs (store_path d);
               d1 = d \<lparr> store_path := e \<rparr>
           in case r of
                Inl err \<Rightarrow> (Err err, d1)
              | Inr _ \<Rightarrow>
                  (case write_marker (ci_write_marker io) (revision st) d1 of
                     (Inr _, d2) \<Rightarrow> (Ok (), d2)
                   | (Inl err, d2) \<Rightarrow> (Err err, remove_files io d2))))"

definition initialize_with_key ::
    "store_crypto \<Rightarrow> create_io \<Rightarrow> bytes \<Rightarrow> bytes \<Rightarrow> disk
      \<Rightarrow> (StorageError + EncryptedStore) \<times> disk" where
  "initialize_with_key C io k slt d =
     (case ensure_private_file (ci_stat io) (store_path d) of
        Inl e \<Rightarrow> (Err e, d)
      | Inr True \<Rightarrow> (Err CorruptStore, d)
      | Inr False \<Rightarrow>
          (let st = \<lparr> key = k, salt = slt, revision = 0, records = fmempty, locked = False \<rparr>
           in case persist C io st d of
                (Inl e, d1) \<Rightarrow> (Err e, remove_files io d1)
              | (Inr _, d1) \<Rightarrow> (Ok st, d1)))"

definition initialize_with_database_key ::
    "store_crypto \<Rightarrow> create_io \<Rightarrow> bytes \<Rightarrow> disk \<Rightarrow> (StorageError + EncryptedStore) \<times> disk" where
  "initialize_with_database_key C io k d =
     (case ci_salt io of
        None \<Rightarrow> (Err Io, d)
      | Some slt \<Rightarrow> initialize_with_key C io k slt d)"

definition initialize ::
    "store_crypto \<Rightarrow> create_io \<Rightarrow> string \<Rightarrow> disk \<Rightarrow> (StorageError + EncryptedStore) \<times> disk" where
  "initialize C io passphrase d =
     (case validate_passphrase passphrase of
        Inl e \<Rightarrow> (Err e, d)
      | Inr _ \<Rightarrow>
          (case ci_salt io of
             None \<Rightarrow> (Err Io, d)
           | Some slt \<Rightarrow>
               (case derive_key C passphrase slt of
                  Inl e \<Rightarrow> (Err e, d)
                | Inr k \<Rightarrow> initialize_with_key C io k slt d)))"

record open_io =
  oi_stat_store :: bool
  oi_read_store :: bool
  oi_stat_marker :: bool
  oi_read_marker :: bool
  oi_reread_marker :: bool
  oi_write_marker :: io_outcome

definition open_with_key ::
    "store_crypto \<Rightarrow> open_io \<Rightarrow> bytes \<Rightarrow> ParsedFile \<Rightarrow> disk
      \<Rightarrow> (StorageError + EncryptedStore) \<times> disk" where
  "open_with_key C io k parsed d =
     (let checked =
        (if length k \<noteq> KEY_BYTES then Err CorruptStore
         else res_bind (ok_or (aes_decrypt C k (pf_nonce parsed)
                          (associated_data (pf_salt parsed) (pf_revision parsed))
                          (pf_ciphertext parsed)) AuthenticationFailed) (\<lambda>plaintext.
              res_bind (decode_records plaintext) (\<lambda>recs.
              res_bind (ensure_private_file (oi_stat_marker io) (marker_path d)) (\<lambda>_.
              res_bind (read_marker (oi_read_marker io) (marker_path d)) (\<lambda>marker.
                if (case marker of Some m \<Rightarrow> pf_revision parsed < m | None \<Rightarrow> False)
                then Err RollbackDetected
                else res_bind (read_marker (oi_reread_marker io) (marker_path d)) (\<lambda>marker2.
                  Ok (\<lparr> key = k, salt = pf_salt parsed, revision = pf_revision parsed,
                        records = recs, locked = False \<rparr>,
                      case marker2 of Some m \<Rightarrow> m < pf_revision parsed | None \<Rightarrow> True)))))))
      in case checked of
           Inl e \<Rightarrow> (Err e, d)
         | Inr (st, stale) \<Rightarrow>
             if stale
             then (case write_marker (oi_write_marker io) (revision st) d of
                     (Inl e, d1) \<Rightarrow> (Err e, d1)
                   | (Inr _, d1) \<Rightarrow> (Ok st, d1))
             else (Ok st, d))"

definition read_store_file :: "open_io \<Rightarrow> disk \<Rightarrow> StorageError + ParsedFile" where
  "read_store_file io d =
     res_bind (ensure_private_file (oi_stat_store io) (store_path d)) (\<lambda>_.
     res_bind (fs_read (oi_read_store io) (store_path d)) parse_file)"

definition open_store ::
    "store_crypto \<Rightarrow> open_io \<Rightarrow> string \<Rightarrow> disk \<Rightarrow> (StorageError + EncryptedStore) \<times> disk" where
  "open_store C io passphrase d =
     (case res_bind (validate_passphrase passphrase) (\<lambda>_.
           res_bind (read_store_file io d) (\<lambda>parsed.
           res_bind (derive_key C passphrase (pf_salt parsed)) (\<lambda>k. Ok (k, parsed)))) of
        Inl e \<Rightarrow> (Err e, d)
      | Inr (k, parsed) \<Rightarrow> open_with_key C io k parsed d)"

definition open_with_database_key ::
    "store_crypto \<Rightarrow> open_io \<Rightarrow> bytes \<Rightarrow> disk \<Rightarrow> (StorageError + EncryptedStore) \<times> disk" where
  "open_with_database_key C io k d =
     (case read_store_file io d of
        Inl e \<Rightarrow> (Err e, d)
      | Inr parsed \<Rightarrow> open_with_key C io k parsed d)"

definition export_recovery_artifact ::
    "(RecoveryManifest \<Rightarrow> bytes) \<Rightarrow> (bytes \<Rightarrow> bytes) \<Rightarrow> bool \<Rightarrow> bool \<Rightarrow> u64
      \<Rightarrow> EncryptedStore \<times> disk \<Rightarrow> StorageError + bytes" where
  "export_recovery_artifact to_json sha256 store_ok marker_ok created = (\<lambda>(st, d).
     if locked st then Err Locked
     else res_bind (fs_read store_ok (store_path d)) (\<lambda>store.
          res_bind (fs_read marker_ok (marker_path d)) (\<lambda>marker.
            Ok (recovery_artifact to_json sha256 created store marker))))"

definition stage_recovery_artifact ::
    "(bytes \<Rightarrow> RecoveryManifest option) \<Rightarrow> (bytes \<Rightarrow> bytes) \<Rightarrow> io_outcome \<Rightarrow> bytes
      \<Rightarrow> EncryptedStore \<times> disk \<Rightarrow> (StorageError + unit) \<times> disk" where
  "stage_recovery_artifact of_json sha256 out artifact = (\<lambda>(st, d).
     if locked st then (Err Locked, d)
     else case parse_recovery_artifact of_json sha256 artifact of
       Inl e \<Rightarrow> (Err e, d)
     | Inr _ \<Rightarrow>
         (let (r, e) = atomic_write out artifact (pending_path d)
          in (r, d \<lparr> pending_path := e \<rparr>)))"

text \<open>Rekeying writes a second store at a destination with its own disk \<open>d'\<close>.\<close>

definition rekey_to ::
    "store_crypto \<Rightarrow> create_io \<Rightarrow> commit_io \<Rightarrow> string \<Rightarrow> EncryptedStore \<Rightarrow> disk
      \<Rightarrow> (StorageError + unit) \<times> disk" where
  "rekey_to C cio io new_passphrase st d' =
     (if locked st then (Err Locked, d')
      else case initialize C cio new_passphrase d' of
        (Inl e, d1) \<Rightarrow> (Err e, d1)
      | (Inr replacement, d1) \<Rightarrow>
          (let mutations = map (\<lambda>((cl, k), v). Put cl k v) (sorted_list_of_fmap (records st));
               (r, _, d2) = apply_batch C io mutations (replacement, d1)
           in (r, d2)))"

section \<open>Record operations in memory\<close>

lemma commit_err: "commit C io st d = (Err e, st', d') \<Longrightarrow> st' = st"
  by (auto simp: commit_def Let_def split: sum.splits prod.splits if_splits)

lemma commit_prepare_ok:
  assumes "commit_prepare C io st d = Ok (bs, r, ps, pm)"
  shows "\<not> locked st" "fcard (fmdom (records st)) \<le> MAX_RECORDS"
    "checked_add (revision st) 1 = Some r" "seal_records C st (io_nonce io) r = Ok bs"
    "fs_content (store_path d) = Some ps"
    "(marker_path d = None \<and> pm = None) \<or> (\<exists>mb. fs_content (marker_path d) = Some mb \<and> pm = Some mb)"
  using assms by (auto simp: commit_prepare_def fs_read_def split: if_splits)

lemma commit_ok_prepare:
  assumes "commit C io st d = (Ok u, st', d')"
  obtains bs r ps pm where "commit_prepare C io st d = Ok (bs, r, ps, pm)"
    "st' = st \<lparr> revision := r \<rparr>" "io_write_store io = Done" "io_write_marker io = Done"
    "d' = d \<lparr> store_path := Some (Regular bs), marker_path := Some (Regular (marker_bytes r)) \<rparr>"
proof (cases "commit_prepare C io st d")
  case (Inl e)
  then show thesis using assms by (simp add: commit_def)
next
  case (Inr x)
  obtain bs r ps pm where x: "x = (bs, r, ps, pm)" by (cases x) auto
  show thesis
    using assms that [of bs r ps pm]
    by (cases "io_write_store io"; cases "io_write_marker io")
       (auto simp: commit_def Inr x write_store_file_def write_marker_def Let_def split: prod.splits)
qed

lemma commit_ok:
  assumes "commit C io st d = (Ok u, st', d')"
  obtains r where "checked_add (revision st) 1 = Some r" "st' = st \<lparr> revision := r \<rparr>"
    "\<not> locked st" "fcard (fmdom (records st)) \<le> MAX_RECORDS"
  using assms by (elim commit_ok_prepare) (blast dest: commit_prepare_ok)

lemma fmupd_restore [simp]:
  "fmlookup m k = Some old \<Longrightarrow> fmupd k old m = m"
  "fmlookup m k = None \<Longrightarrow> fmdrop k (fmupd k v m) = m"
  by (auto intro!: fmap_ext)

lemma fmdrop_restore [simp]: "fmlookup m k = Some old \<Longrightarrow> fmupd k old (fmdrop k m) = m"
  by (auto intro!: fmap_ext)

lemma put_err: "put C io cl k v (st, d) = (Err e, st', d') \<Longrightarrow> st' = st"
  by (auto simp: put_def Let_def dest!: commit_err
           split: sum.splits if_splits prod.splits option.splits)

lemma put_ok:
  assumes "put C io cl k v (st, d) = (Ok u, st', d')"
  obtains r where "checked_add (revision st) 1 = Some r"
    "st' = st \<lparr> records := fmupd (cl, k) v (records st), revision := r \<rparr>"
    "\<not> locked st" "wf_key k" "length v \<le> MAX_VALUE_BYTES"
    "commit C io (st \<lparr> records := fmupd (cl, k) v (records st) \<rparr>) d = (Ok (), st', d')"
proof -
  have l: "\<not> locked st" and k: "wf_key k" and v: "length v \<le> MAX_VALUE_BYTES"
    and c: "commit C io (st \<lparr> records := fmupd (cl, k) v (records st) \<rparr>) d = (Ok (), st', d')"
    using assms by (auto simp: put_def Let_def split: sum.splits if_splits prod.splits)
  from c obtain r where "checked_add (revision st) 1 = Some r"
    "st' = st \<lparr> records := fmupd (cl, k) v (records st), revision := r \<rparr>"
    by (elim commit_ok) simp
  then show thesis using that l k v c by blast
qed

text \<open>The contract a component relies on when it keeps its state in the record store: a write that
  succeeds is what the next read returns, a write that fails is invisible, and no write touches
  another key.\<close>

locale record_store =
  fixes sget :: "'k \<Rightarrow> 's \<Rightarrow> bytes option"
    and sput :: "'io \<Rightarrow> 'k \<Rightarrow> bytes \<Rightarrow> 's \<Rightarrow> (StorageError + unit) \<times> 's"
  assumes get_put_ok: "sput io k v s = (Ok (), s') \<Longrightarrow> sget k s' = Some v"
    and get_put_err: "sput io k v s = (Err e, s') \<Longrightarrow> sget k s' = sget k s"
    and get_put_other: "sput io k v s = (r, s') \<Longrightarrow> k' \<noteq> k \<Longrightarrow> sget k' s' = sget k' s"
begin

lemma load_saved:
  "sput io k (enc x) s = (Ok (), s') \<Longrightarrow> dec (enc x) = Some x \<Longrightarrow>
     Option.bind (sget k s') dec = Some x"
  by (simp add: get_put_ok)

lemma last_write_wins:
  "sput io k v s = (Ok (), s1) \<Longrightarrow> sput io' k v' s1 = (r, s2) \<Longrightarrow>
     sget k s2 = Some (if is_ok r then v' else v)"
  by (cases r) (auto simp: get_put_ok get_put_err)

lemma writes_elsewhere:
  "k \<notin> fst ` set ws \<Longrightarrow> sget k (foldl (\<lambda>s ((k', v), io). snd (sput io k' v s)) s (zip ws ios)) = sget k s"
proof (induction ws arbitrary: s ios)
  case (Cons w ws)
  show ?case
  proof (cases ios)
    case (Cons io ios')
    obtain k' v where w: "w = (k', v)" by (cases w)
    obtain r s' where s': "sput io k' v s = (r, s')" by (cases "sput io k' v s")
    show ?thesis
      using Cons.IH [of s' ios'] Cons.prems get_put_other [OF s', of k]
      by (simp add: \<open>ios = io # ios'\<close> w s')
  qed simp
qed simp

end

definition store_get :: "record_key \<Rightarrow> EncryptedStore \<times> disk \<Rightarrow> bytes option" where
  "store_get k s = get (fst k) (snd k) (fst s)"

definition store_put ::
    "store_crypto \<Rightarrow> commit_io \<Rightarrow> record_key \<Rightarrow> bytes \<Rightarrow> EncryptedStore \<times> disk
      \<Rightarrow> (StorageError + unit) \<times> EncryptedStore \<times> disk" where
  "store_put C io k v s = put C io (fst k) (snd k) v s"

interpretation es: record_store store_get "store_put C" for C
proof unfold_locales
  fix io k v and s s' :: "EncryptedStore \<times> disk" and e and r :: "StorageError + unit" and k'
  show "store_get k s' = Some v" if "store_put C io k v s = (Ok (), s')"
    using that by (cases s; cases s') (auto simp: store_put_def store_get_def get_def elim: put_ok)
  show "store_get k s' = store_get k s" if "store_put C io k v s = (Err e, s')"
    using that by (cases s; cases s') (auto simp: store_put_def store_get_def dest: put_err)
  show "store_get k' s' = store_get k' s" if "store_put C io k v s = (r, s')" "k' \<noteq> k"
    using that
    by (cases s; cases s'; cases r)
       (auto simp: store_put_def store_get_def get_def dest: put_err elim!: put_ok)
qed

section \<open>The two files\<close>

definition aead_correct :: "store_crypto \<Rightarrow> bool" where
  "aead_correct C \<longleftrightarrow> (\<forall>k n a m c. aes_encrypt C k n a m = Some c \<longrightarrow>
     aes_decrypt C k n a c = Some m \<and> length c = length m + 16)"

text \<open>The file contents that hold the records \<open>m\<close> at revision \<open>r\<close> under the key of \<open>st\<close>.\<close>

definition sealed :: "store_crypto \<Rightarrow> EncryptedStore \<Rightarrow> u64 \<Rightarrow> records \<Rightarrow> bytes \<Rightarrow> bool" where
  "sealed C st r m bs \<longleftrightarrow> (\<exists>nonce pt ct. length nonce = NONCE_BYTES \<and> encode_records m = Ok pt \<and>
     aes_encrypt C (key st) nonce (associated_data (salt st) r) pt = Some ct \<and>
     bs = encode_file (salt st) r nonce ct)"

text \<open>An open store and a disk that agree: what the disk holds is what the store has in memory.\<close>

definition synced :: "store_crypto \<Rightarrow> EncryptedStore \<Rightarrow> disk \<Rightarrow> bool" where
  "synced C st d \<longleftrightarrow> \<not> locked st \<and> length (key st) = KEY_BYTES \<and> length (salt st) = SALT_BYTES \<and>
     wf_records (records st) \<and>
     (\<exists>bs. store_path d = Some (Regular bs) \<and> sealed C st (revision st) (records st) bs) \<and>
     marker_path d = Some (Regular (marker_bytes (revision st)))"

definition open_io_ok :: "open_io \<Rightarrow> bool" where
  "open_io_ok io \<longleftrightarrow> oi_stat_store io \<and> oi_read_store io \<and> oi_stat_marker io \<and> oi_read_marker io \<and>
     oi_reread_marker io \<and> oi_write_marker io = Done"

lemma sealed_parse:
  assumes "aead_correct C" "sealed C st r m bs" "length (salt st) = SALT_BYTES"
    "\<forall>k v. fmlookup m k = Some v \<longrightarrow> utf8_valid (snd k)"
  obtains p pt where "parse_file bs = Ok p" "pf_salt p = salt st" "pf_revision p = r"
    "aes_decrypt C (key st) (pf_nonce p) (associated_data (salt st) r) (pf_ciphertext p) = Some pt"
    "decode_records pt = Ok m"
proof -
  obtain nonce pt ct where n: "length nonce = NONCE_BYTES" and pt: "encode_records m = Ok pt"
    and ct: "aes_encrypt C (key st) nonce (associated_data (salt st) r) pt = Some ct"
    and bs: "bs = encode_file (salt st) r nonce ct"
    using assms(2) by (auto simp: sealed_def)
  have d: "aes_decrypt C (key st) nonce (associated_data (salt st) r) ct = Some pt" "16 \<le> length ct"
    using assms(1) ct unfolding aead_correct_def by force+
  show thesis
    by (rule that [OF _ _ _ _ decode_encode_records [OF pt assms(4)]])
       (use assms(3) n d in \<open>auto simp: bs parse_encode_file\<close>)
qed

lemma open_sealed:
  assumes C: "aead_correct C" and k: "length (key st) = KEY_BYTES" "length (salt st) = SALT_BYTES"
    and m: "wf_records m" and s: "sealed C st r m bs" and io: "open_io_ok io"
    and d: "store_path d = Some (Regular bs)" "marker_path d = Some (Regular (marker_bytes mk))"
  shows "open_with_database_key C io (key st) d =
    (if r < mk then (Err RollbackDetected, d)
     else (Ok \<lparr> key = key st, salt = salt st, revision = r, records = m, locked = False \<rparr>,
           d \<lparr> marker_path := Some (Regular (marker_bytes r)) \<rparr>))"
proof -
  note u = wf_records_utf8 [OF m]
  obtain p pt where p: "parse_file bs = Ok p" "pf_salt p = salt st" "pf_revision p = r"
    "aes_decrypt C (key st) (pf_nonce p) (associated_data (salt st) r) (pf_ciphertext p) = Some pt"
    "decode_records pt = Ok m"
    using sealed_parse [OF C s k(2) u] .
  have same: "d \<lparr> marker_path := Some (Regular (marker_bytes mk)) \<rparr> = d"
    using d(2) by simp
  have "mk = r" if "\<not> r < mk" "\<not> mk < r" using that by simp
  then show ?thesis
    using io k p d same
    by (auto simp: open_with_database_key_def read_store_file_def open_with_key_def open_io_ok_def
          fs_read_def ensure_private_file_def read_marker_def write_marker_def Let_def)
qed

lemma synced_reopen:
  assumes "aead_correct C" "synced C st d" "open_io_ok io"
  shows "open_with_database_key C io (key st) d = (Ok st, d)"
proof -
  obtain bs where bs: "store_path d = Some (Regular bs)" "sealed C st (revision st) (records st) bs"
    using assms(2) by (auto simp: synced_def)
  have "open_with_database_key C io (key st) d =
    (Ok \<lparr> key = key st, salt = salt st, revision = revision st, records = records st,
          locked = False \<rparr>, d \<lparr> marker_path := Some (Regular (marker_bytes (revision st))) \<rparr>)"
    using open_sealed [OF assms(1) _ _ _ bs(2) assms(3) bs(1)] assms(2) by (simp add: synced_def)
  then show ?thesis using assms(2) by (simp add: synced_def)
qed

section \<open>Commits and crashes\<close>

definition nonce_wf :: "commit_io \<Rightarrow> bool" where
  "nonce_wf io \<longleftrightarrow> (\<forall>n. io_nonce io = Some n \<longrightarrow> length n = NONCE_BYTES)"

lemma seal_records_sealed:
  assumes "seal_records C st nonce r = Ok bs" "\<forall>n. nonce = Some n \<longrightarrow> length n = NONCE_BYTES"
  shows "sealed C st r (records st) bs"
  using assms by (auto simp: seal_records_def sealed_def split: if_splits)

lemma sealed_fields [simp]:
  "sealed C (st \<lparr> records := m' \<rparr>) r m bs = sealed C st r m bs"
  "sealed C (st \<lparr> revision := r' \<rparr>) r m bs = sealed C st r m bs"
  by (simp_all add: sealed_def)

lemma commit_ok_synced:
  assumes "commit C io (st \<lparr> records := m \<rparr>) d = (Ok u, st', d')" "synced C st d" "nonce_wf io"
    and "\<forall>k v. fmlookup m k = Some v \<longrightarrow> utf8_valid (snd k)"
  shows "synced C st' d'"
proof -
  obtain bs r ps pm where p: "commit_prepare C io (st \<lparr> records := m \<rparr>) d = Ok (bs, r, ps, pm)"
    and st': "st' = st \<lparr> records := m, revision := r \<rparr>"
    and d': "d' = d \<lparr> store_path := Some (Regular bs), marker_path := Some (Regular (marker_bytes r)) \<rparr>"
    using assms(1) by (elim commit_ok_prepare) simp
  note f = commit_prepare_ok [OF p]
  have s: "sealed C st r m bs"
    using seal_records_sealed [OF f(4)] assms(3) by (simp add: nonce_wf_def)
  then have "\<exists>pt. encode_records m = Ok pt" by (auto simp: sealed_def)
  then have "wf_records m"
    using assms(4) unfolding encode_records_ok_iff by (auto simp: wf_records_def)
  then show ?thesis
    using assms(2) s by (simp add: synced_def st' d')
qed

lemma next_revision: "checked_add r 1 = Some r' \<Longrightarrow> (r :: u64) < r'"
  by (simp add: word_arith word_less_nat_alt)

text \<open>The shapes of the two files while a commit from revision \<open>r\<close> to \<open>r'\<close> is under way.\<close>

lemma commit_disks_shape:
  assumes p: "commit_prepare C io st d = Ok (bs, r', ps, pm)"
    and d: "store_path d = Some (Regular old)" "marker_path d = Some (Regular mb)"
    and x: "x \<in> set (commit_disks C io st d)"
  shows "\<exists>s m. store_path x = Some (Regular s) \<and> marker_path x = Some (Regular m) \<and>
    (s = old \<and> m = mb \<or> s = bs \<and> (m = mb \<or> m = marker_bytes r') \<or>
     s = old \<and> m = marker_bytes r' \<and> io_write_marker io = FailedAfter \<and> io_restore_store io \<noteq> FailedBefore)"
proof -
  have o: "ps = old" "pm = Some mb"
    using commit_prepare_ok(5,6) [OF p] d by auto
  show ?thesis
    using x unfolding commit_disks_def p sum.case prod.case
    by (cases "io_write_store io"; cases "io_write_marker io"; cases "io_restore_store io";
        cases "io_restore_marker io")
       (auto simp: write_store_file_def write_marker_def restore_store_file_def
          restore_marker_file_def d o Let_def)
qed

lemma commit_last_disk: "snd (snd (commit C io st d)) = last (commit_disks C io st d)"
proof (cases "commit_prepare C io st d")
  case (Inr x)
  obtain bs r ps pm where x: "x = (bs, r, ps, pm)" by (cases x) auto
  show ?thesis
    by (simp add: commit_def commit_disks_def Inr x Let_def split: sum.splits prod.splits)
qed (simp add: commit_def commit_disks_def)

lemma commit_crash_cases:
  assumes C: "aead_correct C" and s: "synced C st d" and n: "nonce_wf io" and o: "open_io_ok oio"
    and m: "wf_records m" and x: "x \<in> set (commit_disks C io (st \<lparr> records := m \<rparr>) d)"
  defines "reopened \<equiv> fst (open_with_database_key C oio (key st) x)"
  shows "reopened = Ok st \<or> reopened = Ok (st \<lparr> records := m, revision := revision st + 1 \<rparr>) \<or>
    (reopened = Err RollbackDetected \<and> io_write_marker io = FailedAfter \<and>
     io_restore_store io \<noteq> FailedBefore)"
proof (cases "commit_prepare C io (st \<lparr> records := m \<rparr>) d")
  case (Inl e)
  then have "x = d" using x by (simp add: commit_disks_def)
  then show ?thesis using synced_reopen [OF C s o] by (simp add: reopened_def)
next
  case (Inr y)
  obtain bs r' ps pm where p: "commit_prepare C io (st \<lparr> records := m \<rparr>) d = Ok (bs, r', ps, pm)"
    using Inr by (cases y) auto
  obtain old where old: "store_path d = Some (Regular old)" "sealed C st (revision st) (records st) old"
    and mk: "marker_path d = Some (Regular (marker_bytes (revision st)))"
    and k: "length (key st) = KEY_BYTES" "length (salt st) = SALT_BYTES" "wf_records (records st)"
    and l: "\<not> locked st"
    using s by (auto simp: synced_def)
  have new: "sealed C st r' m bs"
    using seal_records_sealed [OF commit_prepare_ok(4) [OF p]] n by (simp add: nonce_wf_def)
  have c: "checked_add (revision st) 1 = Some r'"
    using commit_prepare_ok(3) [OF p] by simp
  then have r': "r' = revision st + 1" and lt: "revision st < r'"
    by (auto simp: checked_add_def next_revision split: if_splits)
  have lt': "(r' < revision st) = False" using lt by auto
  obtain sb mb where x: "store_path x = Some (Regular sb)" "marker_path x = Some (Regular mb)"
    and shape: "sb = old \<and> mb = marker_bytes (revision st) \<or>
      sb = bs \<and> (mb = marker_bytes (revision st) \<or> mb = marker_bytes r') \<or>
      sb = old \<and> mb = marker_bytes r' \<and> io_write_marker io = FailedAfter \<and>
      io_restore_store io \<noteq> FailedBefore"
    using commit_disks_shape [OF p old(1) mk x] by blast
  have eq: "\<lparr> key = key st, salt = salt st, revision = revision st, records = records st,
      locked = False \<rparr> = st"
    and eq': "\<lparr> key = key st, salt = salt st, revision = r', records = m, locked = False \<rparr> =
      st \<lparr> records := m, revision := r' \<rparr>"
    using l by (cases st, simp)+
  note openold = open_sealed [OF C k old(2) o, unfolded eq]
  note opennew = open_sealed [OF C k(1,2) m new o, unfolded eq']
  from shape show ?thesis
    unfolding r' [symmetric] using x lt lt'
    by (elim disjE conjE) (simp_all add: reopened_def openold opennew)
qed

section \<open>Creating and rekeying\<close>

lemma initialize_with_key_ok:
  assumes "initialize_with_key C io k slt d = (Ok st, d')" "length slt = SALT_BYTES"
    and "\<forall>n. ci_nonce io = Some n \<longrightarrow> length n = NONCE_BYTES"
  shows "synced C st d'"
    and "st = \<lparr> key = k, salt = slt, revision = 0, records = fmempty, locked = False \<rparr>"
proof -
  let ?st = "\<lparr> key = k, salt = slt, revision = 0, records = fmempty, locked = False \<rparr>"
  have p: "persist C io ?st d = (Ok (), d')" and st: "st = ?st"
    using assms(1)
    by (auto simp: initialize_with_key_def Let_def split: sum.splits bool.splits prod.splits)
  show "st = ?st" by fact
  obtain bs where bs: "seal_records C ?st (ci_nonce io) 0 = Ok bs"
    and d': "d' = d \<lparr> store_path := Some (Regular bs), marker_path := Some (Regular (marker_bytes 0)) \<rparr>"
    using p
    by (cases "ci_write_store io"; cases "ci_write_marker io")
       (auto simp: persist_def write_marker_def Let_def split: sum.splits)
  have "sealed C ?st 0 fmempty bs"
    using seal_records_sealed [OF bs assms(3)] by simp
  moreover have "length k = KEY_BYTES" using bs by (auto simp: seal_records_def split: if_splits)
  ultimately show "synced C st d'"
    using assms(2) by (simp add: synced_def st d' wf_records_def fcard_fempty)
qed

lemma apply_mutations_puts:
  "fst (apply_mutations (map (\<lambda>((cl, k), v). Put cl k v) es) m) = Ok () \<Longrightarrow>
     snd (apply_mutations (map (\<lambda>((cl, k), v). Put cl k v) es) m) = upd_all m es"
  by (induction es arbitrary: m) (auto split: sum.splits if_splits)

lemma apply_batch_ok:
  assumes "apply_batch C io ms (st, d) = (Ok u, st', d')"
  shows "apply_mutations ms (records st) = (Ok (), records st')"
    and "commit C io (st \<lparr> records := records st' \<rparr>) d = (Ok (), st', d')"
proof -
  obtain m where m: "apply_mutations ms (records st) = (Ok (), m)"
    and c: "commit C io (st \<lparr> records := m \<rparr>) d = (Ok (), st', d')"
    using assms by (auto simp: apply_batch_def Let_def split: sum.splits prod.splits if_splits)
  then have "records st' = m" by (auto elim: commit_ok)
  then show "apply_mutations ms (records st) = (Ok (), records st')"
    "commit C io (st \<lparr> records := records st' \<rparr>) d = (Ok (), st', d')"
    using m c by simp_all
qed

lemma open_store_synced:
  assumes C: "aead_correct C" and s: "synced C st d" and o: "open_io_ok io"
    and p: "validate_passphrase pass = Ok ()" "argon2id C pass (salt st) = Some (key st)"
  shows "open_store C io pass d = (Ok st, d)"
proof -
  obtain bs where bs: "store_path d = Some (Regular bs)" "sealed C st (revision st) (records st) bs"
    and k: "length (salt st) = SALT_BYTES" "wf_records (records st)"
    using s by (auto simp: synced_def)
  obtain q pt where q: "parse_file bs = Ok q" "pf_salt q = salt st"
    using sealed_parse [OF C bs(2) k(1) wf_records_utf8 [OF k(2)]] by blast
  have r: "read_store_file io d = Ok q"
    using o bs q by (simp add: read_store_file_def open_io_ok_def ensure_private_file_def fs_read_def)
  have "open_store C io pass d = open_with_key C io (key st) q d"
    using p q r by (simp add: open_store_def derive_key_def)
  also have "\<dots> = open_with_database_key C io (key st) d"
    by (simp add: open_with_database_key_def r)
  finally show ?thesis using synced_reopen [OF C s o] by simp
qed

section \<open>A concrete instance\<close>

text \<open>A stand-in for the ciphers, used only to evaluate the statements below on concrete values: it
  appends an all-zero tag.\<close>

definition tag_crypto :: store_crypto where
  "tag_crypto = \<lparr> aes_encrypt = (\<lambda>k n a m. Some (m @ replicate 16 0)),
     aes_decrypt = (\<lambda>k n a c. if 16 \<le> length c \<and> drop (length c - 16) c = replicate 16 0
                              then Some (take (length c - 16) c) else None),
     argon2id = (\<lambda>p s. Some (replicate 32 7)) \<rparr>"

lemma tag_crypto_correct: "aead_correct tag_crypto"
  by (auto simp: aead_correct_def tag_crypto_def)

definition demo_create :: create_io where
  "demo_create = \<lparr> ci_salt = Some (replicate 16 1), ci_stat = True,
     ci_nonce = Some (replicate 12 2), ci_write_store = Done, ci_write_marker = Done,
     ci_remove_store = True, ci_remove_marker = True \<rparr>"

definition demo_commit :: "io_outcome \<Rightarrow> commit_io" where
  "demo_commit marker = \<lparr> io_nonce = Some (replicate 12 3), io_read_store = True,
     io_read_marker = True, io_write_store = Done, io_write_marker = marker,
     io_restore_store = Done, io_restore_marker = Done \<rparr>"

definition demo_open :: open_io where
  "demo_open = \<lparr> oi_stat_store = True, oi_read_store = True, oi_stat_marker = True,
     oi_read_marker = True, oi_reread_marker = True, oi_write_marker = Done \<rparr>"

definition empty_disk :: disk where
  "empty_disk = \<lparr> store_path = None, marker_path = None, pending_path = None \<rparr>"

definition demo_store :: EncryptedStore where
  "demo_store = \<lparr> key = replicate 32 7, salt = replicate 16 1, revision = 0, records = fmempty,
     locked = False \<rparr>"

definition demo_disk :: disk where
  "demo_disk = snd (initialize_with_key tag_crypto demo_create (replicate 32 7) (replicate 16 1) empty_disk)"

lemma demo_created:
  "initialize_with_key tag_crypto demo_create (replicate 32 7) (replicate 16 1) empty_disk
     = (Ok demo_store, demo_disk)"
proof -
  have "fst (initialize_with_key tag_crypto demo_create (replicate 32 7) (replicate 16 1) empty_disk)
      = Ok demo_store"
    by (simp add: initialize_with_key_def demo_create_def empty_disk_def ensure_private_file_def
        persist_def seal_records_def encode_records_def tag_crypto_def demo_store_def Let_def
        KEY_BYTES_def MAX_RECORDS_def write_marker_def fcard_fempty)
  then show ?thesis by (simp add: demo_disk_def prod_eq_iff)
qed

lemma demo_synced: "synced tag_crypto demo_store demo_disk"
  by (rule initialize_with_key_ok(1) [OF demo_created])
     (simp_all add: SALT_BYTES_def NONCE_BYTES_def demo_create_def)

lemma demo_io [simp]: "nonce_wf (demo_commit x)" "open_io_ok demo_open"
  by (simp_all add: nonce_wf_def demo_commit_def NONCE_BYTES_def open_io_ok_def demo_open_def)

lemma demo_commit_ok:
  assumes "encode_records m = Ok pt"
  shows "fst (commit tag_crypto (demo_commit Done) (demo_store \<lparr> records := m \<rparr>) demo_disk) = Ok ()"
proof -
  obtain bs where "store_path demo_disk = Some (Regular bs)"
    "marker_path demo_disk = Some (Regular (marker_bytes 0))"
    using demo_synced by (auto simp: synced_def demo_store_def)
  moreover have "fcard (fmdom m) \<le> MAX_RECORDS"
    using assms encode_records_ok_iff [of m] by auto
  ultimately show ?thesis
    using assms
    by (simp add: commit_def commit_prepare_def seal_records_def tag_crypto_def demo_store_def
        demo_commit_def Let_def KEY_BYTES_def write_store_file_def write_marker_def fs_read_def
        checked_add_def)
qed

lemma demo_store_put:
  assumes "wf_key (snd k)" "length v \<le> MAX_VALUE_BYTES"
  shows "fst (store_put tag_crypto (demo_commit Done) k v (demo_store, demo_disk)) = Ok ()"
proof -
  let ?m = "fmupd k v (records demo_store)"
  have "\<exists>pt. encode_records ?m = Ok pt"
    using assms
    by (cases k) (simp add: encode_records_ok_iff demo_store_def fcard_finsert_if fcard_fempty MAX_RECORDS_def)
  then have "fst (commit tag_crypto (demo_commit Done) (demo_store \<lparr> records := ?m \<rparr>) demo_disk) = Ok ()"
    using demo_commit_ok by blast
  then show ?thesis
    using assms by (cases k) (auto simp: store_put_def put_def Let_def demo_store_def split: prod.splits)
qed

lemma demo_put_ok:
  "fst (put tag_crypto (demo_commit Done) Outbox ''a'' [5] (demo_store, demo_disk)) = Ok ()"
  using demo_store_put [of "(Outbox, ''a'')" "[5]"]
  by (simp add: store_put_def wf_key_def ascii_defs MAX_VALUE_BYTES_def)

section \<open>Properties\<close>

text \<open>C5. A put that reports success is durable: if the store and its files agreed before, they agree
  afterwards, the new value is read back, every other record is unchanged, the revision has grown by
  one, and opening the files again with the same key yields exactly the store in memory.\<close>
theorem put_durable:
  assumes "aead_correct C" "synced C st d" "nonce_wf io" "open_io_ok oio" "utf8_valid k"
    and "put C io cl k v (st, d) = (Ok (), st', d')"
  shows "synced C st' d' \<and> open_with_database_key C oio (key st) d' = (Ok st', d') \<and>
    get cl k st' = Some v \<and>
    (\<forall>cl' k'. (cl', k') \<noteq> (cl, k) \<longrightarrow> get cl' k' st' = get cl' k' st) \<and>
    unat (revision st') = unat (revision st) + 1"
proof -
  obtain r where r: "checked_add (revision st) 1 = Some r"
    and st': "st' = st \<lparr> records := fmupd (cl, k) v (records st), revision := r \<rparr>"
    and l: "\<not> locked st"
    and c: "commit C io (st \<lparr> records := fmupd (cl, k) v (records st) \<rparr>) d = (Ok (), st', d')"
    using assms(6) by (rule put_ok)
  have "wf_records (records st)" using assms(2) by (simp add: synced_def)
  then have "\<forall>k' v'. fmlookup (fmupd (cl, k) v (records st)) k' = Some v' \<longrightarrow> utf8_valid (snd k')"
    using assms(5) by (auto simp: wf_records_def)
  then have s: "synced C st' d'"
    using commit_ok_synced [OF c assms(2,3)] by blast
  then show ?thesis
    using synced_reopen [OF assms(1) s assms(4)] r l by (auto simp: st' get_def word_arith)
qed

theorem put_durable_witness:
  "\<exists>st' d'. put tag_crypto (demo_commit Done) Outbox ''a'' [5] (demo_store, demo_disk) = (Ok (), st', d')
     \<and> open_with_database_key tag_crypto demo_open (key demo_store) d' = (Ok st', d')
     \<and> get Outbox ''a'' st' = Some [5]"
proof -
  obtain st' d' where p:
    "put tag_crypto (demo_commit Done) Outbox ''a'' [5] (demo_store, demo_disk) = (Ok (), st', d')"
    using demo_put_ok by (metis prod.collapse)
  then show ?thesis
    using put_durable [OF tag_crypto_correct demo_synced _ _ _ p, of demo_open]
    by (auto simp: utf8_valid_def)
qed



text \<open>C9. A rolled-back store file is refused: after a successful put, replacing the store file by its
  previous contents makes every later opening fail with the rollback error, because the marker beside
  it has already moved on.\<close>
theorem rollback_refused:
  assumes "aead_correct C" "synced C st d" "nonce_wf io" "open_io_ok oio" "utf8_valid k"
    and "put C io cl k v (st, d) = (Ok (), st', d')"
  shows "open_with_database_key C oio (key st) (d' \<lparr> store_path := store_path d \<rparr>)
    = (Err RollbackDetected, d' \<lparr> store_path := store_path d \<rparr>)"
proof -
  obtain r where r: "checked_add (revision st) 1 = Some r"
    and st': "st' = st \<lparr> records := fmupd (cl, k) v (records st), revision := r \<rparr>"
    and c: "commit C io (st \<lparr> records := fmupd (cl, k) v (records st) \<rparr>) d = (Ok (), st', d')"
    using assms(6) by (rule put_ok)
  obtain old where old: "store_path d = Some (Regular old)" "sealed C st (revision st) (records st) old"
    and s: "length (key st) = KEY_BYTES" "length (salt st) = SALT_BYTES" "wf_records (records st)"
    using assms(2) by (auto simp: synced_def)
  have mk: "marker_path d' = Some (Regular (marker_bytes r))"
    using c st' by (elim commit_ok_prepare) (auto dest: arg_cong [of _ _ revision])
  show ?thesis
    using open_sealed [OF assms(1) s old(2) assms(4), of "d' \<lparr> store_path := store_path d \<rparr>" r]
      old(1) mk next_revision [OF r] by simp
qed

theorem rollback_refused_witness:
  "\<exists>st' d'. put tag_crypto (demo_commit Done) Outbox ''a'' [5] (demo_store, demo_disk) = (Ok (), st', d')
     \<and> fst (open_with_database_key tag_crypto demo_open (key demo_store)
              (d' \<lparr> store_path := store_path demo_disk \<rparr>)) = Err RollbackDetected"
proof -
  obtain st' d' where p:
    "put tag_crypto (demo_commit Done) Outbox ''a'' [5] (demo_store, demo_disk) = (Ok (), st', d')"
    using demo_put_ok by (metis prod.collapse)
  then show ?thesis
    using rollback_refused [OF tag_crypto_correct demo_synced _ _ _ p, of demo_open]
    by (auto simp: utf8_valid_def)
qed

text \<open>C14. Rekeying loses nothing: when it reports success, the destination opens under the new
  passphrase and holds exactly the records of the source, at revision one.\<close>
theorem rekey_preserves_records:
  assumes C: "aead_correct C" and "wf_records (records st)"
    and "\<forall>s. ci_salt cio = Some s \<longrightarrow> length s = SALT_BYTES"
    and "\<forall>n. ci_nonce cio = Some n \<longrightarrow> length n = NONCE_BYTES"
    and "nonce_wf io" "open_io_ok oio"
    and "rekey_to C cio io pass st d = (Ok (), d')"
  shows "\<exists>st'. open_store C oio pass d' = (Ok st', d') \<and> records st' = records st \<and> revision st' = 1"
proof -
  let ?ms = "map (\<lambda>((cl, k), v). Put cl k v) (sorted_list_of_fmap (records st))"
  obtain rep d1 st2 where i: "initialize C cio pass d = (Ok rep, d1)"
    and b: "apply_batch C io ?ms (rep, d1) = (Ok (), st2, d')"
    using assms(7) by (auto simp: rekey_to_def Let_def split: if_splits sum.splits prod.splits)
  obtain s k where s: "ci_salt cio = Some s" and p: "validate_passphrase pass = Ok ()"
    and k: "argon2id C pass s = Some k" and ik: "initialize_with_key C cio k s d = (Ok rep, d1)"
    using i by (auto simp: initialize_def derive_key_def split: sum.splits option.splits)
  have sl: "length s = SALT_BYTES" using assms(3) s by blast
  note rep = initialize_with_key_ok [OF ik sl assms(4)]
  have recs: "records st2 = records st"
    using apply_batch_ok(1) [OF b] apply_mutations_puts [of "sorted_list_of_fmap (records st)" fmempty]
    by (simp add: rep(2) upd_all_sorted_list)
  have c: "commit C io (rep \<lparr> records := records st \<rparr>) d1 = (Ok (), st2, d')"
    using apply_batch_ok(2) [OF b] by (simp add: recs)
  have sync: "synced C st2 d'"
    using commit_ok_synced [OF c rep(1) assms(5)] wf_records_utf8 [OF assms(2)] by blast
  have st2: "salt st2 = s" "key st2 = k" "revision st2 = 1"
    using c by (auto simp: rep(2) checked_add_def elim!: commit_ok)
  show ?thesis
    using open_store_synced [OF C sync assms(6) p] k recs st2 by auto
qed

theorem rekey_preserves_records_witness:
  "\<exists>d' st'. rekey_to tag_crypto demo_create (demo_commit Done) ''correct horse'' demo_store empty_disk = (Ok (), d')
     \<and> open_store tag_crypto demo_open ''correct horse'' d' = (Ok st', d') \<and> records st' = fmempty"
proof -
  let ?r = "rekey_to tag_crypto demo_create (demo_commit Done) ''correct horse'' demo_store empty_disk"
  have "initialize tag_crypto demo_create ''correct horse'' empty_disk = (Ok demo_store, demo_disk)"
    using demo_created
    by (simp add: initialize_def validate_passphrase_def chars_count_def utf8_cont_def Let_def
        MAX_PASSPHRASE_CHARS_def demo_create_def derive_key_def) (simp add: tag_crypto_def)
  moreover have "encode_records fmempty = Ok (as_bytes ''ADPAY1'' @ be_bytes 4 0)"
    by (simp add: encode_records_def fcard_fempty MAX_RECORDS_def)
  then have "fst (commit tag_crypto (demo_commit Done) (demo_store \<lparr> records := fmempty \<rparr>) demo_disk) = Ok ()"
    by (rule demo_commit_ok)
  ultimately have ok: "?r = (Ok (), snd ?r)"
    by (auto simp: rekey_to_def apply_batch_def Let_def demo_store_def split: prod.splits)
  show ?thesis
    using rekey_preserves_records [OF tag_crypto_correct _ _ _ demo_io(1) demo_io(2) ok]
      demo_synced
    by (auto simp: synced_def demo_create_def SALT_BYTES_def NONCE_BYTES_def demo_store_def)
       (use ok in \<open>auto simp: demo_store_def demo_create_def\<close>)
qed

text \<open>A locked store reveals and accepts nothing: after locking, every read answers empty and every
  write, delete, batch, export, staging and rekeying is refused with the lock error, changing neither
  the store nor the files.\<close>
theorem lock_blocks:
  "get cl k (lock st) = None \<and> records_with_prefix cl k (lock st) = [] \<and> record_count (lock st) = 0 \<and>
   put C io cl k v (lock st, d) = (Err Locked, lock st, d) \<and>
   delete_record C io cl k (lock st, d) = (Err Locked, lock st, d) \<and>
   apply_batch C io ms (lock st, d) = (Err Locked, lock st, d) \<and>
   export_recovery_artifact tj sha a b t (lock st, d) = Err Locked \<and>
   stage_recovery_artifact oj sha out art (lock st, d) = (Err Locked, d) \<and>
   rekey_to C cio io pass (lock st) d = (Err Locked, d) \<and>
   set (key (lock st)) \<subseteq> {0}"
  by (auto simp: lock_def get_def records_with_prefix_def records_with_prefix_page_def record_count_def
      put_def delete_record_def apply_batch_def export_recovery_artifact_def
      stage_recovery_artifact_def rekey_to_def)

lemma apply_batch_commit_error:
  "apply_mutations ms (records st) = (Ok (), m) \<Longrightarrow>
     apply_batch C io ms (st, d) = (Err e, st', d') \<Longrightarrow> st' = st"
  by (auto simp: apply_batch_def Let_def dest!: commit_err split: sum.splits prod.splits if_splits)



text \<open>A batch whose second mutation has an invalid key is refused, but the first one stays in memory
  although nothing was written to disk.\<close>
lemma apply_batch_refused_keeps_prefix:
  "apply_batch C io [Put Outbox ''a'' [5], Delete Outbox []] (demo_store, d)
     = (Err RecordTooLarge, demo_store \<lparr> records := fmupd (Outbox, ''a'') [5] fmempty \<rparr>, d)"
  by (simp add: apply_batch_def demo_store_def wf_key_def ascii_defs MAX_VALUE_BYTES_def Let_def
      validate_record_key_def MAX_KEY_BYTES_def)

text \<open>A put whose store write fails after the rename reports an error, but opening the files again
  shows the new value.\<close>
lemma put_error_may_be_durable:
  assumes "io_write_store io = FailedAfter" "commit_prepare C io st d = Ok (bs, r, ps, pm)"
  shows "commit C io st d = (Err Io, st, d \<lparr> store_path := Some (Regular bs) \<rparr>)"
  using assms by (simp add: commit_def write_store_file_def)

end
