(* ===== verification/Delivery.thy ===== *)
theory Delivery
  imports Encrypted_Store
begin

text \<open>
  The delivery ledger and the relay envelope of the daemon (\<^verbatim>\<open>delivery.rs\<close>).  The ledger is a
  \<^verbatim>\<open>BTreeMap\<close> from envelope digests to delivery records; every operation that takes \<^verbatim>\<open>&mut self\<close> returns
  its answer together with the new ledger.  The JSON text of the ledger and of an envelope, SHA-256
  and the random source are arguments.
\<close>

section \<open>Definitions\<close>

definition VERSION :: byte where "VERSION = 1"
definition BLOCK_SIZE :: nat where "BLOCK_SIZE = 256"
definition MAX_CIPHERTEXT_BYTES :: nat where "MAX_CIPHERTEXT_BYTES = 96 * 1024"
definition MAX_MAILBOX_BYTES :: nat where "MAX_MAILBOX_BYTES = 128"
definition EXPIRY_BUCKET_SECONDS :: u64 where "EXPIRY_BUCKET_SECONDS = 300"
definition MAX_ENVELOPE_TTL_SECONDS :: u64 where "MAX_ENVELOPE_TTL_SECONDS = 7 * 24 * 60 * 60"
definition MAX_DIGEST_BYTES :: nat where "MAX_DIGEST_BYTES = 128"
definition MAX_RELAY_ID_BYTES :: nat where "MAX_RELAY_ID_BYTES = 256"
definition MAX_WIRE_BYTES :: nat where "MAX_WIRE_BYTES = 256 * 1024"
definition MAX_DESTINATION_BYTES :: nat where "MAX_DESTINATION_BYTES = 2 * 1024"

lemmas delivery_consts = VERSION_def BLOCK_SIZE_def MAX_CIPHERTEXT_BYTES_def MAX_MAILBOX_BYTES_def
  EXPIRY_BUCKET_SECONDS_def MAX_ENVELOPE_TTL_SECONDS_def MAX_DIGEST_BYTES_def
  MAX_RELAY_ID_BYTES_def MAX_WIRE_BYTES_def MAX_DESTINATION_BYTES_def

datatype EnvelopeError =
  InvalidMailbox | InvalidCiphertext | InvalidExpiry | InvalidWire | Expired | TooLarge

record RelayEnvelope =
  env_version :: byte
  env_mailbox :: string
  env_envelope_id :: string
  env_expires_at :: u64
  env_ciphertext :: bytes
  env_padding :: bytes

datatype DeliveryState =
  Draft | Encrypted | Queued | RelayAccepted | RecipientReceived | Decrypted | Retryable | Failed
  | Cancelled

record DeliveryRecord =
  rec_digest :: string
  rec_state :: DeliveryState
  rec_attempts :: byte
  rec_next_retry_at :: "u64 option"
  rec_relay_id :: "string option"
  rec_wire :: "string option"
  rec_expires_at :: "u64 option"
  rec_destination :: "string option"

type_synonym DeliveryLedger = "(string, DeliveryRecord) btree"

definition wipe :: "DeliveryLedger \<Rightarrow> DeliveryLedger" where
  "wipe l = fmempty"

definition fresh_record ::
    "string \<Rightarrow> DeliveryState \<Rightarrow> string option \<Rightarrow> string option \<Rightarrow> u64 option \<Rightarrow> string option \<Rightarrow> DeliveryRecord"
  where
  "fresh_record digest st relay_id wire expires_at destination =
     \<lparr> rec_digest = digest, rec_state = st, rec_attempts = 0, rec_next_retry_at = None,
       rec_relay_id = relay_id, rec_wire = wire, rec_expires_at = expires_at,
       rec_destination = destination \<rparr>"

definition register_encrypted_with_destination ::
    "string \<Rightarrow> string option \<Rightarrow> u64 option \<Rightarrow> string option \<Rightarrow> DeliveryLedger
      \<Rightarrow> (EnvelopeError + unit) \<times> DeliveryLedger" where
  "register_encrypted_with_destination digest wire expires_at destination l =
     (if digest = [] \<or> fmlookup l digest \<noteq> None then (Err InvalidWire, l)
      else (Ok (), fmupd digest (fresh_record digest Encrypted None wire expires_at destination) l))"

definition register_encrypted_with_wire_and_expiry ::
    "string \<Rightarrow> string option \<Rightarrow> u64 option \<Rightarrow> DeliveryLedger
      \<Rightarrow> (EnvelopeError + unit) \<times> DeliveryLedger" where
  "register_encrypted_with_wire_and_expiry digest wire expires_at l =
     register_encrypted_with_destination digest wire expires_at None l"

definition register_encrypted_with_wire ::
    "string \<Rightarrow> string option \<Rightarrow> DeliveryLedger \<Rightarrow> (EnvelopeError + unit) \<times> DeliveryLedger" where
  "register_encrypted_with_wire digest wire l =
     register_encrypted_with_wire_and_expiry digest wire None l"

definition register_encrypted ::
    "string \<Rightarrow> DeliveryLedger \<Rightarrow> (EnvelopeError + unit) \<times> DeliveryLedger" where
  "register_encrypted digest l = register_encrypted_with_wire digest None l"

definition register_queued_with_destination ::
    "string \<Rightarrow> string option \<Rightarrow> u64 option \<Rightarrow> string option \<Rightarrow> DeliveryLedger
      \<Rightarrow> (EnvelopeError + unit) \<times> DeliveryLedger" where
  "register_queued_with_destination digest wire expires_at destination l =
     (if digest = [] \<or> fmlookup l digest \<noteq> None then (Err InvalidWire, l)
      else (Ok (), fmupd digest (fresh_record digest Queued None wire expires_at destination) l))"

definition discard_if_state ::
    "string \<Rightarrow> DeliveryState \<Rightarrow> DeliveryLedger \<Rightarrow> bool \<times> DeliveryLedger" where
  "discard_if_state digest expected_state l =
     (case fmlookup l digest of
        Some r \<Rightarrow> if rec_state r = expected_state then (True, fmdrop digest l) else (False, l)
      | None \<Rightarrow> (False, l))"

fun valid_transition :: "DeliveryState \<Rightarrow> DeliveryState \<Rightarrow> bool" where
  "valid_transition Encrypted Queued = True"
| "valid_transition Queued RelayAccepted = True"
| "valid_transition RelayAccepted RecipientReceived = True"
| "valid_transition RecipientReceived Decrypted = True"
| "valid_transition Retryable Queued = True"
| "valid_transition _ _ = False"

definition transition ::
    "string \<Rightarrow> DeliveryState \<Rightarrow> DeliveryLedger \<Rightarrow> (EnvelopeError + unit) \<times> DeliveryLedger" where
  "transition digest st l =
     (case fmlookup l digest of
        None \<Rightarrow> (Err InvalidWire, l)
      | Some r \<Rightarrow>
          if \<not> valid_transition (rec_state r) st then (Err InvalidWire, l)
          else (Ok (), fmupd digest (r \<lparr> rec_state := st, rec_next_retry_at := None \<rparr>) l))"

definition acknowledge_recipient ::
    "string \<Rightarrow> DeliveryLedger \<Rightarrow> (EnvelopeError + bool) \<times> DeliveryLedger" where
  "acknowledge_recipient digest l =
     (case fmlookup l digest of
        None \<Rightarrow> (Err InvalidWire, l)
      | Some r \<Rightarrow>
          if rec_state r \<in> {RecipientReceived, Decrypted} then (Ok False, l)
          else if rec_state r \<noteq> RelayAccepted then (Err InvalidWire, l)
          else (Ok True, fmupd digest (r \<lparr> rec_state := RecipientReceived \<rparr>) l))"

definition bind_relay_id ::
    "string \<Rightarrow> string \<Rightarrow> DeliveryLedger \<Rightarrow> (EnvelopeError + unit) \<times> DeliveryLedger" where
  "bind_relay_id digest relay_id l =
     (case fmlookup l digest of
        None \<Rightarrow> (Err InvalidWire, l)
      | Some r \<Rightarrow> (Ok (), fmupd digest (r \<lparr> rec_relay_id := Some relay_id \<rparr>) l))"

definition ledger_values :: "DeliveryLedger \<Rightarrow> DeliveryRecord list" where
  "ledger_values l = map snd (sorted_list_of_fmap l)"

definition acknowledge_relay_ids :: "string list \<Rightarrow> DeliveryLedger \<Rightarrow> nat" where
  "acknowledge_relay_ids ids l =
     length (filter (\<lambda>r. (case rec_relay_id r of Some i \<Rightarrow> i \<in> set ids | None \<Rightarrow> False)
                        \<and> rec_state r = RelayAccepted) (ledger_values l))"

definition register_recipient_received ::
    "string \<Rightarrow> string \<Rightarrow> DeliveryLedger \<Rightarrow> (EnvelopeError + bool) \<times> DeliveryLedger" where
  "register_recipient_received digest relay_id l =
     (if digest = [] then (Err InvalidWire, l)
      else if fmlookup l digest \<noteq> None then (Ok False, l)
      else (Ok True,
            fmupd digest (fresh_record digest RecipientReceived (Some relay_id) None None None) l))"

definition mark_decrypted :: "string \<Rightarrow> DeliveryLedger \<Rightarrow> (EnvelopeError + bool) \<times> DeliveryLedger" where
  "mark_decrypted digest l =
     (case fmlookup l digest of
        None \<Rightarrow> (Err InvalidWire, l)
      | Some r \<Rightarrow>
          if rec_state r = Decrypted then (Ok False, l)
          else if rec_state r \<noteq> RecipientReceived then (Err InvalidWire, l)
          else (Ok True, fmupd digest (r \<lparr> rec_state := Decrypted \<rparr>) l))"

definition cancel :: "string \<Rightarrow> DeliveryLedger \<Rightarrow> (EnvelopeError + bool) \<times> DeliveryLedger" where
  "cancel digest l =
     (case fmlookup l digest of
        None \<Rightarrow> (Err InvalidWire, l)
      | Some r \<Rightarrow>
          if rec_state r \<in> {RelayAccepted, RecipientReceived, Decrypted, Failed, Cancelled}
          then (Ok False, l)
          else (Ok True, fmupd digest
                  (r \<lparr> rec_state := Cancelled, rec_next_retry_at := None, rec_wire := None \<rparr>) l))"

definition expires_now :: "u64 \<Rightarrow> DeliveryRecord \<Rightarrow> bool" where
  "expires_now now r \<longleftrightarrow>
     (case rec_expires_at r of Some e \<Rightarrow> e \<le> now | None \<Rightarrow> False) \<and>
     rec_state r \<notin> {Decrypted, Cancelled}"

definition expire_due :: "u64 \<Rightarrow> DeliveryLedger \<Rightarrow> nat \<times> DeliveryLedger" where
  "expire_due now l =
     (length (filter (expires_now now) (ledger_values l)),
      fmmap (\<lambda>r. if expires_now now r
                 then r \<lparr> rec_state := Failed, rec_next_retry_at := None, rec_wire := None \<rparr>
                 else r) l)"

definition retry_backoff :: "byte \<Rightarrow> u64" where
  "retry_backoff attempts = min (sat_mul 5 (sat_pow 2 (unat (attempts - 1)))) 3600"

definition schedule_retry ::
    "string \<Rightarrow> u64 \<Rightarrow> DeliveryLedger \<Rightarrow> (EnvelopeError + bool) \<times> DeliveryLedger" where
  "schedule_retry digest now l =
     (case fmlookup l digest of
        None \<Rightarrow> (Err InvalidWire, l)
      | Some r \<Rightarrow>
          if rec_state r \<in> {RecipientReceived, Decrypted, Failed, Cancelled} then (Ok False, l)
          else let attempts = sat_add (rec_attempts r) 1 in
            if 5 < attempts
            then (Ok False, fmupd digest
                    (r \<lparr> rec_attempts := attempts, rec_state := Failed, rec_next_retry_at := None \<rparr>) l)
            else (Ok True, fmupd digest
                    (r \<lparr> rec_attempts := attempts, rec_state := Retryable,
                         rec_next_retry_at := Some (sat_add now (retry_backoff attempts)) \<rparr>) l))"

definition schedule_retry_if_current ::
    "string \<Rightarrow> DeliveryState \<Rightarrow> u64 \<Rightarrow> DeliveryLedger \<Rightarrow> (EnvelopeError + bool) \<times> DeliveryLedger" where
  "schedule_retry_if_current digest expected_state now l =
     (case fmlookup l digest of
        None \<Rightarrow> (Err InvalidWire, l)
      | Some r \<Rightarrow> if rec_state r \<noteq> expected_state then (Ok False, l) else schedule_retry digest now l)"

definition mark_failed :: "string \<Rightarrow> DeliveryLedger \<Rightarrow> (EnvelopeError + bool) \<times> DeliveryLedger" where
  "mark_failed digest l =
     (case fmlookup l digest of
        None \<Rightarrow> (Err InvalidWire, l)
      | Some r \<Rightarrow>
          if rec_state r = Failed then (Ok False, l)
          else (Ok True, fmupd digest
                  (r \<lparr> rec_state := Failed, rec_next_retry_at := None, rec_wire := None,
                       rec_destination := None \<rparr>) l))"

definition mark_failed_if_current ::
    "string \<Rightarrow> DeliveryState \<Rightarrow> DeliveryLedger \<Rightarrow> (EnvelopeError + bool) \<times> DeliveryLedger" where
  "mark_failed_if_current digest expected_state l =
     (case fmlookup l digest of
        None \<Rightarrow> (Err InvalidWire, l)
      | Some r \<Rightarrow> if rec_state r \<noteq> expected_state then (Ok False, l) else mark_failed digest l)"

definition ledger_get :: "string \<Rightarrow> DeliveryLedger \<Rightarrow> DeliveryRecord option" where
  "ledger_get digest l = fmlookup l digest"

definition is_due :: "u64 \<Rightarrow> DeliveryRecord \<Rightarrow> bool" where
  "is_due now r \<longleftrightarrow> rec_state r \<in> {Retryable, Queued} \<and>
     (case rec_next_retry_at r of None \<Rightarrow> True | Some retry_at \<Rightarrow> retry_at \<le> now) \<and>
     rec_wire r \<noteq> None \<and> rec_destination r \<noteq> None"

definition due_retries :: "u64 \<Rightarrow> DeliveryLedger \<Rightarrow> DeliveryRecord list" where
  "due_retries now l = filter (is_due now) (ledger_values l)"

definition accept_retry ::
    "string \<Rightarrow> DeliveryState \<Rightarrow> string \<Rightarrow> DeliveryLedger \<Rightarrow> (EnvelopeError + bool) \<times> DeliveryLedger" where
  "accept_retry digest expected_state relay_id l =
     (case fmlookup l digest of
        None \<Rightarrow> (Err InvalidWire, l)
      | Some r \<Rightarrow>
          if rec_state r \<noteq> expected_state \<and> rec_state r \<noteq> Cancelled then (Ok False, l)
          else (Ok True, fmupd digest
                  (r \<lparr> rec_relay_id := Some relay_id, rec_state := RelayAccepted,
                       rec_next_retry_at := None \<rparr>) l))"

section \<open>Persistence\<close>

definition opt_len_ok :: "nat \<Rightarrow> string option \<Rightarrow> bool" where
  "opt_len_ok bound v \<longleftrightarrow> (case v of None \<Rightarrow> True | Some s \<Rightarrow> s \<noteq> [] \<and> length s \<le> bound)"

definition valid_persisted_record :: "string \<Rightarrow> DeliveryRecord \<Rightarrow> bool" where
  "valid_persisted_record k r \<longleftrightarrow>
     \<not> (k = [] \<or> MAX_DIGEST_BYTES < length k \<or> rec_digest r \<noteq> k \<or> 5 < rec_attempts r
        \<or> \<not> opt_len_ok MAX_RELAY_ID_BYTES (rec_relay_id r)
        \<or> \<not> opt_len_ok MAX_WIRE_BYTES (rec_wire r)
        \<or> \<not> opt_len_ok MAX_DESTINATION_BYTES (rec_destination r)) \<and>
     (case rec_state r of
        Retryable \<Rightarrow> 0 < rec_attempts r \<and> rec_next_retry_at r \<noteq> None \<and> rec_wire r \<noteq> None
      | Queued \<Rightarrow> rec_next_retry_at r = None \<and> rec_wire r \<noteq> None \<and> rec_destination r \<noteq> None
      | _ \<Rightarrow> rec_next_retry_at r = None)"

definition encoded_bytes ::
    "(DeliveryLedger \<Rightarrow> bytes option) \<Rightarrow> DeliveryLedger \<Rightarrow> StorageError + bytes" where
  "encoded_bytes to_json l = ok_or (to_json l) CorruptStore"

definition ledger_key :: record_key where
  "ledger_key = (Outbox, ''delivery/ledger'')"

definition ledger_persist ::
    "(DeliveryLedger \<Rightarrow> bytes option) \<Rightarrow> store_crypto \<Rightarrow> commit_io \<Rightarrow> DeliveryLedger
      \<Rightarrow> EncryptedStore \<times> disk \<Rightarrow> (StorageError + unit) \<times> EncryptedStore \<times> disk" where
  "ledger_persist to_json C io l s =
     (case encoded_bytes to_json l of
        Inl e \<Rightarrow> (Err e, s)
      | Inr bs \<Rightarrow> store_put C io ledger_key bs s)"

definition ledger_restore ::
    "(bytes \<Rightarrow> DeliveryLedger option) \<Rightarrow> EncryptedStore \<times> disk \<Rightarrow> StorageError + DeliveryLedger" where
  "ledger_restore of_json s =
     (case store_get ledger_key s of
        None \<Rightarrow> Ok fmempty
      | Some bs \<Rightarrow>
          res_bind (ok_or (of_json bs) CorruptStore) (\<lambda>l.
            if MAX_RECORDS < fcard (fmdom l)
               \<or> list_ex (\<lambda>(k, r). \<not> valid_persisted_record k r) (sorted_list_of_fmap l)
            then Err CorruptStore else Ok l))"

section \<open>Envelopes\<close>

record WireEnvelope =
  wire_v :: byte
  wire_m :: string
  wire_i :: string
  wire_e :: u64
  wire_c :: string
  wire_p :: string

definition validate_mailbox :: "string \<Rightarrow> EnvelopeError + unit" where
  "validate_mailbox mailbox =
     (if mailbox = [] \<or> MAX_MAILBOX_BYTES < length mailbox
         \<or> \<not> list_all (\<lambda>c. is_ascii_graphic c \<and> code c \<noteq> 34 \<and> code c \<noteq> 92) mailbox
      then Err InvalidMailbox else Ok ())"

text \<open>The random source answers a request for \<open>n\<close> bytes with \<open>n\<close> bytes or fails; the envelope draws
  its padding and then its identifier.  The rounding of the expiry is machine arithmetic.\<close>

definition create ::
    "(nat \<Rightarrow> bytes option) \<Rightarrow> (nat \<Rightarrow> bytes option) \<Rightarrow> string \<Rightarrow> bytes \<Rightarrow> u64 \<Rightarrow> u64
      \<Rightarrow> EnvelopeError + RelayEnvelope" where
  "create fill_padding fill_id mailbox ciphertext expires_at now =
     res_bind (validate_mailbox mailbox) (\<lambda>_.
       if ciphertext = [] then Err InvalidCiphertext
       else if MAX_CIPHERTEXT_BYTES < length ciphertext then Err TooLarge
       else if expires_at \<le> now \<or> sat_add now MAX_ENVELOPE_TTL_SECONDS < expires_at
       then Err InvalidExpiry
       else let padded_len = div_ceil (length ciphertext) BLOCK_SIZE * BLOCK_SIZE in
         res_bind (ok_or (fill_padding (padded_len - length ciphertext)) InvalidWire) (\<lambda>padding.
         res_bind (ok_or (fill_id 16) InvalidWire) (\<lambda>i.
           Ok \<lparr> env_version = VERSION, env_mailbox = mailbox, env_envelope_id = hex i,
                env_expires_at = of_nat (div_ceil (unat expires_at) (unat EXPIRY_BUCKET_SECONDS))
                                   * EXPIRY_BUCKET_SECONDS,
                env_ciphertext = ciphertext, env_padding = padding \<rparr>)))"

definition to_wire ::
    "(WireEnvelope \<Rightarrow> string option) \<Rightarrow> RelayEnvelope \<Rightarrow> EnvelopeError + string" where
  "to_wire to_json env =
     (if env_version env \<noteq> VERSION
         \<or> MAX_CIPHERTEXT_BYTES + BLOCK_SIZE < length (env_ciphertext env) + length (env_padding env)
      then Err InvalidWire
      else ok_or (to_json \<lparr> wire_v = env_version env, wire_m = env_mailbox env,
                    wire_i = env_envelope_id env, wire_e = env_expires_at env,
                    wire_c = hex (env_ciphertext env), wire_p = hex (env_padding env) \<rparr>) InvalidWire)"

definition from_wire ::
    "(string \<Rightarrow> WireEnvelope option) \<Rightarrow> string \<Rightarrow> u64 \<Rightarrow> EnvelopeError + RelayEnvelope" where
  "from_wire of_json wire now =
     res_bind (ok_or (of_json wire) InvalidWire) (\<lambda>p.
       if wire_v p \<noteq> VERSION \<or> wire_e p \<le> now \<or> sat_add now MAX_ENVELOPE_TTL_SECONDS < wire_e p
       then Err (if wire_e p \<le> now then Expired else InvalidWire)
       else res_bind (validate_mailbox (wire_m p)) (\<lambda>_.
         if length (wire_i p) \<noteq> 32 \<or> \<not> list_all is_ascii_hexdigit (wire_i p) then Err InvalidWire
         else res_bind (ok_or (decode_hex (wire_c p)) InvalidWire) (\<lambda>ciphertext.
              res_bind (ok_or (decode_hex (wire_p p)) InvalidWire) (\<lambda>padding.
                if ciphertext = [] \<or> MAX_CIPHERTEXT_BYTES < length ciphertext
                   \<or> MAX_CIPHERTEXT_BYTES + BLOCK_SIZE < length ciphertext + length padding
                then Err TooLarge
                else if (length ciphertext + length padding) mod BLOCK_SIZE \<noteq> 0
                then Err InvalidWire
                else Ok \<lparr> env_version = wire_v p, env_mailbox = wire_m p,
                          env_envelope_id = wire_i p, env_expires_at = wire_e p,
                          env_ciphertext = ciphertext, env_padding = padding \<rparr>))))"

definition envelope_digest ::
    "(WireEnvelope \<Rightarrow> string option) \<Rightarrow> (bytes \<Rightarrow> bytes) \<Rightarrow> RelayEnvelope \<Rightarrow> EnvelopeError + string" where
  "envelope_digest to_json sha256 env =
     res_bind (to_wire to_json env) (\<lambda>wire. Ok (hex (sha256 (as_bytes wire))))"

section \<open>One operation, one record\<close>

datatype LedgerOp =
  OpWipe
  | OpRegisterEncrypted string "string option" "u64 option" "string option"
  | OpRegisterQueued string "string option" "u64 option" "string option"
  | OpDiscard string DeliveryState
  | OpTransition string DeliveryState
  | OpAcknowledgeRecipient string
  | OpBindRelayId string string
  | OpRegisterReceived string string
  | OpMarkDecrypted string
  | OpCancel string
  | OpExpire u64
  | OpScheduleRetry string u64
  | OpScheduleRetryIf string DeliveryState u64
  | OpMarkFailed string
  | OpMarkFailedIf string DeliveryState
  | OpAcceptRetry string DeliveryState string

fun apply_op :: "LedgerOp \<Rightarrow> DeliveryLedger \<Rightarrow> DeliveryLedger" where
  "apply_op OpWipe l = wipe l"
| "apply_op (OpRegisterEncrypted d w e t) l = snd (register_encrypted_with_destination d w e t l)"
| "apply_op (OpRegisterQueued d w e t) l = snd (register_queued_with_destination d w e t l)"
| "apply_op (OpDiscard d s) l = snd (discard_if_state d s l)"
| "apply_op (OpTransition d s) l = snd (transition d s l)"
| "apply_op (OpAcknowledgeRecipient d) l = snd (acknowledge_recipient d l)"
| "apply_op (OpBindRelayId d i) l = snd (bind_relay_id d i l)"
| "apply_op (OpRegisterReceived d i) l = snd (register_recipient_received d i l)"
| "apply_op (OpMarkDecrypted d) l = snd (mark_decrypted d l)"
| "apply_op (OpCancel d) l = snd (cancel d l)"
| "apply_op (OpExpire now) l = snd (expire_due now l)"
| "apply_op (OpScheduleRetry d now) l = snd (schedule_retry d now l)"
| "apply_op (OpScheduleRetryIf d s now) l = snd (schedule_retry_if_current d s now l)"
| "apply_op (OpMarkFailed d) l = snd (mark_failed d l)"
| "apply_op (OpMarkFailedIf d s) l = snd (mark_failed_if_current d s l)"
| "apply_op (OpAcceptRetry d s i) l = snd (accept_retry d s i l)"

abbreviation run_ops :: "LedgerOp list \<Rightarrow> DeliveryLedger \<Rightarrow> DeliveryLedger" where
  "run_ops ops l \<equiv> foldl (\<lambda>l op. apply_op op l) l ops"

text \<open>What may happen to a single record: the state machine behind the ledger.\<close>

inductive record_step :: "DeliveryRecord \<Rightarrow> DeliveryRecord \<Rightarrow> bool" where
  transition: "valid_transition (rec_state r) s \<Longrightarrow>
     record_step r (r \<lparr> rec_state := s, rec_next_retry_at := None \<rparr>)"
| acknowledge: "rec_state r = RelayAccepted \<Longrightarrow> record_step r (r \<lparr> rec_state := RecipientReceived \<rparr>)"
| bind: "record_step r (r \<lparr> rec_relay_id := Some i \<rparr>)"
| decrypt: "rec_state r = RecipientReceived \<Longrightarrow> record_step r (r \<lparr> rec_state := Decrypted \<rparr>)"
| cancel: "rec_state r \<notin> {RelayAccepted, RecipientReceived, Decrypted, Failed, Cancelled} \<Longrightarrow>
     record_step r (r \<lparr> rec_state := Cancelled, rec_next_retry_at := None, rec_wire := None \<rparr>)"
| expire: "rec_state r \<notin> {Decrypted, Cancelled} \<Longrightarrow>
     record_step r (r \<lparr> rec_state := Failed, rec_next_retry_at := None, rec_wire := None \<rparr>)"
| give_up: "rec_state r \<notin> {RecipientReceived, Decrypted, Failed, Cancelled} \<Longrightarrow>
     5 < sat_add (rec_attempts r) 1 \<Longrightarrow>
     record_step r (r \<lparr> rec_attempts := sat_add (rec_attempts r) 1, rec_state := Failed,
                        rec_next_retry_at := None \<rparr>)"
| retry: "rec_state r \<notin> {RecipientReceived, Decrypted, Failed, Cancelled} \<Longrightarrow>
     \<not> 5 < sat_add (rec_attempts r) 1 \<Longrightarrow>
     record_step r (r \<lparr> rec_attempts := sat_add (rec_attempts r) 1, rec_state := Retryable,
                        rec_next_retry_at := Some t \<rparr>)"
| fail: "rec_state r \<noteq> Failed \<Longrightarrow>
     record_step r (r \<lparr> rec_state := Failed, rec_next_retry_at := None, rec_wire := None,
                        rec_destination := None \<rparr>)"
| accept: "record_step r (r \<lparr> rec_relay_id := Some i, rec_state := RelayAccepted,
                              rec_next_retry_at := None \<rparr>)"

inductive_cases record_stepE: "record_step r r'"

definition is_fresh :: "string \<Rightarrow> DeliveryRecord \<Rightarrow> bool" where
  "is_fresh k r \<longleftrightarrow> k \<noteq> [] \<and> (\<exists>st i w e t. st \<in> {Encrypted, Queued, RecipientReceived} \<and>
     r = fresh_record k st i w e t)"

lemmas ledger_op_defs = wipe_def register_encrypted_with_destination_def
  register_queued_with_destination_def discard_if_state_def transition_def acknowledge_recipient_def
  bind_relay_id_def register_recipient_received_def mark_decrypted_def cancel_def expire_due_def
  schedule_retry_def schedule_retry_if_current_def mark_failed_def mark_failed_if_current_def
  accept_retry_def

lemma is_freshI:
  "k \<noteq> [] \<Longrightarrow> is_fresh k (fresh_record k Encrypted i w e t)"
  "k \<noteq> [] \<Longrightarrow> is_fresh k (fresh_record k Queued i w e t)"
  "k \<noteq> [] \<Longrightarrow> is_fresh k (fresh_record k RecipientReceived i w e t)"
  unfolding is_fresh_def by blast+

definition stepped :: "DeliveryLedger \<Rightarrow> string \<Rightarrow> DeliveryRecord \<Rightarrow> bool" where
  "stepped l k r' \<longleftrightarrow> (\<exists>r. fmlookup l k = Some r \<and> (r' = r \<or> record_step r r')) \<or>
     (fmlookup l k = None \<and> is_fresh k r')"

lemma steppedI:
  "fmlookup l k = Some r' \<Longrightarrow> stepped l k r'"
  "fmlookup l k = Some r \<Longrightarrow> record_step r r' \<Longrightarrow> stepped l k r'"
  "fmlookup l k = None \<Longrightarrow> is_fresh k r' \<Longrightarrow> stepped l k r'"
  by (auto simp: stepped_def)

text \<open>An operation on the record of \<open>d\<close> that leaves the ledger alone or makes one step.\<close>

lemma one_record_stepped:
  assumes "l' = l \<or> (\<exists>r r'. fmlookup l d = Some r \<and> record_step r r' \<and> l' = fmupd d r' l)"
    and "fmlookup l' k = Some x"
  shows "stepped l k x"
  using assms by (auto simp: stepped_def split: if_splits)

named_theorems one_step \<open>operations that make one step of one record\<close>

lemma transition_one_step [one_step]:
  "snd (transition d s l) = l \<or>
     (\<exists>r r'. fmlookup l d = Some r \<and> record_step r r' \<and> snd (transition d s l) = fmupd d r' l)"
proof (cases "fmlookup l d")
  case (Some r)
  then show ?thesis using record_step.transition [of r] by (auto simp: transition_def)
qed (simp add: transition_def)

lemma acknowledge_recipient_one_step [one_step]:
  "snd (acknowledge_recipient d l) = l \<or>
     (\<exists>r r'. fmlookup l d = Some r \<and> record_step r r' \<and> snd (acknowledge_recipient d l) = fmupd d r' l)"
proof (cases "fmlookup l d")
  case (Some r)
  then show ?thesis using record_step.acknowledge [of r] by (auto simp: acknowledge_recipient_def)
qed (simp add: acknowledge_recipient_def)

lemma bind_relay_id_one_step [one_step]:
  "snd (bind_relay_id d i l) = l \<or>
     (\<exists>r r'. fmlookup l d = Some r \<and> record_step r r' \<and> snd (bind_relay_id d i l) = fmupd d r' l)"
proof (cases "fmlookup l d")
  case (Some r)
  then show ?thesis using record_step.bind [of r] by (auto simp: bind_relay_id_def)
qed (simp add: bind_relay_id_def)

lemma mark_decrypted_one_step [one_step]:
  "snd (mark_decrypted d l) = l \<or>
     (\<exists>r r'. fmlookup l d = Some r \<and> record_step r r' \<and> snd (mark_decrypted d l) = fmupd d r' l)"
proof (cases "fmlookup l d")
  case (Some r)
  then show ?thesis using record_step.decrypt [of r] by (auto simp: mark_decrypted_def)
qed (simp add: mark_decrypted_def)

lemma cancel_one_step [one_step]:
  "snd (cancel d l) = l \<or>
     (\<exists>r r'. fmlookup l d = Some r \<and> record_step r r' \<and> snd (cancel d l) = fmupd d r' l)"
proof (cases "fmlookup l d")
  case (Some r)
  then show ?thesis using record_step.cancel [of r] by (auto simp: cancel_def)
qed (simp add: cancel_def)

lemma mark_failed_one_step [one_step]:
  "snd (mark_failed d l) = l \<or>
     (\<exists>r r'. fmlookup l d = Some r \<and> record_step r r' \<and> snd (mark_failed d l) = fmupd d r' l)"
proof (cases "fmlookup l d")
  case (Some r)
  then show ?thesis using record_step.fail [of r] by (auto simp: mark_failed_def)
qed (simp add: mark_failed_def)

lemma accept_retry_one_step [one_step]:
  "snd (accept_retry d s i l) = l \<or>
     (\<exists>r r'. fmlookup l d = Some r \<and> record_step r r' \<and> snd (accept_retry d s i l) = fmupd d r' l)"
proof (cases "fmlookup l d")
  case (Some r)
  then show ?thesis using record_step.accept [of r] by (auto simp: accept_retry_def)
qed (simp add: accept_retry_def)

lemma schedule_retry_one_step [one_step]:
  "snd (schedule_retry d now l) = l \<or>
     (\<exists>r r'. fmlookup l d = Some r \<and> record_step r r' \<and> snd (schedule_retry d now l) = fmupd d r' l)"
proof (cases "fmlookup l d")
  case (Some r)
  then show ?thesis
    using record_step.retry [of r] record_step.give_up [of r]
    by (auto simp: schedule_retry_def Let_def)
qed (simp add: schedule_retry_def)

lemma schedule_retry_if_current_one_step [one_step]:
  "snd (schedule_retry_if_current d s now l) = l \<or>
     (\<exists>r r'. fmlookup l d = Some r \<and> record_step r r' \<and>
        snd (schedule_retry_if_current d s now l) = fmupd d r' l)"
  using schedule_retry_one_step [of d now l]
  by (auto simp: schedule_retry_if_current_def split: option.split)

lemma mark_failed_if_current_one_step [one_step]:
  "snd (mark_failed_if_current d s l) = l \<or>
     (\<exists>r r'. fmlookup l d = Some r \<and> record_step r r' \<and> snd (mark_failed_if_current d s l) = fmupd d r' l)"
  using mark_failed_one_step [of d l]
  by (auto simp: mark_failed_if_current_def split: option.split)

lemma expire_stepped: "fmlookup (snd (expire_due now l)) k = Some x \<Longrightarrow> stepped l k x"
proof (cases "fmlookup l k")
  case (Some r)
  assume "fmlookup (snd (expire_due now l)) k = Some x"
  then show ?thesis
    using Some record_step.expire [of r]
    by (auto simp: expire_due_def expires_now_def stepped_def split: if_splits)
qed (simp add: expire_due_def)

lemma apply_op_stepped:
  assumes x: "fmlookup (apply_op op l) k = Some x"
  shows "stepped l k x"
proof (cases op)
  case (OpExpire now)
  then show ?thesis using x expire_stepped by simp
next
  case OpWipe
  then show ?thesis using x by (simp add: wipe_def)
next
  case (OpDiscard d s)
  then show ?thesis
    using x by (auto simp: discard_if_state_def intro: steppedI split: option.splits if_splits)
qed (use x in \<open>auto simp: register_encrypted_with_destination_def
       register_queued_with_destination_def register_recipient_received_def
       intro: steppedI is_freshI one_step [THEN one_record_stepped] split: if_splits\<close>)

lemmas apply_op_record = apply_op_stepped [unfolded stepped_def]

section \<open>Invariants of the ledger\<close>

definition record_inv :: "string \<Rightarrow> DeliveryRecord \<Rightarrow> bool" where
  "record_inv k r \<longleftrightarrow> k \<noteq> [] \<and> rec_digest r = k \<and>
     (rec_next_retry_at r \<noteq> None \<longleftrightarrow> rec_state r = Retryable) \<and>
     (rec_state r = Retryable \<longrightarrow> 1 \<le> rec_attempts r \<and> rec_attempts r \<le> 5)"

lemma sat_add_one_pos: "1 \<le> sat_add (a :: byte) 1"
proof -
  have "1 \<le> unat (sat_add a 1)" by (simp add: word_arith)
  then show ?thesis by (simp add: word_le_nat_alt)
qed

lemma valid_transition_target: "valid_transition s t \<Longrightarrow> t \<noteq> Retryable"
  by (cases s; cases t) simp_all

lemma record_step_inv: "record_step r r' \<Longrightarrow> record_inv k r \<Longrightarrow> record_inv k r'"
  by (induction rule: record_step.induct)
     (auto simp: record_inv_def sat_add_one_pos not_less dest: valid_transition_target)

lemma fresh_inv: "is_fresh k r \<Longrightarrow> record_inv k r"
  by (auto simp: is_fresh_def fresh_record_def record_inv_def)

lemma apply_op_inv: "fmpred record_inv l \<Longrightarrow> fmpred record_inv (apply_op op l)"
  by (auto simp: fmpred_iff dest!: apply_op_record intro: record_step_inv fresh_inv)

lemma run_ops_inv: "fmpred record_inv l \<Longrightarrow> fmpred record_inv (run_ops ops l)"
  by (induction ops arbitrary: l) (simp_all add: apply_op_inv)

lemma record_step_attempts: "record_step r r' \<Longrightarrow> rec_attempts r \<le> rec_attempts r'"
  by (induction rule: record_step.induct) (auto simp: le_sat_add)

section \<open>Retries\<close>

definition grants_retry :: "string \<Rightarrow> LedgerOp \<Rightarrow> DeliveryLedger \<Rightarrow> bool" where
  "grants_retry k op l \<longleftrightarrow>
     (case op of
        OpScheduleRetry d now \<Rightarrow> d = k \<and> fst (schedule_retry d now l) = Ok True
      | OpScheduleRetryIf d s now \<Rightarrow> d = k \<and> fst (schedule_retry_if_current d s now l) = Ok True
      | _ \<Rightarrow> False)"

fun granted_retries :: "string \<Rightarrow> LedgerOp list \<Rightarrow> DeliveryLedger \<Rightarrow> nat" where
  "granted_retries k [] l = 0"
| "granted_retries k (op # ops) l =
     (if grants_retry k op l then 1 else 0) + granted_retries k ops (apply_op op l)"

definition forgets :: "string \<Rightarrow> LedgerOp \<Rightarrow> bool" where
  "forgets k op \<longleftrightarrow> op = OpWipe \<or> (\<exists>s. op = OpDiscard k s)"

definition attempts_of :: "string \<Rightarrow> DeliveryLedger \<Rightarrow> nat" where
  "attempts_of k l = (case fmlookup l k of Some r \<Rightarrow> unat (rec_attempts r) | None \<Rightarrow> 0)"

lemma unat_byte_inc: "unat (sat_add (a::byte) 1) = (if a = - 1 then 255 else Suc (unat a))"
proof -
  have "unat a < 256" using unsigned_less [of a, where 'a = nat] by simp
  moreover have "a = - 1 \<longleftrightarrow> unat a = 255"
    using word_unat_eq_iff [of a "- 1"] unat_minus_one_word [where 'a = 8] by simp
  ultimately show ?thesis by (auto simp: word_arith)
qed

lemma schedule_retry_grants:
  assumes "fst (schedule_retry k now l) = Ok True"
  shows "attempts_of k (snd (schedule_retry k now l)) = Suc (attempts_of k l) \<and>
    Suc (attempts_of k l) \<le> 5"
proof -
  obtain r where r: "fmlookup l k = Some r" and a: "\<not> 5 < sat_add (rec_attempts r) 1"
    and s: "snd (schedule_retry k now l) = fmupd k (r \<lparr> rec_attempts := sat_add (rec_attempts r) 1,
        rec_state := Retryable,
        rec_next_retry_at := Some (sat_add now (retry_backoff (sat_add (rec_attempts r) 1))) \<rparr>) l"
    using assms by (auto simp: schedule_retry_def Let_def split: option.splits if_splits)
  have "unat (sat_add (rec_attempts r) 1) \<le> 5" using a by (simp add: word_less_nat_alt)
  then show ?thesis by (auto simp: attempts_of_def r s unat_byte_inc split: if_splits)
qed

lemma grants_retry_attempts:
  "grants_retry k op l \<Longrightarrow> attempts_of k (apply_op op l) = Suc (attempts_of k l) \<and>
     Suc (attempts_of k l) \<le> 5"
  using schedule_retry_grants [of k _ l]
  by (auto simp: grants_retry_def schedule_retry_if_current_def split: LedgerOp.splits option.splits if_splits)

lemma kept_record: "fmlookup l k = Some r \<Longrightarrow> \<not> forgets k op \<Longrightarrow> fmlookup (apply_op op l) k \<noteq> None"
  by (cases op)
     (auto simp: ledger_op_defs forgets_def Let_def split: option.splits if_splits)

lemma attempts_mono: "\<not> forgets k op \<Longrightarrow> attempts_of k l \<le> attempts_of k (apply_op op l)"
proof (cases "fmlookup l k")
  case (Some r)
  assume f: "\<not> forgets k op"
  obtain r' where r': "fmlookup (apply_op op l) k = Some r'" using kept_record [OF Some f] by auto
  have "rec_attempts r \<le> rec_attempts r'"
    using apply_op_record [OF r'] Some record_step_attempts by auto
  then show ?thesis by (simp add: attempts_of_def Some r' word_le_nat_alt)
qed (simp add: attempts_of_def)

lemma granted_retries_bound:
  "\<forall>op \<in> set ops. \<not> forgets k op \<Longrightarrow> granted_retries k ops l + min 5 (attempts_of k l) \<le> 5"
proof (induction ops arbitrary: l)
  case (Cons op ops)
  have ih: "granted_retries k ops (apply_op op l) + min 5 (attempts_of k (apply_op op l)) \<le> 5"
    using Cons by simp
  show ?case
    using ih grants_retry_attempts [of k op l] attempts_mono [of k op l] Cons.prems
    by (cases "grants_retry k op l") auto
qed simp

lemma retry_backoff_value: "1 \<le> n \<Longrightarrow> n \<le> 5 \<Longrightarrow> retry_backoff (of_nat n) = 5 * 2 ^ (n - 1)"
proof -
  assume "1 \<le> n" "n \<le> 5"
  then have "n \<in> {1, 2, 3, 4, 5}" by auto
  then show ?thesis
    by (elim insertE emptyE) (simp_all add: retry_backoff_def sat_mul_def sat_pow_def)
qed

text \<open>The record after \<open>n\<close> consecutive failed attempts at the times \<open>t 0, t 1, ...\<close>.\<close>

lemma schedule_retry_run:
  assumes "fmlookup l k = Some r" "rec_state r \<in> {Queued, Retryable}" "rec_attempts r = of_nat n" "n < 5"
  shows "schedule_retry k now l =
    (Ok True, fmupd k (r \<lparr> rec_attempts := of_nat (Suc n), rec_state := Retryable,
       rec_next_retry_at := Some (sat_add now (5 * 2 ^ n)) \<rparr>) l)"
proof -
  have n: "unat (of_nat n :: byte) = n" using assms(4) by (simp add: unat_of_nat)
  have a: "sat_add (of_nat n) 1 = (of_nat (Suc n) :: byte)"
    using assms(4) by (simp add: sat_add_def n)
  have "unat (of_nat (Suc n) :: byte) = Suc n"
    using assms(4) by (simp add: unat_of_nat del: of_nat_Suc)
  then have "\<not> 5 < (of_nat (Suc n) :: byte)"
    using assms(4) by (simp add: word_less_nat_alt del: of_nat_Suc)
  then show ?thesis
    using assms retry_backoff_value [of "Suc n"]
    by (simp add: schedule_retry_def a Let_def del: of_nat_Suc) auto
qed

section \<open>Persistence and the record store\<close>

lemma restore_persisted:
  assumes "ledger_persist to_json C io l s = (Ok (), s')" "\<And>bs. to_json l = Some bs \<Longrightarrow> of_json bs = Some l"
  shows "ledger_restore of_json s' =
    (if fcard (fmdom l) \<le> MAX_RECORDS \<and> fmpred valid_persisted_record l then Ok l else Err CorruptStore)"
proof -
  obtain bs where bs: "to_json l = Some bs" and p: "store_put C io ledger_key bs s = (Ok (), s')"
    using assms(1)
    by (cases "to_json l") (auto simp: ledger_persist_def encoded_bytes_def)
  have g: "store_get ledger_key s' = Some bs" by (rule es.get_put_ok [OF p])
  have "list_ex (\<lambda>(k, r). \<not> valid_persisted_record k r) (sorted_list_of_fmap l)
      \<longleftrightarrow> \<not> fmpred valid_persisted_record l"
    by (auto simp: list_ex_iff set_sorted_list_of_fmap fmpred_iff split: prod.splits) blast
  then show ?thesis
    using assms(2) [OF bs] by (auto simp: ledger_restore_def g)
qed

section \<open>Expiry\<close>

lemma expire_due_lookup:
  "fmlookup (snd (expire_due now l)) k =
     map_option (\<lambda>r. if expires_now now r
                 then r \<lparr> rec_state := Failed, rec_next_retry_at := None, rec_wire := None \<rparr> else r)
       (fmlookup l k)"
  by (simp add: expire_due_def)

lemma set_ledger_values: "r \<in> set (ledger_values l) \<longleftrightarrow> (\<exists>k. fmlookup l k = Some r)"
proof -
  have "r \<in> set (ledger_values l) \<longleftrightarrow> (\<exists>k. (k, r) \<in> set (sorted_list_of_fmap l))"
    by (force simp: ledger_values_def)
  then show ?thesis by (simp add: set_sorted_list_of_fmap)
qed

section \<open>Envelopes on the wire\<close>

lemma create_ok:
  assumes "create fp fi mailbox c e now = Ok env"
  obtains p i where "validate_mailbox mailbox = Ok ()" "c \<noteq> []" "length c \<le> MAX_CIPHERTEXT_BYTES"
    "now < e" "e \<le> sat_add now MAX_ENVELOPE_TTL_SECONDS"
    "fp (div_ceil (length c) BLOCK_SIZE * BLOCK_SIZE - length c) = Some p" "fi 16 = Some i"
    "env = \<lparr> env_version = VERSION, env_mailbox = mailbox, env_envelope_id = hex i,
       env_expires_at = of_nat (div_ceil (unat e) 300) * 300, env_ciphertext = c, env_padding = p \<rparr>"
  using assms
  by (auto simp: create_def Let_def EXPIRY_BUCKET_SECONDS_def not_le not_less split: if_splits)

lemma div_ceil_le: "0 < d \<Longrightarrow> n \<le> k * d \<Longrightarrow> div_ceil n d * d \<le> k * d"
proof -
  assume d: "0 < d" and n: "n \<le> k * d"
  have "div_ceil n d * d < n + d" by (rule div_ceil_bounds(2) [OF d])
  then have "div_ceil n d * d < (k + 1) * d" using n by (simp add: algebra_simps)
  then have "div_ceil n d < k + 1" using d by (metis mult_less_cancel2)
  then show ?thesis by simp
qed

lemma padded_length:
  assumes "length c \<le> MAX_CIPHERTEXT_BYTES" "length p = div_ceil (length c) BLOCK_SIZE * BLOCK_SIZE - length c"
  shows "length c + length p = div_ceil (length c) BLOCK_SIZE * BLOCK_SIZE"
    and "length c + length p \<le> MAX_CIPHERTEXT_BYTES"
proof -
  have "length c \<le> div_ceil (length c) BLOCK_SIZE * BLOCK_SIZE"
    by (rule div_ceil_bounds(1)) (simp add: BLOCK_SIZE_def)
  then show eq: "length c + length p = div_ceil (length c) BLOCK_SIZE * BLOCK_SIZE"
    using assms(2) by simp
  have "div_ceil (length c) BLOCK_SIZE * BLOCK_SIZE \<le> 384 * BLOCK_SIZE"
    by (rule div_ceil_le) (use assms(1) in \<open>simp_all add: BLOCK_SIZE_def MAX_CIPHERTEXT_BYTES_def\<close>)
  then show "length c + length p \<le> MAX_CIPHERTEXT_BYTES"
    unfolding eq by (simp add: BLOCK_SIZE_def MAX_CIPHERTEXT_BYTES_def)
qed

lemma expiry_bucket:
  assumes "unat (e::u64) \<le> 2 ^ 64 - 300"
  shows "unat (of_nat (div_ceil (unat e) 300) * 300 :: u64) = div_ceil (unat e) 300 * 300"
proof -
  have lt: "div_ceil (unat e) 300 * 300 < 2 ^ 64"
    using div_ceil_bounds(2) [of 300 "unat e"] assms by simp
  then have "unat (of_nat (div_ceil (unat e) 300) :: u64) = div_ceil (unat e) 300"
    by (simp add: unat_of_nat)
  then show ?thesis
    using lt unat_mult_lem [of "of_nat (div_ceil (unat e) 300) :: u64" 300] by simp
qed

definition wire_form :: "RelayEnvelope \<Rightarrow> WireEnvelope" where
  "wire_form env = \<lparr> wire_v = env_version env, wire_m = env_mailbox env, wire_i = env_envelope_id env,
     wire_e = env_expires_at env, wire_c = hex (env_ciphertext env), wire_p = hex (env_padding env) \<rparr>"

lemma to_wire_created:
  assumes "create fp fi mailbox c e now = Ok env"
    and "\<And>n b. fp n = Some b \<Longrightarrow> length b = n"
  shows "to_wire to_json env = ok_or (to_json (wire_form env)) InvalidWire"
proof -
  obtain p i where c: "length c \<le> MAX_CIPHERTEXT_BYTES"
    and p: "length p = div_ceil (length c) BLOCK_SIZE * BLOCK_SIZE - length c"
    and env: "env_version env = VERSION" "env_ciphertext env = c" "env_padding env = p"
    using assms by (elim create_ok) auto
  show ?thesis
    using padded_length(2) [OF c p] by (simp add: to_wire_def wire_form_def env)
qed

lemma created_padding:
  assumes "create fp fi mailbox c e now = Ok env" and fp: "\<And>n b. fp n = Some b \<Longrightarrow> length b = n"
  shows "(length (env_ciphertext env) + length (env_padding env)) mod 256 = 0"
proof -
  obtain p i where c: "length c \<le> MAX_CIPHERTEXT_BYTES"
    and p: "fp (div_ceil (length c) BLOCK_SIZE * BLOCK_SIZE - length c) = Some p"
    and env: "env_ciphertext env = c" "env_padding env = p"
    using assms(1) by (elim create_ok) simp
  show ?thesis unfolding env padded_length(1) [OF c fp [OF p]] by (simp add: BLOCK_SIZE_def)
qed

lemma from_wire_created:
  assumes env: "create fp fi mailbox c e now = Ok env"
    and fp: "\<And>n b. fp n = Some b \<Longrightarrow> length b = n" and fi: "\<And>n b. fi n = Some b \<Longrightarrow> length b = n"
    and json: "of_json wire = Some (wire_form env)"
  shows "from_wire of_json wire now' =
    (if env_expires_at env \<le> now' then Err Expired
     else if sat_add now' MAX_ENVELOPE_TTL_SECONDS < env_expires_at env then Err InvalidWire
     else Ok env)"
proof -
  obtain p i where m: "validate_mailbox mailbox = Ok ()" and c: "c \<noteq> []" "length c \<le> MAX_CIPHERTEXT_BYTES"
    and "now < e" "e \<le> sat_add now MAX_ENVELOPE_TTL_SECONDS"
    and fp_p: "fp (div_ceil (length c) BLOCK_SIZE * BLOCK_SIZE - length c) = Some p"
    and fi_i: "fi 16 = Some i"
    and e: "env = \<lparr> env_version = VERSION, env_mailbox = mailbox, env_envelope_id = hex i,
       env_expires_at = of_nat (div_ceil (unat e) 300) * 300, env_ciphertext = c, env_padding = p \<rparr>"
    using env by (rule create_ok)
  note p = fp [OF fp_p] and i = fi [OF fi_i]
  have "(length c + length p) mod BLOCK_SIZE = 0"
    by (simp add: padded_length(1) [OF c(2) p])
  then show ?thesis
    using c padded_length(2) [OF c(2) p] m i json
    by (simp add: from_wire_def wire_form_def e)
qed

section \<open>Properties\<close>

text \<open>C7. In every ledger reached from the empty one by any sequence of operations, each record is filed
  under its own non-empty digest, a retry time is set exactly in the retryable state, and a retryable
  record has used between one and five attempts.\<close>
theorem ledger_invariant: "fmpred record_inv (run_ops ops fmempty)"
  by (rule run_ops_inv) simp



text \<open>C6. Retrying ends: as long as a record is not discarded, at most five retries are ever granted for
  its digest, over any sequence of operations and from any ledger.\<close>
theorem retries_bounded:
  "\<forall>op \<in> set ops. \<not> forgets k op \<Longrightarrow> granted_retries k ops l \<le> 5"
  using granted_retries_bound [of ops k l] by simp

theorem retries_bounded_witness:
  "granted_retries ''d'' (OpRegisterQueued ''d'' None None None # replicate 9 (OpScheduleRetry ''d'' 7)) fmempty \<le> 5"
  by (rule retries_bounded) (auto simp: forgets_def)

text \<open>C13. The retry schedule: a queued or retryable record that has failed \<open>n < 5\<close> times is retried after
  5, 10, 20, 40 or 80 seconds, doubling each time, and is not due before; at the sixth failure it is
  given up.\<close>
theorem retry_schedule:
  assumes "fmlookup l k = Some r" "rec_state r \<in> {Queued, Retryable}" "rec_attempts r = of_nat n" "n \<le> 5"
  shows "schedule_retry k now l =
      (if n < 5
       then (Ok True, fmupd k (r \<lparr> rec_attempts := of_nat (n + 1), rec_state := Retryable,
               rec_next_retry_at := Some (sat_add now (5 * 2 ^ n)) \<rparr>) l)
       else (Ok False, fmupd k (r \<lparr> rec_attempts := 6, rec_state := Failed,
               rec_next_retry_at := None \<rparr>) l)) \<and>
    (\<forall>t r'. n < 5 \<longrightarrow> fmlookup (snd (schedule_retry k now l)) k = Some r' \<longrightarrow> is_due t r' \<longrightarrow>
       min (unat now + 5 * 2 ^ n) (2 ^ 64 - 1) \<le> unat t)"
proof (cases "n < 5")
  case True
  note eq = schedule_retry_run [OF assms(1-3) True, of now]
  have "unat (5 * 2 ^ n :: u64) = 5 * 2 ^ n"
  proof -
    have "n \<in> {0, 1, 2, 3, 4}" using True by auto
    then show ?thesis by (elim insertE emptyE) simp_all
  qed
  then show ?thesis using True by (auto simp: eq is_due_def word_le_nat_alt word_arith)
next
  case False
  then have "rec_attempts r = 5" using assms(3,4) by simp
  then have "schedule_retry k now l =
      (Ok False, fmupd k (r \<lparr> rec_attempts := 6, rec_state := Failed, rec_next_retry_at := None \<rparr>) l)"
    using assms(1,2) by (auto simp: schedule_retry_def sat_add_def)
  then show ?thesis using False by simp
qed

theorem retry_schedule_witness:
  "fst (schedule_retry ''d'' 100 (run_ops [OpRegisterQueued ''d'' None None None, OpScheduleRetry ''d'' 10] fmempty))
     = Ok True"
proof -
  let ?r = "fresh_record ''d'' Queued None None None None"
  let ?r1 = "?r \<lparr> rec_attempts := 1, rec_state := Retryable, rec_next_retry_at := Some 15 \<rparr>"
  let ?l = "run_ops [OpRegisterQueued ''d'' None None None, OpScheduleRetry ''d'' 10] fmempty"
  have "?l = fmupd ''d'' ?r1 fmempty"
    by (simp add: ledger_op_defs fresh_record_def retry_backoff_def sat_add_def sat_mul_def sat_pow_def)
  then have "fmlookup ?l ''d'' = Some ?r1" by simp
  from retry_schedule [OF this, of 1 100]
  show ?thesis by (auto simp: fresh_record_def)
qed


lemma demo_ledger_put:
  "fst (store_put tag_crypto (demo_commit Done) ledger_key [1] (demo_store, demo_disk)) = Ok ()"
  by (rule demo_store_put) (simp_all add: ledger_key_def wf_key_def ascii_defs MAX_VALUE_BYTES_def)


text \<open>Six failed attempts on a well-formed queued record make a ledger that can no longer be restored:
  the record is left with six attempts, which the check of persisted records refuses.\<close>
lemma exhausted_record_not_restorable:
  "\<not> fmpred valid_persisted_record
      (run_ops (OpRegisterQueued ''d'' (Some ''w'') None (Some ''u'') # replicate 6 (OpScheduleRetry ''d'' 0)) fmempty)"
proof -
  let ?r = "fresh_record ''d'' Queued None (Some ''w'') None (Some ''u'')"
  let ?R = "\<lambda>n t. ?r \<lparr> rec_attempts := n, rec_state := Retryable, rec_next_retry_at := t \<rparr>"
  have inc: "sat_add (0::byte) 1 = 1" "sat_add (1::byte) 1 = 2" "sat_add (2::byte) 1 = 3"
    "sat_add (3::byte) 1 = 4" "sat_add (4::byte) 1 = 5" "sat_add (5::byte) 1 = 6"
    by (simp_all add: sat_add_def)
  have six: "replicate 6 x = [x, x, x, x, x, x]" for x :: LedgerOp
    by (simp add: numeral_eq_Suc)
  have first: "apply_op (OpScheduleRetry ''d'' 0) (fmupd ''d'' ?r fmempty) =
      fmupd ''d'' (?R 1 (Some (sat_add 0 (retry_backoff 1)))) fmempty"
    by (simp add: schedule_retry_def fresh_record_def inc Let_def)
  have step: "apply_op (OpScheduleRetry ''d'' 0) (fmupd ''d'' (?R n t) fmempty) =
      (if n < 5 then fmupd ''d'' (?R (n + 1) (Some (sat_add 0 (retry_backoff (n + 1))))) fmempty
       else fmupd ''d'' (?r \<lparr> rec_attempts := 6, rec_state := Failed, rec_next_retry_at := None \<rparr>) fmempty)"
    if "n \<in> {1, 2, 3, 4, 5}" for n t
    using that by (elim insertE emptyE) (simp_all add: schedule_retry_def fresh_record_def inc Let_def)
  have "run_ops (OpRegisterQueued ''d'' (Some ''w'') None (Some ''u'') # replicate 6 (OpScheduleRetry ''d'' 0)) fmempty
      = fmupd ''d'' (?r \<lparr> rec_attempts := 6, rec_state := Failed, rec_next_retry_at := None \<rparr>) fmempty"
    unfolding six using first step
    by (simp add: register_queued_with_destination_def del: apply_op.simps(12))
  then show ?thesis
    by (auto simp: valid_persisted_record_def dest!: fmpred_updD)
qed

text \<open>Expiry is complete and final for the moment: after expiring at \<open>now\<close>, every record whose expiry
  has passed and that was neither decrypted nor cancelled is failed and has lost its stored wire text,
  all other records are untouched, the reported number is the number of records that qualified, and no
  expired record can be picked for a retry.\<close>
theorem expire_due_complete:
  "(case fmlookup l k of
      None \<Rightarrow> fmlookup (snd (expire_due now l)) k = None
    | Some r \<Rightarrow> \<exists>r'. fmlookup (snd (expire_due now l)) k = Some r' \<and>
        (if expires_now now r
         then rec_state r' = Failed \<and> rec_wire r' = None \<and> rec_next_retry_at r' = None \<and>
              rec_destination r' = rec_destination r \<and> rec_relay_id r' = rec_relay_id r
         else r' = r)) \<and>
   fst (expire_due now l) = length (filter (expires_now now) (ledger_values l)) \<and>
   (\<forall>r t e. r \<in> set (due_retries t (snd (expire_due now l))) \<longrightarrow> rec_expires_at r = Some e \<longrightarrow> now < e)"
proof (intro conjI)
  show "case fmlookup l k of
      None \<Rightarrow> fmlookup (snd (expire_due now l)) k = None
    | Some r \<Rightarrow> \<exists>r'. fmlookup (snd (expire_due now l)) k = Some r' \<and>
        (if expires_now now r
         then rec_state r' = Failed \<and> rec_wire r' = None \<and> rec_next_retry_at r' = None \<and>
              rec_destination r' = rec_destination r \<and> rec_relay_id r' = rec_relay_id r
         else r' = r)"
    by (cases "fmlookup l k"; cases "expires_now now (the (fmlookup l k))")
       (auto simp: expire_due_lookup)
  show "fst (expire_due now l) = length (filter (expires_now now) (ledger_values l))"
    by (simp add: expire_due_def)
  show "\<forall>r t e. r \<in> set (due_retries t (snd (expire_due now l))) \<longrightarrow> rec_expires_at r = Some e \<longrightarrow> now < e"
  proof (intro allI impI)
    fix r t e
    assume "r \<in> set (due_retries t (snd (expire_due now l)))" and e: "rec_expires_at r = Some e"
    then obtain r0 where "r = (if expires_now now r0
        then r0 \<lparr> rec_state := Failed, rec_next_retry_at := None, rec_wire := None \<rparr> else r0)"
      and "is_due t r"
      by (auto simp: due_retries_def set_ledger_values expire_due_lookup)
    then show "now < e"
      using e by (cases "expires_now now r0") (auto simp: is_due_def expires_now_def)
  qed
qed

text \<open>The witness expires the only record of a ledger.\<close>
theorem expire_due_complete_witness:
  "\<exists>r'. fmlookup (snd (expire_due 50 (run_ops [OpRegisterQueued ''d'' (Some ''w'') (Some 40) None] fmempty))) ''d''
     = Some r' \<and> rec_state r' = Failed \<and> rec_wire r' = None"
  using expire_due_complete [where k = "''d''" and now = 50 and
      l = "run_ops [OpRegisterQueued ''d'' (Some ''w'') (Some 40) None] fmempty"]
  by (auto simp: register_queued_with_destination_def fresh_record_def expires_now_def)

text \<open>A relay's acceptance is applied by compare-and-swap: the record becomes accepted exactly when its
  state is still the one observed before the request, or it was cancelled meanwhile; otherwise the
  ledger does not change.  A stale failure, in contrast, never touches a record that has moved on.\<close>
theorem accept_retry_compare_and_swap:
  assumes "fmlookup l k = Some r"
  shows "accept_retry k expected relay l =
      (if rec_state r \<in> {expected, Cancelled}
       then (Ok True, fmupd k (r \<lparr> rec_relay_id := Some relay, rec_state := RelayAccepted,
                                   rec_next_retry_at := None \<rparr>) l)
       else (Ok False, l)) \<and>
    (rec_state r \<noteq> expected \<longrightarrow>
       schedule_retry_if_current k expected now l = (Ok False, l) \<and>
       mark_failed_if_current k expected l = (Ok False, l))"
  using assms by (auto simp: accept_retry_def schedule_retry_if_current_def mark_failed_if_current_def)

theorem accept_retry_compare_and_swap_witness:
  "accept_retry ''d'' Queued ''relay'' (fmupd ''d'' (fresh_record ''d'' Cancelled None None None None) fmempty)
     = (Ok True, fmupd ''d'' (fresh_record ''d'' RelayAccepted (Some ''relay'') None None None) fmempty)"
  using accept_retry_compare_and_swap
    [of "fmupd ''d'' (fresh_record ''d'' Cancelled None None None None) fmempty" "''d''" _ Queued "''relay''" 0]
  by (simp add: fresh_record_def)

text \<open>C11. Envelopes survive the wire: a created envelope is padded to a multiple of 256 bytes, and parsing
  its wire text gives the envelope back unchanged at every later moment at which it is neither expired
  nor more than seven days ahead; outside this window the parser refuses it with the matching error.\<close>
theorem envelope_round_trip:
  assumes "create fp fi mailbox c e now = Ok env"
    and "\<And>n b. fp n = Some b \<Longrightarrow> length b = n" "\<And>n b. fi n = Some b \<Longrightarrow> length b = n"
    and "to_json (wire_form env) = Some wire" "of_json wire = Some (wire_form env)"
  shows "to_wire to_json env = Ok wire \<and>
    (length (env_ciphertext env) + length (env_padding env)) mod 256 = 0 \<and>
    from_wire of_json wire now' =
      (if env_expires_at env \<le> now' then Err Expired
       else if sat_add now' 604800 < env_expires_at env then Err InvalidWire
       else Ok env)"
proof -
  show ?thesis
    using created_padding [OF assms(1,2)] to_wire_created [OF assms(1,2), of to_json] assms(4)
      from_wire_created [where of_json = of_json and wire = wire, OF assms(1-3,5), of now']
    by (simp add: MAX_ENVELOPE_TTL_SECONDS_def)
qed

text \<open>The witness sends two bytes to mailbox \<open>m\<close>; the wire text is a stand-in.\<close>
theorem envelope_round_trip_witness:
  "\<exists>env. create (\<lambda>n. Some (replicate n 0)) (\<lambda>n. Some (replicate n 5)) ''m'' [1, 2] 601 1 = Ok env
     \<and> from_wire (\<lambda>_. Some (wire_form env)) ''json'' 2 = Ok env"
proof -
  let ?fp = "\<lambda>n. Some (replicate n (0::byte))" and ?fi = "\<lambda>n. Some (replicate n (5::byte))"
  let ?c = "create ?fp ?fi ''m'' [1, 2] 601 1"
  have "is_ok ?c"
    by (simp add: create_def validate_mailbox_def delivery_consts ascii_defs sat_add_def Let_def
        word_le_nat_alt word_less_nat_alt)
  then obtain env where env: "?c = Ok env" by (auto simp: is_ok_iff)
  have e: "env_expires_at env = 900"
    using env by (elim create_ok) (simp add: div_ceil_def)
  show ?thesis
    using envelope_round_trip [OF env, of "\<lambda>_. Some ''json''" "''json''" "\<lambda>_. Some (wire_form env)" 2] env e
    by (simp add: sat_add_def)
qed

text \<open>The expiry is rounded up after it was checked, so an envelope created with the full lifetime of
  seven days is refused by the parser at the moment of its creation.\<close>
lemma full_lifetime_envelope_refused:
  assumes "create fp fi mailbox c (now + 604800) now = Ok env"
    and "\<And>n b. fp n = Some b \<Longrightarrow> length b = n" "\<And>n b. fi n = Some b \<Longrightarrow> length b = n"
    and "of_json wire = Some (wire_form env)"
    and "unat now + 605100 < 2 ^ 64" "(unat now + 604800) mod 300 \<noteq> 0"
  shows "from_wire of_json wire now = Err InvalidWire"
proof -
  have e: "unat (now + 604800) = unat now + 604800"
    using assms(5) unat_add_lem [of now 604800] by simp
  have "env_expires_at env = of_nat (div_ceil (unat now + 604800) 300) * 300"
    using assms(1) e by (elim create_ok) simp
  then have x: "unat (env_expires_at env) = div_ceil (unat now + 604800) 300 * 300"
    using expiry_bucket [of "now + 604800"] assms(5) e by simp
  have "unat now + 604800 < div_ceil (unat now + 604800) 300 * 300"
    using div_ceil_bounds(1) [of 300 "unat now + 604800"] assms(6)
    by (metis le_neq_implies_less mod_mult_self2_is_0 zero_less_numeral)
  then have "sat_add now 604800 < env_expires_at env" "now < env_expires_at env"
    using assms(5) by (simp_all add: word_less_nat_alt x word_arith)
  then show ?thesis
    using from_wire_created [where of_json = of_json and wire = wire, OF assms(1-4), of now] by (auto simp: MAX_ENVELOPE_TTL_SECONDS_def)
qed

end
