(* ===== verification/AD_Text.thy ===== *)
theory AD_Text
  imports AD_Bytes
begin

text \<open>
  Text operations of the Rust standard library that the invite, pairing and identity code uses
  (\<^verbatim>\<open>split\<close>, \<^verbatim>\<open>split_once\<close>, \<^verbatim>\<open>starts_with\<close>, \<^verbatim>\<open>strip_prefix\<close>, \<^verbatim>\<open>to_uppercase\<close>), and the signature and hash
  primitives, which come from third-party crates and are arguments of the definitions.

  The Unicode table for upper-case letters outside ASCII is an argument as well; all codes the daemon
  itself makes are ASCII.
\<close>

section \<open>Splitting and joining\<close>

fun split_on :: "char \<Rightarrow> string \<Rightarrow> string list" where
  "split_on c [] = [[]]"
| "split_on c (x # xs) =
     (if x = c then [] # split_on c xs
      else case split_on c xs of [] \<Rightarrow> [[x]] | y # ys \<Rightarrow> (x # y) # ys)"

fun join_with :: "char \<Rightarrow> string list \<Rightarrow> string" where
  "join_with c [] = []"
| "join_with c [s] = s"
| "join_with c (s # t # ts) = s @ c # join_with c (t # ts)"

definition starts_with :: "string \<Rightarrow> string \<Rightarrow> bool" where
  "starts_with s p \<longleftrightarrow> take (length p) s = p"

definition strip_prefix :: "string \<Rightarrow> string \<Rightarrow> string option" where
  "strip_prefix s p = (if starts_with s p then Some (drop (length p) s) else None)"

text \<open>\<^verbatim>\<open>split_once\<close>: the parts before and after the first occurrence of the separator.\<close>

fun split_once :: "string \<Rightarrow> string \<Rightarrow> (string \<times> string) option" where
  "split_once sep [] = (if sep = [] then Some ([], []) else None)"
| "split_once sep (x # xs) =
     (if starts_with (x # xs) sep then Some ([], drop (length sep) (x # xs))
      else map_option (\<lambda>(a, b). (x # a, b)) (split_once sep xs))"

lemma split_on_nonempty [simp]: "split_on c s \<noteq> []"
  by (induction s) (auto split: list.split)

lemma split_on_no_sep: "c \<notin> set s \<Longrightarrow> split_on c s = [s]"
  by (induction s) auto

lemma split_on_append_sep: "c \<notin> set s \<Longrightarrow> split_on c (s @ c # t) = s # split_on c t"
  by (induction s) auto

lemma split_join:
  "ss \<noteq> [] \<Longrightarrow> \<forall>s \<in> set ss. c \<notin> set s \<Longrightarrow> split_on c (join_with c ss) = ss"
  by (induction c ss rule: join_with.induct) (simp_all add: split_on_no_sep split_on_append_sep)

lemma join_split: "join_with c (split_on c s) = s"
proof (induction s)
  case (Cons x xs)
  obtain y ys where "split_on c xs = y # ys" by (cases "split_on c xs") auto
  then show ?case using Cons by (cases ys) auto
qed simp

lemma split_on_pieces: "p \<in> set (split_on c s) \<Longrightarrow> c \<notin> set p"
proof (induction s arbitrary: p)
  case (Cons x xs)
  obtain y ys where "split_on c xs = y # ys" by (cases "split_on c xs") auto
  then show ?case using Cons by (auto split: if_splits)
qed simp

lemma starts_with_append [simp]: "starts_with (p @ s) p"
  by (simp add: starts_with_def)

lemma strip_prefix_append [simp]: "strip_prefix (p @ s) p = Some s"
  by (simp add: strip_prefix_def)

lemma strip_prefix_Some: "strip_prefix s p = Some t \<longleftrightarrow> s = p @ t"
  unfolding strip_prefix_def starts_with_def
  by (auto split: if_splits) (metis append_take_drop_id)

interpretation dotted: codec "join_with CHR ''.''" "\<lambda>s. Some (split_on CHR ''.'' s)"
    "\<lambda>ss. ss \<noteq> [] \<and> (\<forall>s \<in> set ss. CHR ''.'' \<notin> set s)"
  by unfold_locales (simp add: split_join)

section \<open>Upper case\<close>

definition utf8_encode_char :: "nat \<Rightarrow> string" where
  "utf8_encode_char n =
     (if n < 128 then [char_of n]
      else if n < 2048 then [char_of (192 + n div 64), char_of (128 + n mod 64)]
      else if n < 65536
      then [char_of (224 + n div 4096), char_of (128 + n div 64 mod 64), char_of (128 + n mod 64)]
      else [char_of (240 + n div 262144), char_of (128 + n div 4096 mod 64),
            char_of (128 + n div 64 mod 64), char_of (128 + n mod 64)])"

lemma char_of_codeI: "n = code c \<Longrightarrow> char_of n = c"
  by simp

lemma digit64: "z < 64 \<Longrightarrow> (m * 64 + z) div 64 = m" "z < 64 \<Longrightarrow> (m * 64 + z) mod 64 = (z :: nat)"
  by simp_all

lemma utf8_encode_1: "code c < 128 \<Longrightarrow> utf8_encode_char (code c) = [c]"
  by (simp add: utf8_encode_char_def)

lemma utf8_encode_2:
  assumes "194 \<le> code c" "code c \<le> 223" "utf8_cont c1"
  shows "utf8_encode_char ((code c - 192) * 64 + (code c1 - 128)) = [c, c1]"
proof -
  define x y where "x = code c - 192" and "y = code c1 - 128"
  have "2 \<le> x" "x < 32" "y < 64" "code c = 192 + x" "code c1 = 128 + y"
    using assms by (auto simp: x_def y_def utf8_cont_def)
  then show ?thesis
    unfolding x_def [symmetric] y_def [symmetric] by (auto simp: utf8_encode_char_def intro!: char_of_codeI)
qed

lemma utf8_encode_3:
  assumes "224 \<le> code c" "code c \<le> 239" "utf8_second (code c) c1" "utf8_cont c2"
  shows "utf8_encode_char ((code c - 224) * 4096 + (code c1 - 128) * 64 + (code c2 - 128)) = [c, c1, c2]"
proof -
  define x y z where "x = code c - 224" and "y = code c1 - 128" and "z = code c2 - 128"
  have xyz: "x < 16" "y < 64" "z < 64" "code c = 224 + x" "code c1 = 128 + y" "code c2 = 128 + z"
      "x = 0 \<longrightarrow> 32 \<le> y"
    using assms by (auto simp: x_def y_def z_def utf8_cont_def utf8_second_def)
  define n where "n = x * 4096 + y * 64 + z"
  have "2048 \<le> n" using xyz by (cases "x = 0") (auto simp: n_def)
  moreover have "n = (x * 64 + y) * 64 + z" by (simp add: n_def algebra_simps)
  then have "n div 64 = x * 64 + y" "n mod 64 = z"
    using digit64 [OF xyz(3), of "x * 64 + y"] by (simp_all only:)
  moreover from this have "n div 64 mod 64 = y" "n div 4096 = x"
    using xyz div_mult2_eq [of n 64 64] by simp_all
  moreover have "n < 65536" using xyz by (simp add: n_def)
  ultimately show ?thesis
    using xyz unfolding x_def [symmetric] y_def [symmetric] z_def [symmetric] n_def [symmetric]
    by (auto simp: utf8_encode_char_def intro!: char_of_codeI)
qed

lemma utf8_encode_4:
  assumes "240 \<le> code c" "code c \<le> 244" "utf8_second (code c) c1" "utf8_cont c2" "utf8_cont c3"
  shows "utf8_encode_char ((code c - 240) * 262144 + (code c1 - 128) * 4096 + (code c2 - 128) * 64
    + (code c3 - 128)) = [c, c1, c2, c3]"
proof -
  define x y z w where "x = code c - 240" and "y = code c1 - 128" and "z = code c2 - 128" and "w = code c3 - 128"
  have b: "x < 8" "y < 64" "z < 64" "w < 64" "code c = 240 + x" "code c1 = 128 + y" "code c2 = 128 + z"
      "code c3 = 128 + w" "x = 0 \<longrightarrow> 16 \<le> y"
    using assms by (auto simp: x_def y_def z_def w_def utf8_cont_def utf8_second_def)
  define n where "n = x * 262144 + y * 4096 + z * 64 + w"
  have "65536 \<le> n" using b by (cases "x = 0") (auto simp: n_def)
  moreover have "n = ((x * 64 + y) * 64 + z) * 64 + w" by (simp add: n_def algebra_simps)
  then have "n div 64 = (x * 64 + y) * 64 + z" "n mod 64 = w"
    using digit64 [OF b(4), of "(x * 64 + y) * 64 + z"] by (simp_all only:)
  moreover from this have "n div 64 mod 64 = z" "n div 4096 = x * 64 + y"
    using digit64 [OF b(3), of "x * 64 + y"] div_mult2_eq [of n 64 64] by simp_all
  moreover from this have "n div 4096 mod 64 = y" "n div 262144 = x"
    using b div_mult2_eq [of n 4096 64] by simp_all
  ultimately show ?thesis
    using b unfolding x_def [symmetric] y_def [symmetric] z_def [symmetric] w_def [symmetric] n_def [symmetric]
    by (auto simp: utf8_encode_char_def intro!: char_of_codeI)
qed

text \<open>Decoding reads one encoded character at a time.\<close>

lemma utf8_head:
  assumes "utf8_decode s = Some (n # cs)"
  shows "\<exists>t. s = utf8_encode_char n @ t \<and> utf8_decode t = Some cs
    \<and> (\<forall>u. utf8_decode (utf8_encode_char n @ u) = map_option ((#) n) (utf8_decode u))"
proof (cases s)
  case (Cons c r)
  consider "code c < 128" | "194 \<le> code c \<and> code c \<le> 223" | "224 \<le> code c \<and> code c \<le> 239"
    | "240 \<le> code c \<and> code c \<le> 244"
    using assms Cons by (auto split: if_splits)
  then show ?thesis
  proof cases
    case 1
    then show ?thesis using assms Cons by (auto simp: utf8_encode_1)
  next
    case 2
    with assms Cons obtain c1 t where "r = c1 # t" "utf8_cont c1"
      by (auto split: list.splits if_splits)
    with 2 assms Cons show ?thesis by (auto simp: utf8_encode_2)
  next
    case 3
    with assms Cons obtain c1 c2 t where "r = c1 # c2 # t" "utf8_second (code c) c1" "utf8_cont c2"
      by (auto split: list.splits if_splits)
    with 3 assms Cons show ?thesis by (auto simp: utf8_encode_3)
  next
    case 4
    with assms Cons obtain c1 c2 c3 t where "r = c1 # c2 # c3 # t" "utf8_second (code c) c1" "utf8_cont c2"
        "utf8_cont c3"
      by (auto split: list.splits if_splits)
    with 4 assms Cons show ?thesis by (auto simp: utf8_encode_4)
  qed
qed (use assms in simp)

abbreviation utf8_encode :: "nat list \<Rightarrow> string" where
  "utf8_encode cs \<equiv> concat (map utf8_encode_char cs)"

lemma utf8_decode_append:
  assumes "utf8_decode s = Some (xs @ ys)"
  shows "\<exists>t. s = utf8_encode xs @ t \<and> utf8_decode t = Some ys \<and> utf8_decode (utf8_encode xs) = Some xs"
  using assms
proof (induction xs arbitrary: s)
  case (Cons x xs)
  then obtain t where t: "s = utf8_encode_char x @ t" "utf8_decode t = Some (xs @ ys)"
    "\<And>u. utf8_decode (utf8_encode_char x @ u) = map_option ((#) x) (utf8_decode u)"
    using utf8_head [of s x "xs @ ys"] by auto
  with Cons.IH [OF t(2)] show ?case by auto
qed simp

lemma utf8_decode_middle:
  assumes "utf8_decode s = Some (xs @ ys @ zs)"
  shows "utf8_decode (utf8_encode ys) = Some ys \<and> length (utf8_encode ys) \<le> length s"
proof -
  obtain t where t: "s = utf8_encode xs @ t" "utf8_decode t = Some (ys @ zs)"
    using utf8_decode_append [OF assms] by blast
  obtain u where "t = utf8_encode ys @ u" "utf8_decode (utf8_encode ys) = Some ys"
    using utf8_decode_append [OF t(2)] by blast
  with t show ?thesis by simp
qed

lemma utf8_decode_Nil: "utf8_decode s = Some [] \<Longrightarrow> s = []"
  by (cases s) (auto split: if_splits list.splits)

lemma utf8_encode_decode: "utf8_decode s = Some cs \<Longrightarrow> utf8_encode cs = s"
  using utf8_decode_append [of s cs "[]"] utf8_decode_Nil by fastforce

definition upper_char :: "(nat \<Rightarrow> nat list) \<Rightarrow> nat \<Rightarrow> nat list" where
  "upper_char table n =
     (if 97 \<le> n \<and> n \<le> 122 then [n - 32] else if n < 128 then [n] else table n)"

text \<open>Dropping the dashes of a code and mapping it to upper case, character by character.\<close>

definition normalize_code :: "(nat \<Rightarrow> nat list) \<Rightarrow> string \<Rightarrow> string" where
  "normalize_code table s =
     (case utf8_decode (filter (\<lambda>c. c \<noteq> CHR ''-'') s) of
        None \<Rightarrow> []
      | Some cs \<Rightarrow> concat (map utf8_encode_char (concat (map (upper_char table) cs))))"

definition ascii_upper :: "char \<Rightarrow> char" where
  "ascii_upper c = (if is_ascii_lower c then char_of (code c - 32) else c)"

definition to_ascii_uppercase :: "string \<Rightarrow> string" where
  "to_ascii_uppercase s = map ascii_upper s"

lemma char_of_code [simp]: "char_of (code c) = c"
  by simp

lemma upper_ascii_char:
  "is_ascii c \<Longrightarrow> concat (map utf8_encode_char (upper_char table (code c))) = [ascii_upper c]"
  by (auto simp: upper_char_def utf8_encode_char_def ascii_upper_def ascii_defs)

lemma normalize_code_ascii:
  assumes "list_all is_ascii s"
  shows "normalize_code table s = to_ascii_uppercase (filter (\<lambda>c. c \<noteq> CHR ''-'') s)"
proof -
  have "concat (map utf8_encode_char (concat (map (upper_char table) (map code t)))) = map ascii_upper t"
    if "list_all is_ascii t" for t
    using that by (induction t) (simp_all add: upper_ascii_char)
  moreover have "list_all is_ascii (filter (\<lambda>c. c \<noteq> CHR ''-'') s)"
    using assms by (simp add: list_all_iff)
  ultimately show ?thesis
    by (simp add: normalize_code_def utf8_decode_ascii to_ascii_uppercase_def)
qed

lemma ascii_upper_hexdigit:
  assumes "is_ascii_hexdigit c"
  shows "is_ascii_hexdigit (ascii_upper c)" "hex_value (ascii_upper c) = hex_value c"
    "ascii_upper (ascii_upper c) = ascii_upper c" "is_ascii c" "is_ascii (ascii_upper c)"
    "\<not> is_whitespace (code (ascii_upper c))" "ascii_upper c \<noteq> CHR ''-''"
proof -
  have "code (ascii_upper c) \<noteq> code CHR ''-''"
    using assms by (auto simp: ascii_upper_def ascii_defs)
  then show "ascii_upper c \<noteq> CHR ''-''" by metis
qed (use assms in \<open>auto simp: ascii_upper_def ascii_defs hex_value_def is_whitespace_def\<close>)

section \<open>Signatures and hashes\<close>

text \<open>Ed25519 as the daemon and the relay use it: parsing a public key may fail, and both the plain and
  the strict verification are called.\<close>

record ed25519 =
  ed_public :: "bytes \<Rightarrow> bytes"
  ed_sign :: "bytes \<Rightarrow> bytes \<Rightarrow> bytes"
  ed_key_ok :: "bytes \<Rightarrow> bool"
  ed_verify :: "bytes \<Rightarrow> bytes \<Rightarrow> bytes \<Rightarrow> bool"
  ed_verify_strict :: "bytes \<Rightarrow> bytes \<Rightarrow> bytes \<Rightarrow> bool"

text \<open>The documented behaviour of the crate: derived public keys are valid, keys and signatures have
  fixed lengths, and a signature verifies under the public key of its signer.\<close>

definition ed_correct :: "ed25519 \<Rightarrow> bool" where
  "ed_correct E \<longleftrightarrow> (\<forall>sk m. length (ed_public E sk) = 32 \<and> ed_key_ok E (ed_public E sk) \<and>
     length (ed_sign E sk m) = 64 \<and> ed_verify E (ed_public E sk) m (ed_sign E sk m) \<and>
     ed_verify_strict E (ed_public E sk) m (ed_sign E sk m))"

definition sha_sized :: "(bytes \<Rightarrow> bytes) \<Rightarrow> bool" where
  "sha_sized sha \<longleftrightarrow> (\<forall>m. length (sha m) = 32)"

text \<open>Stand-ins for evaluating statements on concrete values.\<close>

definition fit :: "nat \<Rightarrow> bytes \<Rightarrow> bytes" where
  "fit n bs = take n (bs @ replicate n 0)"

lemma length_fit [simp]: "length (fit n bs) = n"
  by (simp add: fit_def)

lemma fit_id [simp]: "length bs = n \<Longrightarrow> fit n bs = bs"
  by (simp add: fit_def)

lemma hex_inject [simp]: "hex bs = hex cs \<longleftrightarrow> bs = cs"
  by (metis decode_hex_hex option.inject)

definition demo_ed :: ed25519 where
  "demo_ed = \<lparr> ed_public = fit 32, ed_sign = (\<lambda>sk m. fit 64 (m @ fit 32 sk)),
     ed_key_ok = (\<lambda>k. length k = 32),
     ed_verify = (\<lambda>k m s. s = fit 64 (m @ k)), ed_verify_strict = (\<lambda>k m s. s = fit 64 (m @ k)) \<rparr>"

lemma demo_ed_correct: "ed_correct demo_ed"
  by (simp add: ed_correct_def demo_ed_def)

lemma demo_sha_sized: "sha_sized (fit 32)"
  by (simp add: sha_sized_def)

section \<open>Hexadecimal read by slices\<close>

text \<open>Decoding by slices of two bytes: a slice that cuts a character panics, and \<^verbatim>\<open>from_str_radix\<close> takes a
  leading plus sign.\<close>

datatype 'a run = Panics | Returns 'a

definition radix16_pair :: "char \<Rightarrow> char \<Rightarrow> nat option" where
  "radix16_pair a b =
     (if a = CHR ''+'' then hex_value b
      else case (hex_value a, hex_value b) of
        (Some x, Some y) \<Rightarrow> Some (16 * x + y)
      | _ \<Rightarrow> None)"

fun hex_pairs :: "string \<Rightarrow> bytes option run" where
  "hex_pairs (a # b # s) =
     (if utf8_cont a \<or> (case s of [] \<Rightarrow> False | c # _ \<Rightarrow> utf8_cont c) then Panics
      else case radix16_pair a b of
        None \<Rightarrow> Returns None
      | Some n \<Rightarrow> (case hex_pairs s of
            Panics \<Rightarrow> Panics
          | Returns r \<Rightarrow> Returns (map_option (\<lambda>bs. of_nat n # bs) r)))"
| "hex_pairs _ = Returns (Some [])"

lemma ascii_not_cont: "is_ascii_hexdigit c \<Longrightarrow> \<not> utf8_cont c \<and> c \<noteq> CHR ''+''"
  by (auto simp: ascii_defs utf8_cont_def)

lemma hex_pairs_hex: "hex_pairs (hex bs) = Returns (Some bs)"
proof (induction bs)
  case (Cons b bs)
  have d: "is_ascii_hexdigit (hex_digit (unat b div 16))" by (simp add: byte_nibbles)
  have "\<not> (case hex bs of [] \<Rightarrow> False | c # _ \<Rightarrow> utf8_cont c)"
  proof (cases "hex bs")
    case (Cons c s)
    then have "is_ascii_hexdigit c" using hex_all_hexdigits [of bs] by (metis list.pred_inject(2))
    then show ?thesis using Cons ascii_not_cont by simp
  qed simp
  then show ?case
    using Cons ascii_not_cont [OF d] by (simp add: radix16_pair_def byte_nibbles)
qed simp

section \<open>Lossy decoding and words\<close>

text \<open>\<^verbatim>\<open>String::from_utf8_lossy\<close>: every maximal start of an ill-formed sequence becomes the
  replacement character.\<close>

definition REPLACEMENT :: nat where "REPLACEMENT = 65533"

fun utf8_lossy :: "string \<Rightarrow> nat list" where
  "utf8_lossy [] = []"
| "utf8_lossy (c # s) =
     (if code c < 128 then code c # utf8_lossy s
      else if 194 \<le> code c \<and> code c \<le> 223 then
        (case s of
           [] \<Rightarrow> [REPLACEMENT]
         | c1 # s1 \<Rightarrow>
             if utf8_cont c1 then ((code c - 192) * 64 + (code c1 - 128)) # utf8_lossy s1
             else REPLACEMENT # utf8_lossy s)
      else if 224 \<le> code c \<and> code c \<le> 239 then
        (case s of
           [] \<Rightarrow> [REPLACEMENT]
         | c1 # s1 \<Rightarrow>
             if \<not> utf8_second (code c) c1 then REPLACEMENT # utf8_lossy s
             else (case s1 of
                [] \<Rightarrow> [REPLACEMENT]
              | c2 # s2 \<Rightarrow>
                  if utf8_cont c2
                  then ((code c - 224) * 4096 + (code c1 - 128) * 64 + (code c2 - 128)) # utf8_lossy s2
                  else REPLACEMENT # utf8_lossy s1))
      else if 240 \<le> code c \<and> code c \<le> 244 then
        (case s of
           [] \<Rightarrow> [REPLACEMENT]
         | c1 # s1 \<Rightarrow>
             if \<not> utf8_second (code c) c1 then REPLACEMENT # utf8_lossy s
             else (case s1 of
                [] \<Rightarrow> [REPLACEMENT]
              | c2 # s2 \<Rightarrow>
                  if \<not> utf8_cont c2 then REPLACEMENT # utf8_lossy s1
                  else (case s2 of
                     [] \<Rightarrow> [REPLACEMENT]
                   | c3 # s3 \<Rightarrow>
                       if utf8_cont c3
                       then ((code c - 240) * 262144 + (code c1 - 128) * 4096
                             + (code c2 - 128) * 64 + (code c3 - 128)) # utf8_lossy s3
                       else REPLACEMENT # utf8_lossy s2)))
      else REPLACEMENT # utf8_lossy s)"

declare utf8_lossy.simps(2) [simp del]

lemma utf8_lossy_valid: "utf8_decode s = Some cs \<Longrightarrow> utf8_lossy s = cs"
proof (induction s arbitrary: cs rule: utf8_decode.induct)
  case (2 c s)
  show ?case
    using 2 by (subst utf8_lossy.simps(2)) (auto split: if_splits list.splits)
qed simp

text \<open>\<^verbatim>\<open>str::split_whitespace\<close> and \<^verbatim>\<open>join(" ")\<close>, on characters.\<close>

lemma dropWhile_shorter [termination_simp]: "length (dropWhile P xs) < Suc (length xs)"
  by (simp add: le_imp_less_Suc length_dropWhile_le)

fun split_whitespace :: "nat list \<Rightarrow> nat list list" where
  "split_whitespace [] = []"
| "split_whitespace (c # cs) =
     (if is_whitespace c then split_whitespace cs
      else (c # takeWhile (\<lambda>d. \<not> is_whitespace d) cs)
             # split_whitespace (dropWhile (\<lambda>d. \<not> is_whitespace d) cs))"

fun join_words :: "nat list list \<Rightarrow> nat list" where
  "join_words [] = []"
| "join_words [w] = w"
| "join_words (w # v # ws) = w @ 32 # join_words (v # ws)"

lemma utf8_encode_length: "length (concat (map utf8_encode_char cs)) \<le> 4 * length cs"
  by (induction cs) (auto simp: utf8_encode_char_def)

end
