(* ===== verification/Identity.thy ===== *)
theory Identity
  imports AD_Text
begin

text \<open>
  Account and device identities (\<^verbatim>\<open>identity.rs\<close>): the account root key, device certificates and
  revocations signed by it, and the binding of a device to its protocol credential.  A root or device
  key is the seed it is derived from; key derivation, signing and verification are the argument
  \<open>ed25519\<close>.
\<close>

section \<open>Definitions\<close>

definition KEY_BYTES :: nat where "KEY_BYTES = 32"
definition SIGNATURE_BYTES :: nat where "SIGNATURE_BYTES = 64"
definition MAX_DEVICE_ID_BYTES :: nat where "MAX_DEVICE_ID_BYTES = 64"
definition MAX_DISPLAY_NAME_BYTES :: nat where "MAX_DISPLAY_NAME_BYTES = 96"
definition DOMAIN_CERTIFICATE :: bytes where
  "DOMAIN_CERTIFICATE = as_bytes ''another-dimension/daemon/device-certificate/v1''"
definition DOMAIN_REVOCATION :: bytes where
  "DOMAIN_REVOCATION = as_bytes ''another-dimension/daemon/device-revocation/v1''"
definition DOMAIN_MLS_CREDENTIAL :: bytes where
  "DOMAIN_MLS_CREDENTIAL = as_bytes ''another-dimension/daemon/mls-credential/v1''"

datatype IdentityError =
  RandomnessUnavailable | InvalidSeed | InvalidDeviceId | InvalidDisplayName | InvalidRelayOrigin
  | InvalidCertificate | ExpiredCertificate | CertificateNotYetValid | DeviceAlreadyRevoked

record DeviceCertificate =
  cert_account_public_key :: bytes
  cert_device_id :: string
  cert_device_public_key :: bytes
  cert_protocol_package_hash :: bytes
  cert_issued_at :: u64
  cert_expires_at :: u64
  cert_signature :: bytes
  cert_revoked :: bool

record DeviceRevocation =
  rev_account_public_key :: bytes
  rev_device_id :: string
  rev_device_public_key :: bytes
  rev_revoked_at :: u64
  rev_signature :: bytes

record MlsCredentialBinding =
  mcb_account_public_key :: bytes
  mcb_device_id :: string
  mcb_device_public_key :: bytes
  mcb_protocol_package_hash :: bytes
  mcb_issued_at :: u64
  mcb_expires_at :: u64
  mcb_certificate_signature :: bytes
  mcb_device_proof :: bytes

record DeviceIdentity =
  di_signing_key :: bytes
  di_certificate :: DeviceCertificate

record ProfileIdentity =
  pi_account_id :: string
  pi_display_name :: string
  pi_relay_origin :: "string option"

definition account_id_from_public :: "bytes \<Rightarrow> string" where
  "account_id_from_public public_key = ''ad1pk'' @ hex public_key"

definition root_account_id :: "ed25519 \<Rightarrow> bytes \<Rightarrow> string" where
  "root_account_id E root = account_id_from_public (ed_public E root)"

definition validate_device_id :: "string \<Rightarrow> IdentityError + string" where
  "validate_device_id value =
     (if value = [] \<or> MAX_DEVICE_ID_BYTES < length value
         \<or> \<not> list_all (\<lambda>c. is_ascii_alphanumeric c \<or> c = CHR ''-'' \<or> c = CHR ''_'') value
      then Err InvalidDeviceId else Ok value)"

definition append_bytes :: "bytes \<Rightarrow> bytes \<Rightarrow> bytes" where
  "append_bytes output value = output @ be_bytes 4 (length value) @ value"

definition certificate_message ::
    "bytes \<Rightarrow> string \<Rightarrow> bytes \<Rightarrow> bytes \<Rightarrow> u64 \<Rightarrow> u64 \<Rightarrow> bytes" where
  "certificate_message account device_id device package issued expires =
     append_bytes (append_bytes (append_bytes (append_bytes DOMAIN_CERTIFICATE account)
       (as_bytes device_id)) device) package @ u64_be issued @ u64_be expires"

definition revocation_message :: "bytes \<Rightarrow> string \<Rightarrow> bytes \<Rightarrow> u64 \<Rightarrow> bytes" where
  "revocation_message account device_id device revoked_at =
     append_bytes (append_bytes (append_bytes DOMAIN_REVOCATION account)
       (as_bytes device_id)) device @ u64_be revoked_at"

definition credential_message :: "DeviceCertificate \<Rightarrow> bytes" where
  "credential_message c =
     append_bytes
       (append_bytes (append_bytes (append_bytes (append_bytes DOMAIN_MLS_CREDENTIAL
          (cert_account_public_key c)) (as_bytes (cert_device_id c))) (cert_device_public_key c))
          (cert_protocol_package_hash c) @ u64_be (cert_issued_at c) @ u64_be (cert_expires_at c))
       (cert_signature c)"

definition signed_certificate ::
    "ed25519 \<Rightarrow> bytes \<Rightarrow> string \<Rightarrow> bytes \<Rightarrow> bytes \<Rightarrow> u64 \<Rightarrow> u64 \<Rightarrow> DeviceCertificate" where
  "signed_certificate E root device_id device_public_key package issued expires =
     (let account = ed_public E root in
      \<lparr> cert_account_public_key = account, cert_device_id = device_id,
        cert_device_public_key = device_public_key, cert_protocol_package_hash = package,
        cert_issued_at = issued, cert_expires_at = expires,
        cert_signature = ed_sign E root
          (certificate_message account device_id device_public_key package issued expires),
        cert_revoked = False \<rparr>)"

definition issue_device_for_public_key ::
    "ed25519 \<Rightarrow> bytes \<Rightarrow> string \<Rightarrow> bytes \<Rightarrow> bytes \<Rightarrow> u64 \<Rightarrow> u64 \<Rightarrow> IdentityError + DeviceCertificate" where
  "issue_device_for_public_key E root device_id device_public_key package issued_at expires_at =
     res_bind (validate_device_id device_id) (\<lambda>device_id.
       if expires_at \<le> issued_at then Err InvalidCertificate
       else Ok (signed_certificate E root device_id device_public_key package issued_at expires_at))"

text \<open>\<^verbatim>\<open>issue_device\<close> draws the device seed after the checks; \<open>seed\<close> is the answer of the random source.\<close>

definition issue_device ::
    "ed25519 \<Rightarrow> bytes option \<Rightarrow> bytes \<Rightarrow> string \<Rightarrow> bytes \<Rightarrow> u64 \<Rightarrow> u64 \<Rightarrow> IdentityError + DeviceIdentity" where
  "issue_device E seed root device_id package issued_at expires_at =
     res_bind (validate_device_id device_id) (\<lambda>device_id.
       if expires_at \<le> issued_at then Err InvalidCertificate
       else res_bind (ok_or seed RandomnessUnavailable) (\<lambda>device_key.
         Ok \<lparr> di_signing_key = device_key,
              di_certificate = signed_certificate E root device_id (ed_public E device_key) package
                                 issued_at expires_at \<rparr>))"

definition revoke_device ::
    "ed25519 \<Rightarrow> bytes \<Rightarrow> DeviceCertificate \<Rightarrow> u64 \<Rightarrow> IdentityError + DeviceRevocation" where
  "revoke_device E root c revoked_at =
     (if cert_revoked c \<or> cert_account_public_key c \<noteq> ed_public E root then Err DeviceAlreadyRevoked
      else Ok \<lparr> rev_account_public_key = ed_public E root, rev_device_id = cert_device_id c,
                rev_device_public_key = cert_device_public_key c, rev_revoked_at = revoked_at,
                rev_signature = ed_sign E root
                  (revocation_message (ed_public E root) (cert_device_id c)
                     (cert_device_public_key c) revoked_at) \<rparr>)"

definition verify_signature :: "ed25519 \<Rightarrow> DeviceCertificate \<Rightarrow> IdentityError + unit" where
  "verify_signature E c =
     (if cert_expires_at c \<le> cert_issued_at c \<or> \<not> is_ok (validate_device_id (cert_device_id c))
      then Err InvalidCertificate
      else if \<not> ed_key_ok E (cert_account_public_key c) then Err InvalidCertificate
      else if ed_verify_strict E (cert_account_public_key c)
                (certificate_message (cert_account_public_key c) (cert_device_id c)
                   (cert_device_public_key c) (cert_protocol_package_hash c) (cert_issued_at c)
                   (cert_expires_at c))
                (cert_signature c)
      then Ok () else Err InvalidCertificate)"

definition certificate_verify :: "ed25519 \<Rightarrow> DeviceCertificate \<Rightarrow> u64 \<Rightarrow> IdentityError + unit" where
  "certificate_verify E c now =
     (if cert_revoked c then Err InvalidCertificate
      else if now < cert_issued_at c then Err CertificateNotYetValid
      else if cert_expires_at c \<le> now then Err ExpiredCertificate
      else if cert_expires_at c \<le> cert_issued_at c \<or> \<not> is_ok (validate_device_id (cert_device_id c))
      then Err InvalidCertificate
      else verify_signature E c)"

definition from_parts :: "ed25519 \<Rightarrow> DeviceCertificate \<Rightarrow> IdentityError + DeviceCertificate" where
  "from_parts E parts = res_bind (verify_signature E parts) (\<lambda>_. Ok parts)"

definition matches_revocation :: "DeviceCertificate \<Rightarrow> DeviceRevocation \<Rightarrow> bool" where
  "matches_revocation c r \<longleftrightarrow> cert_account_public_key c = rev_account_public_key r \<and>
     cert_device_id c = rev_device_id r \<and> cert_device_public_key c = rev_device_public_key r"

definition revocation_verify ::
    "ed25519 \<Rightarrow> DeviceRevocation \<Rightarrow> DeviceCertificate \<Rightarrow> IdentityError + unit" where
  "revocation_verify E r c =
     (if \<not> matches_revocation c r \<or> \<not> is_ok (validate_device_id (rev_device_id r))
      then Err InvalidCertificate
      else if \<not> ed_key_ok E (rev_account_public_key r) then Err InvalidCertificate
      else if ed_verify_strict E (rev_account_public_key r)
                (revocation_message (rev_account_public_key r) (rev_device_id r)
                   (rev_device_public_key r) (rev_revoked_at r))
                (rev_signature r)
      then Ok () else Err InvalidCertificate)"

definition apply_revocation ::
    "ed25519 \<Rightarrow> DeviceRevocation \<Rightarrow> DeviceCertificate \<Rightarrow> (IdentityError + unit) \<times> DeviceCertificate" where
  "apply_revocation E r c =
     (case res_bind (verify_signature E c) (\<lambda>_. revocation_verify E r c) of
        Inl e \<Rightarrow> (Err e, c)
      | Inr _ \<Rightarrow> (Ok (), c \<lparr> cert_revoked := True \<rparr>))"

definition mls_credential_binding :: "ed25519 \<Rightarrow> DeviceIdentity \<Rightarrow> MlsCredentialBinding" where
  "mls_credential_binding E d =
     (let c = di_certificate d in
      \<lparr> mcb_account_public_key = cert_account_public_key c, mcb_device_id = cert_device_id c,
        mcb_device_public_key = cert_device_public_key c,
        mcb_protocol_package_hash = cert_protocol_package_hash c,
        mcb_issued_at = cert_issued_at c, mcb_expires_at = cert_expires_at c,
        mcb_certificate_signature = cert_signature c,
        mcb_device_proof = ed_sign E (di_signing_key d) (credential_message c) \<rparr>)"

definition binding_certificate :: "MlsCredentialBinding \<Rightarrow> DeviceCertificate" where
  "binding_certificate b =
     \<lparr> cert_account_public_key = mcb_account_public_key b, cert_device_id = mcb_device_id b,
       cert_device_public_key = mcb_device_public_key b,
       cert_protocol_package_hash = mcb_protocol_package_hash b,
       cert_issued_at = mcb_issued_at b, cert_expires_at = mcb_expires_at b,
       cert_signature = mcb_certificate_signature b, cert_revoked = False \<rparr>"

definition binding_verify :: "ed25519 \<Rightarrow> MlsCredentialBinding \<Rightarrow> u64 \<Rightarrow> IdentityError + unit" where
  "binding_verify E b now =
     res_bind (certificate_verify E (binding_certificate b) now) (\<lambda>_.
       if \<not> ed_key_ok E (mcb_device_public_key b) then Err InvalidCertificate
       else if ed_verify_strict E (mcb_device_public_key b)
                 (credential_message (binding_certificate b)) (mcb_device_proof b)
       then Ok () else Err InvalidCertificate)"

definition profile_relay_origin_ok :: "string \<Rightarrow> bool" where
  "profile_relay_origin_ok value =
     (case split_once ''://'' value of
        None \<Rightarrow> False
      | Some (scheme, rest) \<Rightarrow>
          \<not> (scheme \<noteq> ''http'' \<and> scheme \<noteq> ''https'' \<or> rest = []
             \<or> CHR ''/'' \<in> set rest \<or> CHR ''@'' \<in> set rest \<or> CHR ''?'' \<in> set rest \<or> CHR ''#'' \<in> set rest
             \<or> (case utf8_decode rest of None \<Rightarrow> False | Some cs \<Rightarrow> list_ex is_whitespace cs)))"

definition profile_from_account ::
    "ed25519 \<Rightarrow> bytes \<Rightarrow> string \<Rightarrow> string option \<Rightarrow> IdentityError + ProfileIdentity" where
  "profile_from_account E root display_name relay_origin =
     (if display_name = [] \<or> MAX_DISPLAY_NAME_BYTES < length display_name
         \<or> (case utf8_decode display_name of None \<Rightarrow> False | Some cs \<Rightarrow> list_ex is_control cs)
      then Err InvalidDisplayName
      else if (case relay_origin of None \<Rightarrow> False | Some origin \<Rightarrow> \<not> profile_relay_origin_ok origin)
      then Err InvalidRelayOrigin
      else Ok \<lparr> pi_account_id = root_account_id E root, pi_display_name = display_name,
                pi_relay_origin = relay_origin \<rparr>)"

section \<open>Signed messages\<close>

lemma framed_inject:
  assumes "length v < 2 ^ 32" "length w < 2 ^ 32"
    and "be_bytes 4 (length v) @ v @ r = be_bytes 4 (length w) @ w @ s"
  shows "v = w \<and> r = s"
proof -
  have "be_bytes 4 (length v) = be_bytes 4 (length w)" "v @ r = w @ s"
    using assms(3) by (simp_all add: append_eq_append_conv)
  then show ?thesis using assms(1,2) be_bytes_inject [of "length v" 4 "length w"]
    by (simp add: append_eq_append_conv)
qed

lemma u64_be_append_inject [simp]: "u64_be v @ r = u64_be w @ s \<longleftrightarrow> v = w \<and> r = s"
  by (simp add: append_eq_append_conv)

lemma framed_iff:
  assumes "length v < 2 ^ 32" "length w < 2 ^ 32"
  shows "be_bytes 4 (length v) @ v @ r = be_bytes 4 (length w) @ w @ s \<longleftrightarrow> v = w \<and> r = s"
  using framed_inject [OF assms] by blast

lemma length_as_bytes [simp]: "length (as_bytes s) = length s"
  by (simp add: as_bytes_def)

lemma frame_as_bytes_iff:
  assumes "length v < 2 ^ 32" "length w < 2 ^ 32"
  shows "be_bytes 4 (length v) @ as_bytes v @ r = be_bytes 4 (length w) @ as_bytes w @ s \<longleftrightarrow> v = w \<and> r = s"
  using framed_iff [of "as_bytes v" "as_bytes w" r s] assms by simp

lemma validate_device_id_Ok: "validate_device_id d = Ok e \<Longrightarrow> e = d \<and> length d \<le> 64"
  by (auto simp: validate_device_id_def MAX_DEVICE_ID_BYTES_def split: if_splits)

lemmas signed_message_defs = certificate_message_def revocation_message_def credential_message_def
  append_bytes_def

lemma domains_differ:
  "DOMAIN_CERTIFICATE @ r \<noteq> DOMAIN_REVOCATION @ s"
  "DOMAIN_CERTIFICATE @ r \<noteq> DOMAIN_MLS_CREDENTIAL @ s"
  "DOMAIN_REVOCATION @ r \<noteq> DOMAIN_MLS_CREDENTIAL @ s"
  by (simp_all add: DOMAIN_CERTIFICATE_def DOMAIN_REVOCATION_def DOMAIN_MLS_CREDENTIAL_def)

lemma certificate_message_iff:
  assumes "length a = 32" "length a' = 32" "length k = 32" "length k' = 32" "length p = 32"
    "length p' = 32" "length d \<le> 64" "length d' \<le> 64"
  shows "certificate_message a d k p i e = certificate_message a' d' k' p' i' e' \<longleftrightarrow>
    a = a' \<and> d = d' \<and> k = k' \<and> p = p' \<and> i = i' \<and> e = e'"
  using assms by (auto simp: signed_message_defs frame_as_bytes_iff append_eq_append_conv)

lemma revocation_message_iff:
  assumes "length a = 32" "length a' = 32" "length k = 32" "length k' = 32"
    "length d \<le> 64" "length d' \<le> 64"
  shows "revocation_message a d k t = revocation_message a' d' k' t' \<longleftrightarrow>
    a = a' \<and> d = d' \<and> k = k' \<and> t = t'"
  using assms by (auto simp: signed_message_defs frame_as_bytes_iff append_eq_append_conv)

text \<open>The lengths the array types of the source fix, and the bound on device ids.\<close>

definition certificate_wf :: "DeviceCertificate \<Rightarrow> bool" where
  "certificate_wf c \<longleftrightarrow> length (cert_account_public_key c) = KEY_BYTES \<and>
     length (cert_device_public_key c) = KEY_BYTES \<and>
     length (cert_protocol_package_hash c) = KEY_BYTES \<and>
     length (cert_signature c) = SIGNATURE_BYTES \<and> length (cert_device_id c) \<le> MAX_DEVICE_ID_BYTES"

definition certificate_payload :: "DeviceCertificate \<Rightarrow> bytes" where
  "certificate_payload c = certificate_message (cert_account_public_key c) (cert_device_id c)
     (cert_device_public_key c) (cert_protocol_package_hash c) (cert_issued_at c) (cert_expires_at c)"

lemma credential_message_iff:
  assumes "certificate_wf c" "certificate_wf c'" "cert_revoked c = cert_revoked c'"
  shows "credential_message c = credential_message c' \<longleftrightarrow> c = c'"
  using assms
  by (cases c, cases c')
     (auto simp: signed_message_defs certificate_wf_def KEY_BYTES_def SIGNATURE_BYTES_def
        MAX_DEVICE_ID_BYTES_def frame_as_bytes_iff append_eq_append_conv)

text \<open>C18. The byte strings the account and device keys sign are unambiguous.  Two certificates with the
  same signed payload agree on every signed field, two revocations with the same message revoke the
  same device of the same account at the same time, two credential messages bind the same certificate
  with its signature, and a message of one kind is never a message of another kind, so that a
  signature cannot be reused across the three purposes.\<close>
theorem signed_messages_unambiguous:
  assumes "certificate_wf c" "certificate_wf c'"
  shows "(certificate_payload c = certificate_payload c' \<longleftrightarrow>
            c \<lparr> cert_signature := [], cert_revoked := False \<rparr>
            = c' \<lparr> cert_signature := [], cert_revoked := False \<rparr>)
    \<and> (revocation_message (cert_account_public_key c) (cert_device_id c) (cert_device_public_key c) t
       = revocation_message (cert_account_public_key c') (cert_device_id c') (cert_device_public_key c') t'
       \<longleftrightarrow> cert_account_public_key c = cert_account_public_key c' \<and> cert_device_id c = cert_device_id c'
         \<and> cert_device_public_key c = cert_device_public_key c' \<and> t = t')
    \<and> (credential_message c = credential_message c' \<longleftrightarrow>
         c \<lparr> cert_revoked := False \<rparr> = c' \<lparr> cert_revoked := False \<rparr>)
    \<and> certificate_payload c \<noteq> revocation_message a d k t
    \<and> certificate_payload c \<noteq> credential_message c'
    \<and> revocation_message a d k t \<noteq> credential_message c"
proof (intro conjI)
  note wf = assms [unfolded certificate_wf_def KEY_BYTES_def SIGNATURE_BYTES_def MAX_DEVICE_ID_BYTES_def]
  show "certificate_payload c = certificate_payload c' \<longleftrightarrow>
      c \<lparr> cert_signature := [], cert_revoked := False \<rparr>
      = c' \<lparr> cert_signature := [], cert_revoked := False \<rparr>"
    using wf by (cases c, cases c') (simp add: certificate_payload_def certificate_message_iff)
  have "credential_message (x \<lparr> cert_revoked := False \<rparr>) = credential_message x" for x
    by (simp add: credential_message_def)
  then show "credential_message c = credential_message c' \<longleftrightarrow>
      c \<lparr> cert_revoked := False \<rparr> = c' \<lparr> cert_revoked := False \<rparr>"
    using assms credential_message_iff [of "c \<lparr> cert_revoked := False \<rparr>" "c' \<lparr> cert_revoked := False \<rparr>"]
    by (simp add: certificate_wf_def)
  show "revocation_message (cert_account_public_key c) (cert_device_id c) (cert_device_public_key c) t
       = revocation_message (cert_account_public_key c') (cert_device_id c') (cert_device_public_key c') t'
       \<longleftrightarrow> cert_account_public_key c = cert_account_public_key c' \<and> cert_device_id c = cert_device_id c'
         \<and> cert_device_public_key c = cert_device_public_key c' \<and> t = t'"
    using wf by (simp add: revocation_message_iff)
qed (simp_all add: certificate_payload_def signed_message_defs domains_differ)

section \<open>Issuing and revoking\<close>

lemma validate_device_id_is_ok [simp]:
  "validate_device_id d = Ok d' \<Longrightarrow> is_ok (validate_device_id d)"
  by simp

lemma signed_certificate_verify_signature:
  assumes "ed_correct E" "validate_device_id d = Ok d'" "i < e"
  shows "verify_signature E (signed_certificate E root d k p i e) = Ok ()"
  using assms by (simp add: verify_signature_def signed_certificate_def Let_def ed_correct_def)

lemma signed_certificate_verify:
  assumes "ed_correct E" "validate_device_id d = Ok d'" "i < e"
  shows "certificate_verify E (signed_certificate E root d k p i e) now = Ok () \<longleftrightarrow> i \<le> now \<and> now < e"
  using signed_certificate_verify_signature [OF assms] assms(2,3)
  by (auto simp: certificate_verify_def signed_certificate_def Let_def)

lemma issue_for_public_key_Ok:
  "issue_device_for_public_key E root d k p i e = Ok c \<longleftrightarrow>
     validate_device_id d = Ok d \<and> i < e \<and> c = signed_certificate E root d k p i e"
  by (auto simp: issue_device_for_public_key_def dest: validate_device_id_Ok)

lemma issue_device_Ok:
  "issue_device E seed root d p i e = Ok di \<longleftrightarrow> (\<exists>key. seed = Some key \<and> validate_device_id d = Ok d \<and>
     i < e \<and> di = \<lparr> di_signing_key = key,
                     di_certificate = signed_certificate E root d (ed_public E key) p i e \<rparr>)"
  by (auto simp: issue_device_def not_le dest: validate_device_id_Ok)

lemma revoked_never_verifies: "cert_revoked c \<Longrightarrow> certificate_verify E c now = Err InvalidCertificate"
  by (simp add: certificate_verify_def)

text \<open>C19. A certificate the account root issues verifies exactly in its validity window.  The root can
  revoke it at any time, also after it expired; applying that revocation succeeds and from then on the
  certificate verifies at no time.\<close>
theorem issued_certificate_life_cycle:
  assumes "ed_correct E"
    and "issue_device_for_public_key E root device_id key package issued_at expires_at = Ok c"
  shows "(\<forall>now. certificate_verify E c now = Ok () \<longleftrightarrow> issued_at \<le> now \<and> now < expires_at)
    \<and> (\<exists>r. revoke_device E root c revoked_at = Ok r
         \<and> apply_revocation E r c = (Ok (), c \<lparr> cert_revoked := True \<rparr>)
         \<and> (\<forall>now. certificate_verify E (snd (apply_revocation E r c)) now = Err InvalidCertificate))"
proof -
  have v: "validate_device_id device_id = Ok device_id" "issued_at < expires_at"
    and c: "c = signed_certificate E root device_id key package issued_at expires_at"
    using assms(2) by (simp_all add: issue_for_public_key_Ok)
  define r where "r = \<lparr> rev_account_public_key = ed_public E root, rev_device_id = device_id,
    rev_device_public_key = key, rev_revoked_at = revoked_at,
    rev_signature = ed_sign E root (revocation_message (ed_public E root) device_id key revoked_at) \<rparr>"
  have "revoke_device E root c revoked_at = Ok r"
    by (simp add: revoke_device_def c signed_certificate_def Let_def r_def)
  moreover have "revocation_verify E r c = Ok ()"
    using assms(1) v(1)
    by (simp add: revocation_verify_def matches_revocation_def r_def c signed_certificate_def Let_def
        ed_correct_def)
  ultimately show ?thesis
    using signed_certificate_verify [OF assms(1) v] signed_certificate_verify_signature [OF assms(1) v]
    by (auto simp: c apply_revocation_def revoked_never_verifies)
qed

text \<open>A device identity issued by the root produces a credential binding that verifies exactly in
  the window of its certificate and names the account of the root.\<close>
theorem credential_binding_verifies:
  assumes "ed_correct E" "issue_device E seed root device_id package issued_at expires_at = Ok d"
  shows "(binding_verify E (mls_credential_binding E d) now = Ok () \<longleftrightarrow> issued_at \<le> now \<and> now < expires_at)
    \<and> account_id_from_public (mcb_account_public_key (mls_credential_binding E d)) = root_account_id E root"
proof -
  obtain key where d: "d = \<lparr> di_signing_key = key, di_certificate =
      signed_certificate E root device_id (ed_public E key) package issued_at expires_at \<rparr>"
    and v: "validate_device_id device_id = Ok device_id" "issued_at < expires_at"
    using assms(2) unfolding issue_device_Ok by blast
  have b: "binding_certificate (mls_credential_binding E d) = di_certificate d"
    by (simp add: binding_certificate_def mls_credential_binding_def d signed_certificate_def Let_def)
  have "binding_verify E (mls_credential_binding E d) now
      = res_bind (certificate_verify E (di_certificate d) now) (\<lambda>_. Ok ())"
    using assms(1) unfolding binding_verify_def b
    by (simp add: mls_credential_binding_def d signed_certificate_def Let_def ed_correct_def)
  then show ?thesis
    using signed_certificate_verify [OF assms(1) v]
    by (auto simp: d mls_credential_binding_def signed_certificate_def Let_def root_account_id_def)
qed

section \<open>Witnesses\<close>

definition demo_certificate :: DeviceCertificate where
  "demo_certificate = signed_certificate demo_ed (replicate 32 7) ''phone-1'' (replicate 32 1)
     (replicate 32 2) 10 20"

theorem signed_messages_unambiguous_witness:
  "certificate_payload demo_certificate
     \<noteq> certificate_payload (demo_certificate \<lparr> cert_device_id := ''phone-2'' \<rparr>)"
proof -
  have wf: "certificate_wf demo_certificate"
    "certificate_wf (demo_certificate \<lparr> cert_device_id := ''phone-2'' \<rparr>)"
    by (simp_all add: certificate_wf_def demo_certificate_def signed_certificate_def Let_def demo_ed_def
        KEY_BYTES_def SIGNATURE_BYTES_def MAX_DEVICE_ID_BYTES_def)
  have "demo_certificate \<lparr> cert_signature := [], cert_revoked := False \<rparr>
      \<noteq> demo_certificate \<lparr> cert_device_id := ''phone-2'', cert_signature := [], cert_revoked := False \<rparr>"
    by (simp add: demo_certificate_def signed_certificate_def Let_def)
  then show ?thesis
    using signed_messages_unambiguous [OF wf] by simp
qed

theorem issued_certificate_life_cycle_witness:
  "certificate_verify demo_ed demo_certificate 15 = Ok ()"
proof -
  have "issue_device_for_public_key demo_ed (replicate 32 7) ''phone-1'' (replicate 32 1)
      (replicate 32 2) 10 20 = Ok demo_certificate"
    by (simp add: issue_for_public_key_Ok demo_certificate_def validate_device_id_def
        MAX_DEVICE_ID_BYTES_def ascii_defs)
  from issued_certificate_life_cycle [OF demo_ed_correct this] show ?thesis by simp
qed

theorem credential_binding_verifies_witness:
  "\<exists>d. issue_device demo_ed (Some (replicate 32 3)) (replicate 32 7) ''phone-1'' (replicate 32 2) 10 20
      = Ok d \<and> binding_verify demo_ed (mls_credential_binding demo_ed d) 10 = Ok ()"
proof -
  obtain d where d: "issue_device demo_ed (Some (replicate 32 3)) (replicate 32 7) ''phone-1''
      (replicate 32 2) 10 20 = Ok d"
    by (simp add: issue_device_def validate_device_id_def MAX_DEVICE_ID_BYTES_def ascii_defs)
  from credential_binding_verifies [OF demo_ed_correct this, of 10] d show ?thesis by auto
qed

end
