(* ===== verification/Device_Registry.thy ===== *)
theory Device_Registry
  imports Identity Domain_Model
begin

text \<open>
  The account's device registry (\<^verbatim>\<open>device.rs\<close>): certificates with their state, registration, revocation and
  authorisation, the bounded list of change events, and the persisted form.  The JSON functions of the
  persisted form are arguments.
\<close>

section \<open>Definitions\<close>

definition MAX_DEVICE_EVENTS :: nat where "MAX_DEVICE_EVENTS = 64"

datatype DeviceChangeKind = Registered | DeviceRevoked

record DeviceChangeEvent =
  ev_device_id :: string
  ev_kind :: DeviceChangeKind
  ev_at :: u64

record DeviceRecord =
  certificate :: DeviceCertificate
  dev_state :: DeviceState
  dev_revoked_at :: "u64 option"

record DeviceRegistry =
  reg_account_public_key :: bytes
  devices :: "(string, DeviceRecord) btree"
  reg_events :: "DeviceChangeEvent list"

datatype DeviceRegistryError =
  Identity IdentityError | WrongAccount | DuplicateDevice | UnknownDevice | DeviceNotActive | Corrupt

record DeviceRecordWire =
  w_account_public_key :: bytes
  w_device_id :: string
  w_device_public_key :: bytes
  w_protocol_package_hash :: bytes
  w_issued_at :: u64
  w_expires_at :: u64
  w_signature :: bytes
  w_revoked :: bool
  w_state :: DeviceState
  w_revoked_at :: "u64 option"

record RegistryWire =
  rw_account_public_key :: bytes
  rw_devices :: "DeviceRecordWire list"
  rw_events :: "DeviceChangeEvent list"

definition new_for_public_key :: "bytes \<Rightarrow> DeviceRegistry" where
  "new_for_public_key key = \<lparr> reg_account_public_key = key, devices = fmempty, reg_events = [] \<rparr>"

definition registry_new :: "ed25519 \<Rightarrow> bytes \<Rightarrow> DeviceRegistry" where
  "registry_new E root = new_for_public_key (ed_public E root)"

definition belongs_to :: "ed25519 \<Rightarrow> DeviceRegistry \<Rightarrow> bytes \<Rightarrow> bool" where
  "belongs_to E r root \<longleftrightarrow> reg_account_public_key r = ed_public E root"

definition record_event :: "DeviceChangeEvent \<Rightarrow> DeviceRegistry \<Rightarrow> DeviceRegistry" where
  "record_event ev r =
     (let evs = reg_events r @ [ev] in
      r \<lparr> reg_events :=
            (if MAX_DEVICE_EVENTS < length evs then drop (length evs - MAX_DEVICE_EVENTS) evs else evs) \<rparr>)"

definition register ::
    "ed25519 \<Rightarrow> DeviceCertificate \<Rightarrow> u64 \<Rightarrow> DeviceRegistry \<Rightarrow> (DeviceRegistryError + unit) \<times> DeviceRegistry" where
  "register E c now r =
     (if cert_account_public_key c \<noteq> reg_account_public_key r then (Err WrongAccount, r)
      else case certificate_verify E c now of
        Inl e \<Rightarrow> (Err (Identity e), r)
      | Inr _ \<Rightarrow>
          if fmlookup (devices r) (cert_device_id c) \<noteq> None then (Err DuplicateDevice, r)
          else (Ok (),
            record_event \<lparr> ev_device_id = cert_device_id c, ev_kind = Registered, ev_at = now \<rparr>
              (r \<lparr> devices := fmupd (cert_device_id c)
                   \<lparr> certificate = c, dev_state = DeviceState.Active, dev_revoked_at = None \<rparr> (devices r) \<rparr>)))"

definition revoke ::
    "ed25519 \<Rightarrow> bytes \<Rightarrow> string \<Rightarrow> u64 \<Rightarrow> DeviceRegistry
     \<Rightarrow> (DeviceRegistryError + DeviceRevocation) \<times> DeviceRegistry" where
  "revoke E root device_id revoked_at r =
     (if ed_public E root \<noteq> reg_account_public_key r then (Err WrongAccount, r)
      else case fmlookup (devices r) device_id of
        None \<Rightarrow> (Err UnknownDevice, r)
      | Some rc \<Rightarrow>
          if dev_state rc \<noteq> DeviceState.Active then (Err DeviceNotActive, r)
          else (case revoke_device E root (certificate rc) revoked_at of
            Inl e \<Rightarrow> (Err (Identity e), r)
          | Inr revocation \<Rightarrow>
              (case apply_revocation E revocation (certificate rc) of
                 (Inl e, c) \<Rightarrow> (Err (Identity e),
                   r \<lparr> devices := fmupd device_id (rc \<lparr> certificate := c \<rparr>) (devices r) \<rparr>)
               | (Inr _, c) \<Rightarrow> (Ok revocation,
                   record_event \<lparr> ev_device_id = device_id, ev_kind = DeviceRevoked, ev_at = revoked_at \<rparr>
                     (r \<lparr> devices := fmupd device_id
                          (rc \<lparr> certificate := c, dev_state := DeviceState.Revoked,
                                dev_revoked_at := Some revoked_at \<rparr>) (devices r) \<rparr>)))))"

definition authorize :: "ed25519 \<Rightarrow> DeviceRegistry \<Rightarrow> string \<Rightarrow> u64 \<Rightarrow> DeviceRegistryError + unit" where
  "authorize E r device_id now =
     res_bind (ok_or (fmlookup (devices r) device_id) UnknownDevice) (\<lambda>rc.
       if dev_state rc \<noteq> DeviceState.Active then Err DeviceNotActive
       else map_err Identity (certificate_verify E (certificate rc) now))"

definition record_wire :: "DeviceRecord \<Rightarrow> DeviceRecordWire" where
  "record_wire rc =
     \<lparr> w_account_public_key = cert_account_public_key (certificate rc),
       w_device_id = cert_device_id (certificate rc),
       w_device_public_key = cert_device_public_key (certificate rc),
       w_protocol_package_hash = cert_protocol_package_hash (certificate rc),
       w_issued_at = cert_issued_at (certificate rc), w_expires_at = cert_expires_at (certificate rc),
       w_signature = cert_signature (certificate rc), w_revoked = cert_revoked (certificate rc),
       w_state = dev_state rc, w_revoked_at = dev_revoked_at rc \<rparr>"

definition registry_wire :: "DeviceRegistry \<Rightarrow> RegistryWire" where
  "registry_wire r =
     \<lparr> rw_account_public_key = reg_account_public_key r,
       rw_devices = map (record_wire \<circ> snd) (sorted_list_of_fmap (devices r)),
       rw_events = reg_events r \<rparr>"

definition registry_encode ::
    "(RegistryWire \<Rightarrow> bytes option) \<Rightarrow> DeviceRegistry \<Rightarrow> DeviceRegistryError + bytes" where
  "registry_encode to_json r = ok_or (to_json (registry_wire r)) Corrupt"

text \<open>\<^verbatim>\<open>try_into\<close> to an array of the given length.\<close>

definition fixed_bytes :: "nat \<Rightarrow> bytes \<Rightarrow> 'e \<Rightarrow> 'e + bytes" where
  "fixed_bytes n bs e = (if length bs = n then Ok bs else Err e)"

definition decode_item :: "ed25519 \<Rightarrow> DeviceRecordWire \<Rightarrow> DeviceRegistryError + DeviceCertificate" where
  "decode_item E item =
     res_bind (fixed_bytes 32 (w_account_public_key item) Corrupt) (\<lambda>account.
     res_bind (fixed_bytes 32 (w_device_public_key item) Corrupt) (\<lambda>key.
     res_bind (fixed_bytes 32 (w_protocol_package_hash item) Corrupt) (\<lambda>package.
     res_bind (fixed_bytes 64 (w_signature item) Corrupt) (\<lambda>signature.
       map_err Identity (from_parts E
         \<lparr> cert_account_public_key = account, cert_device_id = w_device_id item,
           cert_device_public_key = key, cert_protocol_package_hash = package,
           cert_issued_at = w_issued_at item, cert_expires_at = w_expires_at item,
           cert_signature = signature, cert_revoked = w_revoked item \<rparr>)))))"

fun decode_devices ::
    "ed25519 \<Rightarrow> bytes \<Rightarrow> DeviceRecordWire list \<Rightarrow> (string, DeviceRecord) btree
     \<Rightarrow> DeviceRegistryError + (string, DeviceRecord) btree" where
  "decode_devices E account [] m = Ok m"
| "decode_devices E account (item # items) m =
     res_bind (decode_item E item) (\<lambda>c.
       if cert_account_public_key c \<noteq> account \<or> fmlookup m (cert_device_id c) \<noteq> None
          \<or> \<not> is_ok (verify_signature E c)
          \<or> w_state item = Provisioning
          \<or> cert_revoked c \<noteq> (w_state item = DeviceState.Revoked)
          \<or> cert_revoked c \<noteq> (w_revoked_at item \<noteq> None)
       then Err Corrupt
       else decode_devices E account items
              (fmupd (cert_device_id c) \<lparr> certificate = c, dev_state = w_state item,
                 dev_revoked_at = w_revoked_at item \<rparr> m))"

definition registry_decode ::
    "ed25519 \<Rightarrow> (bytes \<Rightarrow> RegistryWire option) \<Rightarrow> bytes \<Rightarrow> DeviceRegistryError + DeviceRegistry" where
  "registry_decode E of_json bs =
     res_bind (ok_or (of_json bs) Corrupt) (\<lambda>wire.
     res_bind (fixed_bytes 32 (rw_account_public_key wire) Corrupt) (\<lambda>account.
     res_bind (decode_devices E account (rw_devices wire) fmempty) (\<lambda>ds.
       if MAX_DEVICE_EVENTS < length (rw_events wire)
          \<or> list_ex (\<lambda>ev. ev_device_id ev = []) (rw_events wire)
       then Err Corrupt
       else Ok \<lparr> reg_account_public_key = account, devices = ds, reg_events = rw_events wire \<rparr>)))"

text \<open>What a daemon does with its registry: registering certificates, revoking devices, and writing it
  and reading it back.\<close>

inductive registry_reach :: "ed25519 \<Rightarrow> bytes \<Rightarrow> DeviceRegistry \<Rightarrow> DeviceRegistry \<Rightarrow> bool"
  for E :: ed25519 and root :: bytes where
  stay: "registry_reach E root r r"
| do_register: "registry_reach E root r s \<Longrightarrow> certificate_wf c \<Longrightarrow>
    registry_reach E root r (snd (register E c now s))"
| do_revoke: "registry_reach E root r s \<Longrightarrow>
    registry_reach E root r (snd (revoke E root device_id revoked_at s))"
| do_reload: "registry_reach E root r s \<Longrightarrow> registry_encode to_json s = Ok bs \<Longrightarrow>
    of_json bs = Some (registry_wire s) \<Longrightarrow> registry_decode E of_json bs = Ok t \<Longrightarrow>
    registry_reach E root r t"

section \<open>The invariant\<close>

definition device_ok :: "ed25519 \<Rightarrow> bytes \<Rightarrow> string \<Rightarrow> DeviceRecord \<Rightarrow> bool" where
  "device_ok E account i rc \<longleftrightarrow>
     cert_device_id (certificate rc) = i \<and> cert_account_public_key (certificate rc) = account \<and>
     certificate_wf (certificate rc) \<and> verify_signature E (certificate rc) = Ok () \<and>
     dev_state rc \<noteq> Provisioning \<and>
     cert_revoked (certificate rc) = (dev_state rc = DeviceState.Revoked) \<and>
     cert_revoked (certificate rc) = (dev_revoked_at rc \<noteq> None)"

definition registry_inv :: "ed25519 \<Rightarrow> DeviceRegistry \<Rightarrow> bool" where
  "registry_inv E r \<longleftrightarrow> length (reg_account_public_key r) = KEY_BYTES \<and>
     (\<forall>i rc. fmlookup (devices r) i = Some rc \<longrightarrow> device_ok E (reg_account_public_key r) i rc) \<and>
     length (reg_events r) \<le> MAX_DEVICE_EVENTS \<and> (\<forall>ev \<in> set (reg_events r). ev_device_id ev \<noteq> [])"

lemma record_event_simps [simp]:
  "devices (record_event ev r) = devices r"
  "reg_account_public_key (record_event ev r) = reg_account_public_key r"
  "length (reg_events (record_event ev r)) = min MAX_DEVICE_EVENTS (Suc (length (reg_events r)))"
  by (simp_all add: record_event_def Let_def MAX_DEVICE_EVENTS_def)

lemma record_event_set: "ev' \<in> set (reg_events (record_event ev r)) \<Longrightarrow> ev' = ev \<or> ev' \<in> set (reg_events r)"
  by (auto simp: record_event_def Let_def split: if_splits dest: in_set_dropD)

lemma verify_signature_revoked [simp]:
  "verify_signature E (c \<lparr> cert_revoked := b \<rparr>) = verify_signature E c"
  by (simp add: verify_signature_def)

lemma certificate_wf_revoked [simp]: "certificate_wf (c \<lparr> cert_revoked := b \<rparr>) = certificate_wf c"
  by (simp add: certificate_wf_def)

lemma certificate_verify_Ok:
  "certificate_verify E c now = Ok () \<longleftrightarrow> \<not> cert_revoked c \<and> cert_issued_at c \<le> now \<and>
     now < cert_expires_at c \<and> verify_signature E c = Ok ()"
  by (auto simp: certificate_verify_def verify_signature_def)

lemma verify_signature_id: "verify_signature E c = Ok u \<Longrightarrow> cert_device_id c \<noteq> []"
  by (auto simp: verify_signature_def validate_device_id_def split: if_splits)

lemma apply_revocation_cases:
  obtains e where "apply_revocation E r c = (Err e, c)"
  | "apply_revocation E r c = (Ok (), c \<lparr> cert_revoked := True \<rparr>)"
  by (cases "res_bind (verify_signature E c) (\<lambda>_. revocation_verify E r c)")
     (simp_all add: apply_revocation_def)

lemma register_inv:
  assumes "registry_inv E r" "certificate_wf c"
  shows "registry_inv E (snd (register E c now r))"
proof (cases "cert_account_public_key c = reg_account_public_key r \<and> certificate_verify E c now = Ok ()
    \<and> fmlookup (devices r) (cert_device_id c) = None")
  case True
  then have v: "verify_signature E c = Ok ()" "\<not> cert_revoked c"
    by (simp_all add: certificate_verify_Ok)
  then have "device_ok E (reg_account_public_key r) (cert_device_id c)
      \<lparr> certificate = c, dev_state = DeviceState.Active, dev_revoked_at = None \<rparr>"
    using True assms(2) by (simp add: device_ok_def)
  then show ?thesis
    using assms(1) True verify_signature_id [OF v(1)]
    by (auto simp: registry_inv_def register_def dest!: record_event_set)
qed (use assms in \<open>auto simp: register_def split: sum.splits\<close>)

lemma revoke_cases:
  obtains (same) e where "revoke E root i t r = (Err e, r)"
  | (revoked) rc rv where "fmlookup (devices r) i = Some rc" "dev_state rc = DeviceState.Active"
      "revoke E root i t r = (Ok rv, record_event
         \<lparr> ev_device_id = i, ev_kind = DeviceRevoked, ev_at = t \<rparr>
         (r \<lparr> devices := fmupd i (rc \<lparr> certificate := certificate rc \<lparr> cert_revoked := True \<rparr>,
               dev_state := DeviceState.Revoked, dev_revoked_at := Some t \<rparr>) (devices r) \<rparr>))"
proof (cases "ed_public E root = reg_account_public_key r")
  case True
  show thesis
  proof (cases "fmlookup (devices r) i")
    case None
    with True same show thesis by (simp add: revoke_def)
  next
    case (Some rc)
    have same_dev: "r \<lparr> devices := fmupd i (rc \<lparr> certificate := certificate rc \<rparr>) (devices r) \<rparr> = r"
      using Some by (simp add: fmupd_same_lookup)
    show thesis
    proof (cases "dev_state rc = DeviceState.Active \<and> (\<exists>rv. revoke_device E root (certificate rc) t = Ok rv)")
      case False
      then have "\<exists>e. revoke E root i t r = (Err e, r)"
        using True Some by (cases "revoke_device E root (certificate rc) t") (auto simp: revoke_def)
      with same show thesis by blast
    next
      case act: True
      then obtain rv where "revoke_device E root (certificate rc) t = Ok rv" by blast
      with act True Some same revoked same_dev show thesis
        by (cases rule: apply_revocation_cases [of E rv "certificate rc"]) (auto simp: revoke_def)
    qed
  qed
qed (use same in \<open>simp add: revoke_def\<close>)

lemma revoke_inv:
  assumes "registry_inv E r"
  shows "registry_inv E (snd (revoke E root i t r))"
proof (cases rule: revoke_cases [of E root i t r])
  case (revoked rc rv)
  then have ok: "device_ok E (reg_account_public_key r) i rc"
    using assms by (simp add: registry_inv_def)
  then have "i \<noteq> []" by (auto simp: device_ok_def dest: verify_signature_id)
  then show ?thesis
    using assms ok unfolding revoked(3) registry_inv_def
    by (auto simp: device_ok_def dest!: record_event_set)
qed (use assms in simp)

section \<open>The persisted form\<close>

lemma decode_item_wire:
  assumes "device_ok E account i rc"
  shows "decode_item E (record_wire rc) = Ok (certificate rc)"
  using assms
  by (cases rc; cases "certificate rc")
     (simp add: decode_item_def record_wire_def device_ok_def certificate_wf_def fixed_bytes_def from_parts_def
      KEY_BYTES_def SIGNATURE_BYTES_def)

lemma decode_devices_wire:
  assumes "\<forall>(i, rc) \<in> set xs. device_ok E account i rc" "distinct (map fst xs)"
    "\<forall>i \<in> fst ` set xs. fmlookup m i = None"
  shows "decode_devices E account (map (record_wire \<circ> snd) xs) m = Ok (m ++\<^sub>f fmap_of_list xs)"
  using assms
proof (induction xs arbitrary: m)
  case (Cons x xs)
  obtain i rc where x: "x = (i, rc)" by fastforce
  have ok: "device_ok E account i rc" using Cons.prems(1) by (simp add: x)
  have step: "decode_devices E account (map (record_wire \<circ> snd) (x # xs)) m
      = decode_devices E account (map (record_wire \<circ> snd) xs) (fmupd i rc m)"
    using ok Cons.prems(3) decode_item_wire [OF ok]
    by (cases rc) (auto simp: x device_ok_def record_wire_def)
  have "fmupd i rc m ++\<^sub>f fmap_of_list xs = m ++\<^sub>f fmap_of_list (x # xs)"
    using Cons.prems(2) by (intro fmap_ext) (auto simp: x fmlookup_of_list map_of_eq_None_iff fset_of_list.rep_eq rev_image_eqI split: option.splits)
  moreover have "decode_devices E account (map (record_wire \<circ> snd) xs) (fmupd i rc m)
      = Ok (fmupd i rc m ++\<^sub>f fmap_of_list xs)"
    using Cons.prems by (intro Cons.IH) (auto simp: x)
  ultimately show ?case using step by (simp only:)
qed simp

lemma registry_decode_wire:
  assumes "registry_inv E r" "of_json bs = Some (registry_wire r)"
  shows "registry_decode E of_json bs = Ok r"
proof -
  have "decode_devices E (reg_account_public_key r)
      (map (record_wire \<circ> snd) (sorted_list_of_fmap (devices r))) fmempty = Ok (devices r)"
    using assms(1)
    by (subst decode_devices_wire)
       (auto simp: registry_inv_def set_sorted_list_of_fmap distinct_sorted_list_of_fmap)
  then show ?thesis
    using assms by (simp add: registry_decode_def registry_wire_def fixed_bytes_def registry_inv_def
        KEY_BYTES_def list_ex_iff)
qed

lemma registry_reach_inv:
  "registry_reach E root r s \<Longrightarrow> registry_inv E r \<Longrightarrow> registry_inv E s"
proof (induction rule: registry_reach.induct)
  case (do_reload r s to_json bs of_json t)
  then show ?case using registry_decode_wire [of E s of_json bs] by simp
qed (simp_all add: register_inv revoke_inv)

lemma new_registry_inv: "length key = 32 \<Longrightarrow> registry_inv E (new_for_public_key key)"
  by (simp add: registry_inv_def new_for_public_key_def KEY_BYTES_def)


section \<open>Properties\<close>

text \<open>C22. Whatever a daemon does with the registry of an account (registering, revoking, restarting from
  the persisted form), a device it authorises at some time is registered under its own id with a
  certificate of this account whose root signature verifies, which is not revoked and whose validity
  window contains that time.\<close>
theorem authorized_devices_certified:
  assumes "length key = 32" "registry_reach E root (new_for_public_key key) r" "authorize E r i now = Ok ()"
  shows "\<exists>rc. fmlookup (devices r) i = Some rc \<and> cert_device_id (certificate rc) = i
    \<and> cert_account_public_key (certificate rc) = reg_account_public_key r
    \<and> verify_signature E (certificate rc) = Ok () \<and> dev_revoked_at rc = None
    \<and> cert_issued_at (certificate rc) \<le> now \<and> now < cert_expires_at (certificate rc)"
proof -
  have inv: "registry_inv E r"
    using registry_reach_inv assms(1,2) new_registry_inv by blast
  obtain rc where rc: "fmlookup (devices r) i = Some rc" "certificate_verify E (certificate rc) now = Ok ()"
    using assms(3) by (auto simp: authorize_def split: if_splits)
  have "device_ok E (reg_account_public_key r) i rc" using inv rc(1) by (simp add: registry_inv_def)
  with rc show ?thesis
    by (auto simp: device_ok_def certificate_verify_Ok)
qed

lemma registry_reach_revoked:
  assumes "registry_reach E root r s" "registry_inv E r"
    "fmlookup (devices r) i = Some rc" "dev_state rc = DeviceState.Revoked"
  shows "fmlookup (devices s) i = Some rc"
  using assms
proof (induction rule: registry_reach.induct)
  case (do_register r s c now)
  then show ?case
    by (cases "cert_device_id c = i") (auto simp: register_def split: sum.splits)
next
  case (do_revoke r s j t)
  then show ?case
    by (cases rule: revoke_cases [of E root j t s]) auto
next
  case (do_reload r s to_json bs of_json t)
  then show ?case
    using registry_decode_wire [of E s of_json bs] registry_reach_inv [of E root r s] by simp
qed simp

text \<open>C23. Revocation is final.  Once a revocation succeeded, no later sequence of registrations,
  revocations and restarts authorises the device again at any time, its record keeps the time of the
  revocation, and a new certificate for the same device id is refused as a duplicate or for its own
  defects.\<close>
theorem revocation_is_final:
  assumes "registry_inv E r" "revoke E root i t r = (Ok rv, r')" "registry_reach E root r' s"
  shows "authorize E s i now = Err DeviceNotActive
    \<and> map_option dev_revoked_at (fmlookup (devices s) i) = Some (Some t)
    \<and> (cert_device_id c = i \<longrightarrow> fst (register E c now s) \<noteq> Ok ())"
proof -
  obtain rc where rc: "fmlookup (devices r') i = Some rc" "dev_state rc = DeviceState.Revoked"
      "dev_revoked_at rc = Some t"
    using assms(2) by (cases rule: revoke_cases [of E root i t r]) auto
  have "registry_inv E r'" using revoke_inv [OF assms(1), of root i t] assms(2) by simp
  then have "fmlookup (devices s) i = Some rc"
    using registry_reach_revoked [OF assms(3)] rc by blast
  then show ?thesis using rc
    by (auto simp: authorize_def register_def split: sum.splits)
qed

text \<open>Every reachable registry can be persisted and read back unchanged: the loader accepts exactly
  what the daemon wrote, for every mixture of active and revoked devices, and keeps the bounded event
  list.\<close>
theorem registry_round_trip:
  assumes "length key = 32" "registry_reach E root (new_for_public_key key) r"
    and "registry_encode to_json r = Ok bs" "\<And>w b. to_json w = Some b \<Longrightarrow> of_json b = Some w"
  shows "registry_decode E of_json bs = Ok r \<and> length (reg_events r) \<le> MAX_DEVICE_EVENTS"
proof -
  have inv: "registry_inv E r"
    using registry_reach_inv assms(1,2) new_registry_inv by blast
  moreover have "of_json bs = Some (registry_wire r)"
    using assms(3,4) by (auto simp: registry_encode_def)
  ultimately show ?thesis
    using registry_decode_wire by (simp add: registry_inv_def)
qed

section \<open>Witnesses\<close>

definition demo_registry :: DeviceRegistry where
  "demo_registry = snd (register demo_ed demo_certificate 15 (new_for_public_key (replicate 32 7)))"

lemma demo_certificate_facts:
  "certificate_wf demo_certificate" "cert_account_public_key demo_certificate = replicate 32 7"
  "cert_device_id demo_certificate = ''phone-1''" "cert_device_public_key demo_certificate = replicate 32 1"
  "\<not> cert_revoked demo_certificate" "verify_signature demo_ed demo_certificate = Ok ()"
  "certificate_verify demo_ed demo_certificate 15 = Ok ()"
proof -
  have v: "validate_device_id ''phone-1'' = Ok ''phone-1''"
    by (simp add: validate_device_id_def MAX_DEVICE_ID_BYTES_def ascii_defs)
  show "certificate_verify demo_ed demo_certificate 15 = Ok ()"
    "verify_signature demo_ed demo_certificate = Ok ()"
    using signed_certificate_verify [OF demo_ed_correct v, of 10 20]
      signed_certificate_verify_signature [OF demo_ed_correct v, of 10 20]
    by (simp_all add: demo_certificate_def)
qed (simp_all add: certificate_wf_def demo_certificate_def signed_certificate_def Let_def demo_ed_def
    KEY_BYTES_def SIGNATURE_BYTES_def MAX_DEVICE_ID_BYTES_def)

lemma demo_registry_reach:
  "registry_reach demo_ed (replicate 32 7) (new_for_public_key (replicate 32 7)) demo_registry"
  unfolding demo_registry_def by (intro registry_reach.intros demo_certificate_facts)

lemma demo_registry_lookup:
  "fmlookup (devices demo_registry) ''phone-1'' =
     Some \<lparr> certificate = demo_certificate, dev_state = DeviceState.Active, dev_revoked_at = None \<rparr>"
  "reg_account_public_key demo_registry = replicate 32 7"
  by (simp_all add: demo_registry_def register_def demo_certificate_facts new_for_public_key_def)

theorem authorized_devices_certified_witness:
  "\<exists>rc. fmlookup (devices demo_registry) ''phone-1'' = Some rc \<and> dev_revoked_at rc = None"
proof -
  have "authorize demo_ed demo_registry ''phone-1'' 15 = Ok ()"
    by (simp add: authorize_def demo_registry_lookup demo_certificate_facts)
  from authorized_devices_certified [OF _ demo_registry_reach this] show ?thesis by auto
qed

theorem revocation_is_final_witness:
  "\<exists>rv r'. revoke demo_ed (replicate 32 7) ''phone-1'' 16 demo_registry = (Ok rv, r')
     \<and> authorize demo_ed r' ''phone-1'' 17 = Err DeviceNotActive"
proof -
  have inv: "registry_inv demo_ed demo_registry"
    using registry_reach_inv [OF demo_registry_reach] by (simp add: new_registry_inv)
  have "\<exists>rv r'. revoke demo_ed (replicate 32 7) ''phone-1'' 16 demo_registry = (Ok rv, r')"
    by (simp add: revoke_def demo_registry_lookup revoke_device_def apply_revocation_def
        revocation_verify_def matches_revocation_def demo_certificate_facts)
       (simp add: demo_ed_def validate_device_id_def MAX_DEVICE_ID_BYTES_def ascii_defs)
  then obtain rv r' where r: "revoke demo_ed (replicate 32 7) ''phone-1'' 16 demo_registry = (Ok rv, r')"
    by blast
  from revocation_is_final [OF inv r registry_reach.stay] r show ?thesis by blast
qed

theorem registry_round_trip_witness:
  "registry_decode demo_ed (\<lambda>b. if b = [1] then Some (registry_wire demo_registry) else None) [1]
     = Ok demo_registry"
  by (rule registry_round_trip
        [where to_json = "\<lambda>w. if w = registry_wire demo_registry then Some [1] else None",
         OF _ demo_registry_reach, THEN conjunct1])
     (auto simp: registry_encode_def split: if_splits)

end
