(* ===== verification/Device_Link.thy ===== *)
theory Device_Link
  imports Identity
begin

text \<open>
  Linking a new device (\<^verbatim>\<open>device_link.rs\<close>): the new device creates a key and a request, shows a one-time
  code, and the account's device approves the request with that code by issuing a certificate.  The
  random bytes, SHA-256, Ed25519, the JSON functions and the Unicode upper-case table are arguments.
\<close>

section \<open>Definitions\<close>

definition REQUEST_VERSION :: u16 where "REQUEST_VERSION = 1"
definition REQUEST_PREFIX :: string where "REQUEST_PREFIX = ''ADDLINKREQ1.''"
definition APPROVAL_PREFIX :: string where "APPROVAL_PREFIX = ''ADDLINKAPP1.''"
definition REQUEST_ID_BYTES :: nat where "REQUEST_ID_BYTES = 16"
definition CODE_BYTES :: nat where "CODE_BYTES = 16"
definition MAX_DEVICE_LINK_TTL :: u64 where "MAX_DEVICE_LINK_TTL = 10 * 60"

datatype DeviceLinkError =
  LinkRandomnessUnavailable | InvalidRequest | InvalidCode | LinkExpired | InvalidApproval
  | LinkIdentity IdentityError

record RequestWire =
  rq_version :: u16
  rq_request_id :: string
  rq_device_id :: string
  rq_device_public_key :: string
  rq_protocol_package_hash :: string
  rq_created_at :: u64
  rq_expires_at :: u64
  rq_request_digest :: string
  rq_code_hash :: string

record ApprovalWire =
  ap_version :: u16
  ap_request_id :: string
  ap_account_public_key :: string
  ap_device_id :: string
  ap_device_public_key :: string
  ap_protocol_package_hash :: string
  ap_issued_at :: u64
  ap_expires_at :: u64
  ap_signature :: string

record DeviceLinkRequest =
  dl_request_id :: bytes
  dl_device_id :: string
  dl_device_public_key :: bytes
  dl_protocol_package_hash :: bytes
  dl_created_at :: u64
  dl_expires_at :: u64
  dl_request_digest :: bytes
  dl_code_hash :: bytes

record PendingDeviceKey =
  pd_seed :: bytes
  pd_request :: DeviceLinkRequest

record DeviceLinkApproval =
  da_request_id :: bytes
  da_certificate :: DeviceCertificate

definition link_digest_input :: "bytes \<Rightarrow> string \<Rightarrow> bytes \<Rightarrow> bytes \<Rightarrow> u64 \<Rightarrow> u64 \<Rightarrow> bytes" where
  "link_digest_input request_id device_id key package created_at expires_at =
     append_bytes (append_bytes (append_bytes (append_bytes
       (as_bytes ''another-dimension/device-link-request/v1'' @ [0]) request_id) (as_bytes device_id)) key) package
     @ u64_be created_at @ u64_be expires_at"

definition digest_request ::
    "(bytes \<Rightarrow> bytes) \<Rightarrow> bytes \<Rightarrow> string \<Rightarrow> bytes \<Rightarrow> bytes \<Rightarrow> u64 \<Rightarrow> u64 \<Rightarrow> bytes" where
  "digest_request sha request_id device_id key package created_at expires_at =
     sha (link_digest_input request_id device_id key package created_at expires_at)"

definition hash_code :: "(bytes \<Rightarrow> bytes) \<Rightarrow> bytes \<Rightarrow> bytes \<Rightarrow> bytes" where
  "hash_code sha secret request_digest =
     sha (append_bytes (append_bytes (as_bytes ''another-dimension/device-link-code/v1'' @ [0]) secret) request_digest)"

definition link_normalize_code :: "(nat \<Rightarrow> nat list) \<Rightarrow> string \<Rightarrow> string option" where
  "link_normalize_code table s =
     (let v = (case utf8_decode s of
                 None \<Rightarrow> []
               | Some cs \<Rightarrow> concat (map utf8_encode_char (concat (map (upper_char table)
                   (filter (\<lambda>c. c \<noteq> code CHR ''-'' \<and> \<not> is_whitespace c) cs)))))
      in if length v = CODE_BYTES * 2 \<and> list_all is_ascii_hexdigit v then Some v else None)"

fun chunks4 :: "string \<Rightarrow> string list" where
  "chunks4 [] = []"
| "chunks4 (c # cs) = take 4 (c # cs) # chunks4 (drop 3 cs)"

definition format_code :: "bytes \<Rightarrow> string" where
  "format_code secret = to_ascii_uppercase (join_with CHR ''-'' (chunks4 (hex secret)))"

definition fixed_hex :: "nat \<Rightarrow> string \<Rightarrow> DeviceLinkError + bytes" where
  "fixed_hex n s =
     res_bind (ok_or (decode_hex s) InvalidRequest) (\<lambda>bs.
       if length bs = n then Ok bs else Err InvalidRequest)"

text \<open>\<open>seed\<close>, \<open>request_id\<close> and \<open>secret\<close> are the three answers of the random source.\<close>

definition pending_create ::
    "ed25519 \<Rightarrow> (bytes \<Rightarrow> bytes) \<Rightarrow> bytes option \<Rightarrow> bytes option \<Rightarrow> bytes option \<Rightarrow> string \<Rightarrow> bytes \<Rightarrow> u64
     \<Rightarrow> DeviceLinkError + (PendingDeviceKey \<times> string)" where
  "pending_create E sha seed request_id secret device_id package now =
     res_bind (ok_or seed LinkRandomnessUnavailable) (\<lambda>seed.
     res_bind (ok_or request_id LinkRandomnessUnavailable) (\<lambda>request_id.
     res_bind (ok_or secret LinkRandomnessUnavailable) (\<lambda>secret.
       let key = ed_public E seed;
           expires_at = sat_add now MAX_DEVICE_LINK_TTL;
           digest = digest_request sha request_id device_id key package now expires_at
       in Ok (\<lparr> pd_seed = seed, pd_request =
                \<lparr> dl_request_id = request_id, dl_device_id = device_id, dl_device_public_key = key,
                  dl_protocol_package_hash = package, dl_created_at = now, dl_expires_at = expires_at,
                  dl_request_digest = digest, dl_code_hash = hash_code sha secret digest \<rparr> \<rparr>,
              format_code secret))))"

definition request_wire :: "DeviceLinkRequest \<Rightarrow> RequestWire" where
  "request_wire r =
     \<lparr> rq_version = REQUEST_VERSION, rq_request_id = hex (dl_request_id r), rq_device_id = dl_device_id r,
       rq_device_public_key = hex (dl_device_public_key r),
       rq_protocol_package_hash = hex (dl_protocol_package_hash r),
       rq_created_at = dl_created_at r, rq_expires_at = dl_expires_at r,
       rq_request_digest = hex (dl_request_digest r), rq_code_hash = hex (dl_code_hash r) \<rparr>"

definition request_encode ::
    "(RequestWire \<Rightarrow> bytes option) \<Rightarrow> DeviceLinkRequest \<Rightarrow> DeviceLinkError + string" where
  "request_encode to_json r =
     res_bind (ok_or (to_json (request_wire r)) InvalidRequest) (\<lambda>bs. Ok (REQUEST_PREFIX @ hex bs))"

definition request_parse ::
    "(bytes \<Rightarrow> bytes) \<Rightarrow> (bytes \<Rightarrow> RequestWire option) \<Rightarrow> string \<Rightarrow> DeviceLinkError + DeviceLinkRequest" where
  "request_parse sha of_json s =
     res_bind (ok_or (strip_prefix s REQUEST_PREFIX) InvalidRequest) (\<lambda>encoded.
     res_bind (ok_or (decode_hex encoded) InvalidRequest) (\<lambda>bs.
     res_bind (ok_or (of_json bs) InvalidRequest) (\<lambda>wire.
     if rq_version wire \<noteq> REQUEST_VERSION then Err InvalidRequest
     else
       res_bind (fixed_hex REQUEST_ID_BYTES (rq_request_id wire)) (\<lambda>request_id.
       res_bind (fixed_hex 32 (rq_device_public_key wire)) (\<lambda>key.
       res_bind (fixed_hex 32 (rq_protocol_package_hash wire)) (\<lambda>package.
       res_bind (fixed_hex 32 (rq_request_digest wire)) (\<lambda>digest.
       res_bind (fixed_hex 32 (rq_code_hash wire)) (\<lambda>code_hash.
         if digest_request sha request_id (rq_device_id wire) key package (rq_created_at wire)
              (rq_expires_at wire) \<noteq> digest
            \<or> rq_expires_at wire \<le> rq_created_at wire
         then Err InvalidRequest
         else Ok \<lparr> dl_request_id = request_id, dl_device_id = rq_device_id wire,
                   dl_device_public_key = key, dl_protocol_package_hash = package,
                   dl_created_at = rq_created_at wire, dl_expires_at = rq_expires_at wire,
                   dl_request_digest = digest, dl_code_hash = code_hash \<rparr>))))))))"

definition request_approve ::
    "ed25519 \<Rightarrow> (bytes \<Rightarrow> bytes) \<Rightarrow> (nat \<Rightarrow> nat list) \<Rightarrow> DeviceLinkRequest \<Rightarrow> string \<Rightarrow> bytes \<Rightarrow> u64
     \<Rightarrow> DeviceLinkError + DeviceLinkApproval" where
  "request_approve E sha table r entered root now =
     (if dl_expires_at r \<le> now then Err LinkExpired
      else
        res_bind (ok_or (link_normalize_code table entered) InvalidCode) (\<lambda>normalized.
        res_bind (ok_or (decode_hex normalized) InvalidCode) (\<lambda>code_bytes.
        if length code_bytes \<noteq> CODE_BYTES \<or> hash_code sha code_bytes (dl_request_digest r) \<noteq> dl_code_hash r
        then Err InvalidCode
        else
          res_bind (map_err LinkIdentity (issue_device_for_public_key E root (dl_device_id r)
            (dl_device_public_key r) (dl_protocol_package_hash r) now (dl_expires_at r))) (\<lambda>c.
          Ok \<lparr> da_request_id = dl_request_id r, da_certificate = c \<rparr>))))"

definition approval_wire :: "DeviceLinkApproval \<Rightarrow> ApprovalWire" where
  "approval_wire a =
     (let c = da_certificate a in
      \<lparr> ap_version = REQUEST_VERSION, ap_request_id = hex (da_request_id a),
        ap_account_public_key = hex (cert_account_public_key c), ap_device_id = cert_device_id c,
        ap_device_public_key = hex (cert_device_public_key c),
        ap_protocol_package_hash = hex (cert_protocol_package_hash c),
        ap_issued_at = cert_issued_at c, ap_expires_at = cert_expires_at c,
        ap_signature = hex (cert_signature c) \<rparr>)"

definition approval_encode ::
    "(ApprovalWire \<Rightarrow> bytes option) \<Rightarrow> DeviceLinkApproval \<Rightarrow> DeviceLinkError + string" where
  "approval_encode to_json a =
     res_bind (ok_or (to_json (approval_wire a)) InvalidApproval) (\<lambda>bs. Ok (APPROVAL_PREFIX @ hex bs))"

definition approval_parse ::
    "ed25519 \<Rightarrow> (bytes \<Rightarrow> ApprovalWire option) \<Rightarrow> string \<Rightarrow> DeviceLinkError + DeviceLinkApproval" where
  "approval_parse E of_json s =
     (let fix_hex = (\<lambda>n v. map_err (\<lambda>_. InvalidApproval) (fixed_hex n v)) in
      res_bind (ok_or (strip_prefix s APPROVAL_PREFIX) InvalidApproval) (\<lambda>encoded.
      res_bind (ok_or (decode_hex encoded) InvalidApproval) (\<lambda>bs.
      res_bind (ok_or (of_json bs) InvalidApproval) (\<lambda>wire.
      if ap_version wire \<noteq> REQUEST_VERSION then Err InvalidApproval
      else
        res_bind (fix_hex REQUEST_ID_BYTES (ap_request_id wire)) (\<lambda>request_id.
        res_bind (fix_hex 32 (ap_account_public_key wire)) (\<lambda>account.
        res_bind (fix_hex 32 (ap_device_public_key wire)) (\<lambda>key.
        res_bind (fix_hex 32 (ap_protocol_package_hash wire)) (\<lambda>package.
        res_bind (fix_hex 64 (ap_signature wire)) (\<lambda>signature.
        res_bind (map_err (\<lambda>_. InvalidApproval) (from_parts E
          \<lparr> cert_account_public_key = account, cert_device_id = ap_device_id wire,
            cert_device_public_key = key, cert_protocol_package_hash = package,
            cert_issued_at = ap_issued_at wire, cert_expires_at = ap_expires_at wire,
            cert_signature = signature, cert_revoked = False \<rparr>)) (\<lambda>c.
        Ok \<lparr> da_request_id = request_id, da_certificate = c \<rparr>))))))))))"

definition verify_for ::
    "ed25519 \<Rightarrow> DeviceLinkApproval \<Rightarrow> DeviceLinkRequest \<Rightarrow> u64 \<Rightarrow> DeviceLinkError + unit" where
  "verify_for E a r now =
     (if da_request_id a \<noteq> dl_request_id r \<or> cert_device_id (da_certificate a) \<noteq> dl_device_id r
         \<or> cert_device_public_key (da_certificate a) \<noteq> dl_device_public_key r
         \<or> cert_protocol_package_hash (da_certificate a) \<noteq> dl_protocol_package_hash r
      then Err InvalidApproval
      else map_err LinkIdentity (certificate_verify E (da_certificate a) now))"

section \<open>The displayed code\<close>

lemma decode_hex_upper:
  assumes "list_all is_ascii_hexdigit s"
  shows "decode_hex (to_ascii_uppercase s) = decode_hex s"
proof -
  have "decode_pairs (map ascii_upper s) = decode_pairs s"
    using assms
    by (induction s rule: decode_pairs.induct) (auto simp: ascii_upper_hexdigit split: option.splits)
  then show ?thesis
    using assms by (auto simp: decode_hex_def to_ascii_uppercase_def list_all_iff ascii_upper_hexdigit)
qed

lemma filter_join:
  assumes "\<forall>s \<in> set ss. \<forall>c \<in> set s. P c" "\<not> P d"
  shows "filter P (join_with d ss) = concat ss"
  using assms by (induction d ss rule: join_with.induct) (simp_all add: filter_id_conv)

lemma map_join: "map f (join_with d ss) = join_with (f d) (map (map f) ss)"
  by (induction d ss rule: join_with.induct) simp_all

lemma concat_chunks4 [simp]: "concat (chunks4 s) = s"
  by (induction s rule: chunks4.induct) (auto simp: take_Cons' drop_Cons')

lemma set_chunks4: "t \<in> set (chunks4 s) \<Longrightarrow> c \<in> set t \<Longrightarrow> c \<in> set s"
  using concat_chunks4 [of s] by (metis UN_I set_concat)

lemma format_code_digits:
  assumes "c \<in> set (format_code bs)"
  shows "c = CHR ''-'' \<or> (\<exists>d. is_ascii_hexdigit d \<and> c = ascii_upper d)"
proof -
  have "c \<in> ascii_upper ` ({CHR ''-''} \<union> set (hex bs))" if "c \<in> set (map ascii_upper (join_with CHR ''-'' (chunks4 (hex bs))))"
  proof -
    have "set (join_with d ss) \<subseteq> insert d (\<Union> (set ` set ss))" for d and ss :: "string list"
      by (induction d ss rule: join_with.induct) auto
    from this [of "CHR ''-''" "chunks4 (hex bs)"] that show ?thesis
      by (auto dest: set_chunks4)
  qed
  moreover have "ascii_upper CHR ''-'' = CHR ''-''" by (simp add: ascii_upper_def ascii_defs)
  ultimately show ?thesis
    using assms hex_all_hexdigits [of bs] unfolding format_code_def to_ascii_uppercase_def list_all_iff by auto
qed

lemma filter_format_code:
  "filter (\<lambda>c. c \<noteq> CHR ''-'' \<and> \<not> is_whitespace (code c)) (format_code bs) = to_ascii_uppercase (hex bs)"
proof -
  have "ascii_upper CHR ''-'' = CHR ''-''" by (simp add: ascii_upper_def ascii_defs)
  then have "format_code bs = join_with CHR ''-'' (map (map ascii_upper) (chunks4 (hex bs)))"
    by (simp add: format_code_def to_ascii_uppercase_def map_join)
  moreover have "\<forall>s \<in> set (map (map ascii_upper) (chunks4 (hex bs))). \<forall>c \<in> set s.
      c \<noteq> CHR ''-'' \<and> \<not> is_whitespace (code c)"
    using hex_all_hexdigits [of bs] unfolding list_all_iff
    by (auto dest!: set_chunks4 simp: ascii_upper_hexdigit)
  ultimately show ?thesis
    by (simp add: filter_join map_concat [symmetric] to_ascii_uppercase_def)
qed

lemma concat_encode_upper:
  "list_all is_ascii t \<Longrightarrow>
   concat (map utf8_encode_char (concat (map (upper_char table) (map code t)))) = to_ascii_uppercase t"
  by (induction t) (simp_all add: upper_ascii_char to_ascii_uppercase_def)

lemma normalize_format_code:
  assumes "length bs = CODE_BYTES"
  shows "link_normalize_code table (format_code bs) = Some (to_ascii_uppercase (hex bs))"
proof -
  let ?f = "format_code bs" and ?u = "to_ascii_uppercase (hex bs)"
  have ascii: "list_all is_ascii ?f"
  proof -
    have "is_ascii CHR ''-''" by (simp add: is_ascii_def)
    then show ?thesis
      unfolding list_all_iff using format_code_digits [of _ bs] ascii_upper_hexdigit(5) by metis
  qed
  have hexd: "list_all is_ascii_hexdigit (hex bs)" by simp
  have u: "list_all is_ascii_hexdigit ?u" "list_all is_ascii ?u" "to_ascii_uppercase ?u = ?u"
    using hexd unfolding to_ascii_uppercase_def list_all_iff by (auto simp: ascii_upper_hexdigit)
  have "filter (\<lambda>c. c \<noteq> code CHR ''-'' \<and> \<not> is_whitespace c) (map code ?f) = map code ?u"
    unfolding filter_format_code [symmetric] filter_map o_def of_char_eq_iff by simp
  moreover have "length ?u = CODE_BYTES * 2"
    using assms by (simp add: to_ascii_uppercase_def)
  ultimately show ?thesis
    unfolding link_normalize_code_def utf8_decode_ascii [OF ascii] option.case Let_def
    by (simp only: concat_encode_upper [OF u(2)] u if_True simp_thms)
qed

section \<open>Linking\<close>

definition link_request_wf :: "(bytes \<Rightarrow> bytes) \<Rightarrow> DeviceLinkRequest \<Rightarrow> bool" where
  "link_request_wf sha r \<longleftrightarrow> length (dl_request_id r) = REQUEST_ID_BYTES \<and>
     length (dl_device_public_key r) = 32 \<and> length (dl_protocol_package_hash r) = 32 \<and>
     length (dl_request_digest r) = 32 \<and> length (dl_code_hash r) = 32 \<and>
     dl_created_at r < dl_expires_at r \<and>
     dl_request_digest r = digest_request sha (dl_request_id r) (dl_device_id r) (dl_device_public_key r)
       (dl_protocol_package_hash r) (dl_created_at r) (dl_expires_at r)"

lemma fixed_hex_hex [simp]: "fixed_hex n (hex bs) = (if length bs = n then Ok bs else Err InvalidRequest)"
  by (simp add: fixed_hex_def)

lemma fixed_hex_Ok: "fixed_hex n s = Ok bs \<Longrightarrow> length bs = n"
  by (auto simp: fixed_hex_def split: if_splits)

lemma request_parse_encode:
  assumes "link_request_wf sha r" "of_json bs = Some (request_wire r)"
  shows "request_parse sha of_json (REQUEST_PREFIX @ hex bs) = Ok r"
proof -
  obtain i d k p c e g h where "r = \<lparr> dl_request_id = i, dl_device_id = d, dl_device_public_key = k,
      dl_protocol_package_hash = p, dl_created_at = c, dl_expires_at = e, dl_request_digest = g,
      dl_code_hash = h \<rparr>" by (cases r)
  with assms show ?thesis
    by (auto simp: request_parse_def request_wire_def link_request_wf_def REQUEST_VERSION_def)
qed

lemma request_parse_wf:
  assumes "request_parse sha of_json s = Ok r"
  shows "link_request_wf sha r"
  using assms unfolding request_parse_def link_request_wf_def
  by (auto split: if_splits dest!: fixed_hex_Ok)


lemma pending_create_Ok:
  assumes "pending_create E sha seed rid secret d p now = Ok (pk, shown)"
  obtains sd i c where "seed = Some sd" "rid = Some i" "secret = Some c" "shown = format_code c" "pd_seed pk = sd"
    "dl_request_id (pd_request pk) = i" "dl_device_id (pd_request pk) = d"
    "dl_device_public_key (pd_request pk) = ed_public E sd" "dl_protocol_package_hash (pd_request pk) = p"
    "dl_created_at (pd_request pk) = now" "dl_expires_at (pd_request pk) = sat_add now MAX_DEVICE_LINK_TTL"
    "dl_request_digest (pd_request pk) =
       digest_request sha i d (ed_public E sd) p now (sat_add now MAX_DEVICE_LINK_TTL)"
    "dl_code_hash (pd_request pk) = hash_code sha c (dl_request_digest (pd_request pk))"
  using assms unfolding pending_create_def Let_def by (auto simp: that)

lemma less_sat_add_ttl: "now \<noteq> - 1 \<Longrightarrow> now < sat_add now MAX_DEVICE_LINK_TTL"
  by (rule less_sat_add) (simp_all add: MAX_DEVICE_LINK_TTL_def word_less_nat_alt)

lemma pending_request_wf:
  assumes "pending_create E sha seed rid secret d p now = Ok (pk, shown)" "ed_correct E" "sha_sized sha"
    and "\<And>i. rid = Some i \<Longrightarrow> length i = REQUEST_ID_BYTES" "length p = 32" "now \<noteq> - 1"
  shows "link_request_wf sha (pd_request pk)"
  using assms less_sat_add_ttl [OF assms(6)]
  by (elim pending_create_Ok)
     (auto simp: link_request_wf_def digest_request_def hash_code_def ed_correct_def sha_sized_def)


lemma approve_with_code:
  assumes "length c = CODE_BYTES" "dl_code_hash r = hash_code sha c (dl_request_digest r)"
    and "now < dl_expires_at r" "validate_device_id (dl_device_id r) = Ok (dl_device_id r)"
  shows "request_approve E sha table r (format_code c) root now = Ok
    \<lparr> da_request_id = dl_request_id r,
      da_certificate = signed_certificate E root (dl_device_id r) (dl_device_public_key r)
        (dl_protocol_package_hash r) now (dl_expires_at r) \<rparr>"
  using assms normalize_format_code [OF assms(1), of table] decode_hex_upper [of "hex c"]
  by (simp add: request_approve_def issue_device_for_public_key_def)

lemma approval_parse_encode:
  assumes "length (da_request_id a) = REQUEST_ID_BYTES" "certificate_wf (da_certificate a)"
    "verify_signature E (da_certificate a) = Ok ()" "\<not> cert_revoked (da_certificate a)"
    "of_json bs = Some (approval_wire a)"
  shows "approval_parse E of_json (APPROVAL_PREFIX @ hex bs) = Ok a"
  using assms
  by (cases a; cases "da_certificate a")
     (simp add: approval_parse_def approval_wire_def Let_def from_parts_def certificate_wf_def
        KEY_BYTES_def SIGNATURE_BYTES_def)

text \<open>C24. Linking a device works end to end.  The request a new device creates survives its text form.
  Entering the code the new device shows (with dashes and in upper case), before the request expires,
  yields an approval that survives its text form, carries a certificate of the approving account for
  exactly the requested device, key and package, and is accepted by the new device from its issue until
  the request expires, at most ten minutes after the request was made.\<close>
theorem link_flow_completes:
  assumes "ed_correct E" "sha_sized sha"
    and "pending_create E sha seed (Some rid) (Some secret) d package created = Ok (pending, shown)"
    and "length rid = REQUEST_ID_BYTES" "length secret = CODE_BYTES" "length package = 32" "created \<noteq> - 1"
    and "validate_device_id d = Ok d" "now < dl_expires_at (pd_request pending)"
    and "\<And>w b. to_json w = Some b \<Longrightarrow> of_json b = Some w" "\<And>w b. to_json' w = Some b \<Longrightarrow> of_json' b = Some w"
    and "request_encode to_json (pd_request pending) = Ok text"
  shows "request_parse sha of_json text = Ok (pd_request pending)
    \<and> (\<exists>a. request_approve E sha table (pd_request pending) shown root now = Ok a
        \<and> cert_account_public_key (da_certificate a) = ed_public E root
        \<and> unat (cert_expires_at (da_certificate a)) \<le> unat created + 600
        \<and> (\<forall>t. verify_for E a (pd_request pending) t = Ok ()
              \<longleftrightarrow> now \<le> t \<and> t < dl_expires_at (pd_request pending))
        \<and> (\<forall>s. approval_encode to_json' a = Ok s \<longrightarrow> approval_parse E of_json' s = Ok a))"
proof -
  let ?r = "pd_request pending"
  have wf: "link_request_wf sha ?r"
    using pending_request_wf [OF assms(3,1,2)] assms(4,6,7) by simp
  have r: "dl_request_id ?r = rid" "dl_device_id ?r = d" "dl_protocol_package_hash ?r = package"
      "dl_expires_at ?r = sat_add created MAX_DEVICE_LINK_TTL" "shown = format_code secret"
      "dl_code_hash ?r = hash_code sha secret (dl_request_digest ?r)"
    using assms(3) by (auto elim!: pending_create_Ok)
  define c where "c = signed_certificate E root d (dl_device_public_key ?r) package now (dl_expires_at ?r)"
  define a where "a = \<lparr> da_request_id = rid, da_certificate = c \<rparr>"
  have c: "cert_device_id c = d" "cert_device_public_key c = dl_device_public_key ?r"
      "cert_protocol_package_hash c = package" "cert_account_public_key c = ed_public E root"
      "cert_expires_at c = dl_expires_at ?r" "\<not> cert_revoked c"
    by (simp_all add: c_def signed_certificate_def Let_def)
  have cv: "verify_signature E c = Ok ()" "certificate_verify E c t = Ok () \<longleftrightarrow> now \<le> t \<and> t < dl_expires_at ?r" for t
    unfolding c_def using signed_certificate_verify_signature [OF assms(1,8,9)]
      signed_certificate_verify [OF assms(1,8,9)] by auto
  have cwf: "certificate_wf c"
    using wf assms(1) validate_device_id_Ok [OF assms(8)]
    by (simp add: certificate_wf_def c link_request_wf_def KEY_BYTES_def SIGNATURE_BYTES_def
        MAX_DEVICE_ID_BYTES_def assms(6) ed_correct_def) (simp add: c_def signed_certificate_def Let_def)
  have "request_approve E sha table ?r shown root now = Ok a"
    using approve_with_code [of secret ?r sha now E table root] r assms(5,8,9) by (simp add: a_def c_def)
  moreover have "request_parse sha of_json text = Ok ?r"
    using request_parse_encode [OF wf] assms(10,12) by (auto simp: request_encode_def)
  moreover have "unat (cert_expires_at (da_certificate a)) \<le> unat created + 600"
    by (simp add: a_def c r(4) unat_sat_add MAX_DEVICE_LINK_TTL_def)
  moreover have "verify_for E a ?r t = Ok () \<longleftrightarrow> now \<le> t \<and> t < dl_expires_at ?r" for t
    using cv(2) by (simp add: verify_for_def a_def r c)
  moreover have "approval_parse E of_json' s = Ok a" if "approval_encode to_json' a = Ok s" for s
  proof -
    obtain bs where "to_json' (approval_wire a) = Some bs" "s = APPROVAL_PREFIX @ hex bs"
      using \<open>approval_encode to_json' a = Ok s\<close> by (auto simp: approval_encode_def)
    then show ?thesis
      using approval_parse_encode [of a E of_json' bs] assms(4,11) cwf cv(1) c(6) by (simp add: a_def)
  qed
  ultimately show ?thesis using c(4) by (auto simp: a_def)
qed

text \<open>The digest of a link request covers every field an approval acts on: two requests with the same
  digest agree on the request id, the device id, the key, the package and both times, unless their
  digest inputs are a collision of SHA-256.\<close>
theorem link_digest_binds:
  assumes "link_request_wf sha r" "link_request_wf sha r'"
    and "length (dl_device_id r) < 2 ^ 32" "length (dl_device_id r') < 2 ^ 32"
    and "dl_request_digest r = dl_request_digest r'"
    and "\<nexists>m m'. m \<noteq> m' \<and> sha m = sha m'
      \<and> {m, m'} = (\<lambda>q. link_digest_input (dl_request_id q) (dl_device_id q) (dl_device_public_key q)
            (dl_protocol_package_hash q) (dl_created_at q) (dl_expires_at q)) ` {r, r'}"
  shows "r = r' \<lparr> dl_code_hash := dl_code_hash r \<rparr>"
proof -
  let ?m = "\<lambda>q. link_digest_input (dl_request_id q) (dl_device_id q) (dl_device_public_key q)
    (dl_protocol_package_hash q) (dl_created_at q) (dl_expires_at q)"
  have "sha (?m r) = sha (?m r')"
    using assms(1,2,5) by (simp add: link_request_wf_def digest_request_def)
  then have "?m r = ?m r'" using assms(6) by auto
  then show ?thesis
    using assms(1-5)
    by (cases r; cases r')
       (auto simp: link_digest_input_def append_bytes_def link_request_wf_def REQUEST_ID_BYTES_def
          frame_as_bytes_iff append_eq_append_conv)
qed

section \<open>Witnesses\<close>

definition demo_pending :: "PendingDeviceKey \<times> string" where
  "demo_pending = (case pending_create demo_ed (fit 32) (Some (replicate 32 3)) (Some (replicate 16 1))
     (Some (replicate 16 2)) ''phone-1'' (replicate 32 2) 100 of Inr p \<Rightarrow> p)"

lemma demo_pending_eq:
  "pending_create demo_ed (fit 32) (Some (replicate 32 3)) (Some (replicate 16 1)) (Some (replicate 16 2))
     ''phone-1'' (replicate 32 2) 100 = Ok (fst demo_pending, snd demo_pending)"
  by (simp add: demo_pending_def pending_create_def Let_def)

lemma demo_link_ttl: "sat_add 100 MAX_DEVICE_LINK_TTL = 700"
  by (simp add: sat_add_def MAX_DEVICE_LINK_TTL_def)

theorem link_flow_completes_witness:
  "\<exists>a. request_approve demo_ed (fit 32) (\<lambda>_. []) (pd_request (fst demo_pending)) (snd demo_pending)
        (replicate 32 7) 150 = Ok a
     \<and> verify_for demo_ed a (pd_request (fst demo_pending)) 200 = Ok ()"
proof -
  let ?r = "pd_request (fst demo_pending)"
  have e: "dl_expires_at ?r = 700"
    by (simp add: demo_pending_def pending_create_def Let_def demo_link_ttl)
  have v: "validate_device_id ''phone-1'' = Ok ''phone-1''"
    by (simp add: validate_device_id_def MAX_DEVICE_ID_BYTES_def ascii_defs)
  have flow: "request_parse (fit 32) (\<lambda>b. if b = [1] then Some (request_wire ?r) else None)
        (REQUEST_PREFIX @ hex [1]) = Ok ?r
    \<and> (\<exists>a. request_approve demo_ed (fit 32) (\<lambda>_. []) ?r (snd demo_pending) (replicate 32 7) 150 = Ok a
        \<and> cert_account_public_key (da_certificate a) = ed_public demo_ed (replicate 32 7)
        \<and> unat (cert_expires_at (da_certificate a)) \<le> unat (100::u64) + 600
        \<and> (\<forall>t. verify_for demo_ed a ?r t = Ok () \<longleftrightarrow> 150 \<le> t \<and> t < dl_expires_at ?r)
        \<and> (\<forall>s. approval_encode (\<lambda>_. None) a = Ok s \<longrightarrow> approval_parse demo_ed (\<lambda>_. None) s = Ok a))"
    by (rule link_flow_completes
          [where to_json = "\<lambda>w. if w = request_wire ?r then Some [1] else None", OF demo_ed_correct demo_sha_sized
           demo_pending_eq _ _ _ _ v])
       (auto simp: REQUEST_ID_BYTES_def CODE_BYTES_def e request_encode_def split: if_splits)
  then show ?thesis by (auto simp: e)
qed

theorem link_digest_binds_witness:
  "pd_request (fst demo_pending)
     = pd_request (fst demo_pending) \<lparr> dl_code_hash := dl_code_hash (pd_request (fst demo_pending)) \<rparr>"
proof -
  let ?r = "pd_request (fst demo_pending)"
  have "link_request_wf (fit 32) ?r"
    by (rule pending_request_wf [OF demo_pending_eq demo_ed_correct demo_sha_sized])
       (simp_all add: REQUEST_ID_BYTES_def)
  moreover have "length (dl_device_id ?r) < 2 ^ 32"
    by (simp add: demo_pending_def pending_create_def Let_def)
  ultimately show ?thesis
    by (intro link_digest_binds) auto
qed

end
