(* ===== verification/Trust.thy ===== *)
theory Trust
  imports AD_Text
begin

text \<open>
  Relay trust (\<^verbatim>\<open>trust.rs\<close>): the signed manifest of relay keys a daemon accepts, and the pin of a relay's
  TLS certificate.  The manifest file is the text the file system returned (\<open>None\<close> for a read error);
  SHA-256 and Ed25519 are arguments.
\<close>

section \<open>Definitions\<close>

abbreviation newline :: char where "newline \<equiv> CHR 0x0A"

definition MAX_MANIFEST_BYTES :: nat where "MAX_MANIFEST_BYTES = 64 * 1024"
definition MAX_TRUST_KEYS :: nat where "MAX_TRUST_KEYS = 256"

datatype TrustError = TrustIo | TrustInvalid

record RelayTrust =
  allowed_key_ids :: "string list"
  revoked_key_ids :: "string list"

definition trust_decode :: "string \<Rightarrow> nat \<Rightarrow> bytes option" where
  "trust_decode value expected =
     (if length value \<noteq> expected * 2 \<or> \<not> list_all is_ascii_hexdigit value then None
      else decode_pairs value)"

definition strip_suffix_char :: "char \<Rightarrow> string \<Rightarrow> string option" where
  "strip_suffix_char c s = (if s \<noteq> [] \<and> last s = c then Some (butlast s) else None)"

text \<open>\<^verbatim>\<open>split_inclusive\<close>: every piece keeps its separator, and there is no empty last piece.\<close>

fun split_inclusive :: "char \<Rightarrow> string \<Rightarrow> string list" where
  "split_inclusive c [] = []"
| "split_inclusive c (x # xs) =
     (if x = c then [x] # split_inclusive c xs
      else case split_inclusive c xs of [] \<Rightarrow> [[x]] | y # ys \<Rightarrow> (x # y) # ys)"

definition pin_parse :: "string \<Rightarrow> TrustError + bytes" where
  "pin_parse value =
     (case (case strip_prefix value ''sha256:'' of
              Some v \<Rightarrow> Some v | None \<Rightarrow> strip_prefix value ''sha256/'') of
        None \<Rightarrow> Err TrustInvalid
      | Some v \<Rightarrow> ok_or (trust_decode v 32) TrustInvalid)"

definition pin_as_text :: "bytes \<Rightarrow> string" where
  "pin_as_text pin = ''sha256:'' @ hex pin"

definition relay_tls_pin_record_key :: "string \<Rightarrow> string" where
  "relay_tls_pin_record_key origin = ''relay-tls-pin/'' @ origin"

definition manifest_field :: "string list \<Rightarrow> string \<Rightarrow> (string \<times> string list) option" where
  "manifest_field ls name =
     (case ls of
        [] \<Rightarrow> None
      | l # rest \<Rightarrow>
          (case strip_prefix l name of
             None \<Rightarrow> None
           | Some v \<Rightarrow> map_option (\<lambda>v. (v, rest)) (strip_suffix_char newline v)))"

text \<open>One payload line other than the end marker: a key or a revocation.\<close>

definition manifest_line ::
    "(bytes \<Rightarrow> bytes) \<Rightarrow> string \<Rightarrow> string list \<times> string list \<Rightarrow> (string list \<times> string list) option" where
  "manifest_line sha trimmed = (\<lambda>(allowed, revoked).
     case strip_prefix trimmed ''key='' of
       Some v \<Rightarrow>
         (case split_once '','' v of
            None \<Rightarrow> None
          | Some (key_id, public_key) \<Rightarrow>
              if trust_decode key_id 32 = None then None
              else (case trust_decode public_key 32 of
                 None \<Rightarrow> None
               | Some pk \<Rightarrow>
                   if hex (sha pk) \<noteq> key_id \<or> list_ex (\<lambda>i. i = key_id) allowed then None
                   else if MAX_TRUST_KEYS \<le> length allowed then None
                   else Some (allowed @ [key_id], revoked)))
     | None \<Rightarrow>
         (case strip_prefix trimmed ''revoked='' of
            Some key_id \<Rightarrow>
              if trust_decode key_id 32 = None then None else Some (allowed, revoked @ [key_id])
          | None \<Rightarrow> None))"

text \<open>The loop over the payload lines.  It returns the payload read so far, the keys and the lines after
  the end marker; running out of lines is the failed \<^verbatim>\<open>saw_end\<close> check.\<close>

fun manifest_lines ::
    "(bytes \<Rightarrow> bytes) \<Rightarrow> string list \<Rightarrow> string \<Rightarrow> string list \<times> string list
     \<Rightarrow> (string \<times> (string list \<times> string list) \<times> string list) option" where
  "manifest_lines sha [] payload acc = None"
| "manifest_lines sha (l # ls) payload acc =
     (case strip_suffix_char newline l of
        None \<Rightarrow> None
      | Some trimmed \<Rightarrow>
          if trimmed = ''payload-end'' then Some (payload @ l, acc, ls)
          else (case manifest_line sha trimmed acc of
                  None \<Rightarrow> None
                | Some acc' \<Rightarrow> manifest_lines sha ls (payload @ l) acc'))"

definition from_manifest ::
    "(bytes \<Rightarrow> bytes) \<Rightarrow> ed25519 \<Rightarrow> string option \<Rightarrow> bytes \<Rightarrow> TrustError + RelayTrust" where
  "from_manifest sha E file expected_bootstrap_key =
     res_bind (ok_or file TrustIo) (\<lambda>raw.
     if MAX_MANIFEST_BYTES < length raw then Err TrustInvalid
     else (case split_inclusive newline raw of
       [] \<Rightarrow> Err TrustInvalid
     | first # ls \<Rightarrow>
         if first \<noteq> ''ADRELAYTRUST1'' @ [newline] then Err TrustInvalid
         else res_bind (ok_or (manifest_field ls ''bootstrap='') TrustInvalid) (\<lambda>(bootstrap, ls).
           if bootstrap \<noteq> hex expected_bootstrap_key then Err TrustInvalid
           else res_bind (ok_or (manifest_lines sha ls (''bootstrap='' @ bootstrap @ [newline]) ([], []))
                            TrustInvalid) (\<lambda>(payload, (allowed, revoked), ls).
             if allowed = [] then Err TrustInvalid
             else res_bind (ok_or (manifest_field ls ''signature='') TrustInvalid) (\<lambda>(signature, ls).
               if ls \<noteq> [] then Err TrustInvalid
               else res_bind (ok_or (trust_decode signature 64) TrustInvalid) (\<lambda>signature_bytes.
                 if \<not> ed_key_ok E expected_bootstrap_key then Err TrustInvalid
                 else if \<not> ed_verify E expected_bootstrap_key (as_bytes payload) signature_bytes
                 then Err TrustInvalid
                 else if list_ex (\<lambda>i. \<not> list_ex (\<lambda>a. a = i) allowed) revoked then Err TrustInvalid
                 else Ok \<lparr> allowed_key_ids = allowed, revoked_key_ids = revoked \<rparr>))))))"

definition allows :: "(bytes \<Rightarrow> bytes) \<Rightarrow> RelayTrust \<Rightarrow> bytes \<Rightarrow> bool" where
  "allows sha t public_key =
     (let key_id = hex (sha public_key) in
      list_ex (\<lambda>i. i = key_id) (allowed_key_ids t) \<and> \<not> list_ex (\<lambda>i. i = key_id) (revoked_key_ids t))"

section \<open>Lines\<close>

lemma concat_split_inclusive [simp]: "concat (split_inclusive c s) = s"
  by (induction s) (auto split: list.split)

lemma split_inclusive_line:
  "c \<notin> set s \<Longrightarrow> split_inclusive c (s @ c # t) = (s @ [c]) # split_inclusive c t"
  by (induction s) auto

lemma strip_suffix_char_Some: "strip_suffix_char c s = Some t \<longleftrightarrow> s = t @ [c]"
  by (cases s rule: rev_cases) (auto simp: strip_suffix_char_def)

lemma strip_suffix_char_snoc [simp]: "strip_suffix_char c (s @ [c]) = Some s"
  by (simp add: strip_suffix_char_Some)

lemma manifest_field_Some:
  "manifest_field ls name = Some (v, rest) \<longleftrightarrow> ls = (name @ v @ [newline]) # rest"
  by (auto simp: manifest_field_def strip_prefix_Some strip_suffix_char_Some
      split: list.splits option.splits)

lemma list_ex_eq [simp]: "list_ex (\<lambda>i. i = a) xs \<longleftrightarrow> a \<in> set xs"
  by (auto simp: list_ex_iff)

lemma trust_decode_hex [simp]: "length bs = n \<Longrightarrow> trust_decode (hex bs) n = Some bs"
  by (simp add: trust_decode_def)

lemma hex_no_char: "\<not> is_ascii_hexdigit c \<Longrightarrow> c \<notin> set (hex bs)"
  using hex_all_hexdigits [of bs] by (auto simp: list_all_iff)

lemma hex_separators [simp]:
  "newline \<notin> set (hex bs)" "CHR '','' \<notin> set (hex bs)" "CHR ''.'' \<notin> set (hex bs)" "CHR ''-'' \<notin> set (hex bs)"
  by (simp_all add: hex_no_char ascii_defs)

lemma split_once_char: "c \<notin> set s \<Longrightarrow> split_once [c] (s @ c # t) = Some (s, t)"
  by (induction s) (auto simp: starts_with_def)

section \<open>What an accepted manifest is\<close>

text \<open>The invariant of the key lists while the payload lines are read.\<close>

definition trust_acc :: "(bytes \<Rightarrow> bytes) \<Rightarrow> string list \<times> string list \<Rightarrow> bool" where
  "trust_acc sha acc \<longleftrightarrow> distinct (fst acc) \<and> length (fst acc) \<le> MAX_TRUST_KEYS \<and>
     (\<forall>i \<in> set (fst acc). \<exists>pk. length pk = 32 \<and> i = hex (sha pk))"

lemma trust_decode_length: "trust_decode s n = Some bs \<Longrightarrow> length bs = n"
  by (auto simp: trust_decode_def split: if_splits dest!: decode_pairs_length)

lemma manifest_line_acc:
  "manifest_line sha t acc = Some acc' \<Longrightarrow> trust_acc sha acc \<Longrightarrow> trust_acc sha acc'"
  unfolding manifest_line_def trust_acc_def
  by (auto split: prod.splits option.splits if_splits dest!: trust_decode_length)

lemma manifest_lines_sound:
  assumes "manifest_lines sha ls payload acc = Some (payload', acc', rest)" "trust_acc sha acc"
  shows "payload @ concat ls = payload' @ concat rest \<and> trust_acc sha acc'"
  using assms
proof (induction sha ls payload acc rule: manifest_lines.induct)
  case (2 sha l ls payload acc)
  then show ?case
    using manifest_line_acc by (fastforce split: option.splits if_splits)
qed simp

lemma manifest_lines_prefix:
  "manifest_lines sha ls payload acc = Some (payload', acc', rest) \<Longrightarrow> \<exists>more. payload' = payload @ more"
  by (induction sha ls payload acc rule: manifest_lines.induct) (fastforce split: option.splits if_splits)+

lemma from_manifest_Ok:
  assumes "from_manifest sha E file key = Ok t"
  obtains payload signature sb rest where
    "file = Some (''ADRELAYTRUST1'' @ [newline] @ payload @ ''signature='' @ signature @ [newline])"
    "trust_acc sha (allowed_key_ids t, revoked_key_ids t)" "allowed_key_ids t \<noteq> []"
    "trust_decode signature 64 = Some sb" "ed_key_ok E key" "ed_verify E key (as_bytes payload) sb"
    "set (revoked_key_ids t) \<subseteq> set (allowed_key_ids t)"
    "payload = ''bootstrap='' @ hex key @ [newline] @ rest"
proof -
  obtain raw ls1 ls2 payload allowed revoked signature sb where
    raw: "file = Some raw" "split_inclusive newline raw = (''ADRELAYTRUST1'' @ [newline]) # ls1"
    and b: "manifest_field ls1 ''bootstrap='' = Some (hex key, ls2)"
    and l: "manifest_lines sha ls2 (''bootstrap='' @ hex key @ [newline]) ([], [])
      = Some (payload, (allowed, revoked), [''signature='' @ signature @ [newline]])"
    and r: "allowed \<noteq> []" "trust_decode signature 64 = Some sb" "ed_key_ok E key"
      "ed_verify E key (as_bytes payload) sb" "set revoked \<subseteq> set allowed"
      "t = \<lparr> allowed_key_ids = allowed, revoked_key_ids = revoked \<rparr>"
    using assms unfolding from_manifest_def
    by (auto simp: list_ex_iff manifest_field_Some subset_iff split: if_splits list.splits prod.splits)
  have acc: "trust_acc sha (allowed, revoked)"
    and eq: "(''bootstrap='' @ hex key @ [newline]) @ concat ls2
      = payload @ ''signature='' @ signature @ [newline]"
    using manifest_lines_sound [OF l] by (simp_all add: trust_acc_def)
  have "raw = concat (split_inclusive newline raw)" by simp
  also have "\<dots> = ''ADRELAYTRUST1'' @ [newline] @ concat ls1" unfolding raw(2) by simp
  also have "concat ls1 = (''bootstrap='' @ hex key @ [newline]) @ concat ls2"
    using b by (simp add: manifest_field_Some)
  finally have raw': "raw = ''ADRELAYTRUST1'' @ [newline] @ payload @ ''signature='' @ signature @ [newline]"
    using eq by simp
  obtain rest where "payload = ''bootstrap='' @ hex key @ [newline] @ rest"
    using manifest_lines_prefix [OF l] by auto
  with that raw' raw(1) acc r show thesis by simp
qed


section \<open>Publishing a manifest\<close>

text \<open>The manifest a publisher writes for given relay keys and revocations.\<close>

definition key_line :: "(bytes \<Rightarrow> bytes) \<Rightarrow> bytes \<Rightarrow> string" where
  "key_line sha pk = ''key='' @ hex (sha pk) @ '','' @ hex pk @ [newline]"

definition revoked_line :: "(bytes \<Rightarrow> bytes) \<Rightarrow> bytes \<Rightarrow> string" where
  "revoked_line sha pk = ''revoked='' @ hex (sha pk) @ [newline]"

definition manifest_payload :: "(bytes \<Rightarrow> bytes) \<Rightarrow> bytes \<Rightarrow> bytes list \<Rightarrow> bytes list \<Rightarrow> string" where
  "manifest_payload sha key keys revoked = ''bootstrap='' @ hex key @ [newline]
     @ concat (map (key_line sha) keys) @ concat (map (revoked_line sha) revoked)
     @ ''payload-end'' @ [newline]"

definition manifest_text :: "(bytes \<Rightarrow> bytes) \<Rightarrow> ed25519 \<Rightarrow> bytes \<Rightarrow> bytes list \<Rightarrow> bytes list \<Rightarrow> string" where
  "manifest_text sha E sk keys revoked =
     (let payload = manifest_payload sha (ed_public E sk) keys revoked in
      ''ADRELAYTRUST1'' @ [newline] @ payload @ ''signature='' @ hex (ed_sign E sk (as_bytes payload))
      @ [newline])"

lemma manifest_line_key:
  assumes "sha_sized sha" "length pk = 32" "hex (sha pk) \<notin> set allowed" "length allowed < MAX_TRUST_KEYS"
  shows "manifest_line sha (''key='' @ hex (sha pk) @ '','' @ hex pk) (allowed, revoked)
    = Some (allowed @ [hex (sha pk)], revoked)"
  using assms split_once_char [of "CHR '',''" "hex (sha pk)" "hex pk"] strip_prefix_append [of "''key=''"]
  by (simp add: manifest_line_def sha_sized_def)

lemma manifest_line_revoked:
  assumes "sha_sized sha"
  shows "manifest_line sha (''revoked='' @ hex (sha pk)) (allowed, revoked)
    = Some (allowed, revoked @ [hex (sha pk)])"
  using assms strip_prefix_append [of "''revoked=''" "hex (sha pk)"]
  by (simp add: manifest_line_def sha_sized_def strip_prefix_def [of _ "''key=''"] starts_with_def)

lemma manifest_lines_keys:
  assumes "sha_sized sha" "\<forall>pk \<in> set keys. length pk = 32"
    "distinct (allowed @ map (\<lambda>pk. hex (sha pk)) keys)" "length allowed + length keys \<le> MAX_TRUST_KEYS"
  shows "manifest_lines sha (map (key_line sha) keys @ ls) payload (allowed, revoked)
    = manifest_lines sha ls (payload @ concat (map (key_line sha) keys))
        (allowed @ map (\<lambda>pk. hex (sha pk)) keys, revoked)"
  using assms
proof (induction keys arbitrary: payload allowed)
  case (Cons pk keys)
  have "strip_suffix_char newline (key_line sha pk) = Some (''key='' @ hex (sha pk) @ '','' @ hex pk)"
    by (simp add: key_line_def strip_suffix_char_Some)
  then show ?case
    using Cons manifest_line_key [of sha pk allowed revoked] by simp
qed simp

lemma manifest_lines_revoked:
  assumes "sha_sized sha"
  shows "manifest_lines sha (map (revoked_line sha) rs @ ls) payload (allowed, revoked)
    = manifest_lines sha ls (payload @ concat (map (revoked_line sha) rs))
        (allowed, revoked @ map (\<lambda>pk. hex (sha pk)) rs)"
proof (induction rs arbitrary: payload revoked)
  case (Cons pk rs)
  have "strip_suffix_char newline (revoked_line sha pk) = Some (''revoked='' @ hex (sha pk))"
    by (simp add: revoked_line_def strip_suffix_char_Some)
  then show ?case
    using Cons manifest_line_revoked [OF assms, of pk allowed revoked] by simp
qed simp

lemma split_inclusive_lines:
  "\<forall>l \<in> set ls. \<exists>s. l = s @ [c] \<and> c \<notin> set s \<Longrightarrow> split_inclusive c (concat ls @ t) = ls @ split_inclusive c t"
proof (induction ls)
  case (Cons l ls)
  then obtain s where l: "l = s @ [c]" "c \<notin> set s" by auto
  show ?case
    using Cons split_inclusive_line [OF l(2), of "concat ls @ t"] by (simp add: l(1))
qed simp

lemma manifest_text_lines:
  "split_inclusive newline (manifest_text sha E sk keys revoked) =
     [''ADRELAYTRUST1'' @ [newline], ''bootstrap='' @ hex (ed_public E sk) @ [newline]]
     @ map (key_line sha) keys @ map (revoked_line sha) revoked
     @ [''payload-end'' @ [newline],
        ''signature='' @ hex (ed_sign E sk (as_bytes (manifest_payload sha (ed_public E sk) keys revoked)))
          @ [newline]]" (is "_ = ?ls")
proof -
  have ends: "\<exists>s. l = s @ [newline] \<and> newline \<notin> set s" if "l \<in> set ?ls" for l
  proof -
    have "newline \<notin> set (butlast l) \<and> l = butlast l @ [newline]"
      using that by (auto simp: key_line_def revoked_line_def butlast_append)
    then show ?thesis by blast
  qed
  have "manifest_text sha E sk keys revoked = concat ?ls @ []"
    by (simp add: manifest_text_def manifest_payload_def Let_def)
  then show ?thesis
    using split_inclusive_lines [of ?ls newline "[]"] ends by simp
qed

lemma manifest_accepted:
  assumes "sha_sized sha" "ed_correct E"
    and "\<forall>pk \<in> set keys. length pk = 32" "distinct (map (\<lambda>pk. hex (sha pk)) keys)"
    and "keys \<noteq> []" "length keys \<le> MAX_TRUST_KEYS" "set revoked \<subseteq> set keys"
    and "length (manifest_text sha E sk keys revoked) \<le> MAX_MANIFEST_BYTES"
  shows "from_manifest sha E (Some (manifest_text sha E sk keys revoked)) (ed_public E sk) = Ok
    \<lparr> allowed_key_ids = map (\<lambda>pk. hex (sha pk)) keys, revoked_key_ids = map (\<lambda>pk. hex (sha pk)) revoked \<rparr>"
proof -
  define payload where "payload = manifest_payload sha (ed_public E sk) keys revoked"
  define sig where "sig = ed_sign E sk (as_bytes payload)"
  define ids where "ids = map (\<lambda>pk. hex (sha pk))"
  let ?b = "''bootstrap='' @ hex (ed_public E sk) @ [newline]"
  let ?tail = "[''payload-end'' @ [newline], ''signature='' @ hex sig @ [newline]]"
  have sig: "length sig = 64" "ed_verify E (ed_public E sk) (as_bytes payload) sig"
    "ed_key_ok E (ed_public E sk)"
    using assms(2) by (simp_all add: ed_correct_def sig_def)
  have lines: "manifest_lines sha (map (key_line sha) keys @ map (revoked_line sha) revoked @ ?tail) ?b ([], [])
      = Some (payload, (ids keys, ids revoked), [''signature='' @ hex sig @ [newline]])"
    using assms strip_suffix_char_snoc [of newline "''payload-end''"]
    by (simp add: manifest_lines_keys manifest_lines_revoked payload_def manifest_payload_def ids_def)
  have split: "split_inclusive newline (manifest_text sha E sk keys revoked)
      = (''ADRELAYTRUST1'' @ [newline]) # ?b # map (key_line sha) keys @ map (revoked_line sha) revoked @ ?tail"
    unfolding manifest_text_lines sig_def payload_def by simp
  have field: "manifest_field (?b # ls) ''bootstrap='' = Some (hex (ed_public E sk), ls)" for ls
    by (simp only: manifest_field_Some)
  have sfield: "manifest_field [''signature='' @ hex sig @ [newline]] ''signature='' = Some (hex sig, [])"
    by (simp only: manifest_field_Some)
  have sub: "list_ex (\<lambda>i. \<not> list_ex (\<lambda>a. a = i) (ids keys)) (ids revoked) = False"
    using assms(7) by (auto simp: list_ex_iff ids_def)
  have ne: "ids keys \<noteq> []" using assms(5) by (simp add: ids_def)
  show ?thesis
    unfolding from_manifest_def ok_or.simps res_bind.simps split list.case field lines sfield prod.case
    using assms(8) ne sig sub by (simp add: ids_def)
qed

text \<open>C21. A manifest written for at most 256 relay keys with distinct identifiers and signed with the
  bootstrap key is accepted under that bootstrap key, and the resulting trust allows exactly the listed
  keys that are not revoked (keys are told apart by their SHA-256 identifier).\<close>
theorem manifest_round_trip:
  assumes "sha_sized sha" "ed_correct E"
    and "\<forall>pk \<in> set keys. length pk = 32" "distinct (map (\<lambda>pk. hex (sha pk)) keys)"
    and "keys \<noteq> []" "length keys \<le> MAX_TRUST_KEYS" "set revoked \<subseteq> set keys"
    and "length (manifest_text sha E sk keys revoked) \<le> MAX_MANIFEST_BYTES"
  shows "\<exists>t. from_manifest sha E (Some (manifest_text sha E sk keys revoked)) (ed_public E sk) = Ok t
    \<and> (\<forall>pk. allows sha t pk \<longleftrightarrow> sha pk \<in> sha ` set keys \<and> sha pk \<notin> sha ` set revoked)"
  unfolding manifest_accepted [OF assms] by (auto simp: allows_def Let_def)

text \<open>A TLS pin printed as text parses back to the same 32 bytes.\<close>
theorem pin_round_trip:
  assumes "length pin = 32"
  shows "pin_parse (pin_as_text pin) = Ok pin"
  unfolding pin_parse_def pin_as_text_def strip_prefix_append option.case
  using assms by simp

section \<open>Witnesses\<close>

lemma demo_keys:
  "\<forall>pk \<in> set [replicate 32 1, replicate 32 2 :: bytes]. length pk = 32"
  "distinct (map (\<lambda>pk. hex (fit 32 pk)) [replicate 32 1, replicate 32 2])"
  "length (manifest_text (fit 32) demo_ed (replicate 32 9) [replicate 32 1, replicate 32 2]
     [replicate 32 2]) \<le> MAX_MANIFEST_BYTES"
  by (simp, simp add: replicate_eq_replicate,
      simp add: manifest_text_def manifest_payload_def key_line_def revoked_line_def Let_def
        demo_ed_def MAX_MANIFEST_BYTES_def)

lemma demo_key:
  "\<forall>pk \<in> set [replicate 32 1 :: bytes]. length pk = 32"
  "distinct (map (\<lambda>pk. hex (fit 32 pk)) [replicate 32 1])" "[replicate 32 1 :: bytes] \<noteq> []"
  "length [replicate 32 1 :: bytes] \<le> MAX_TRUST_KEYS" "set ([] :: bytes list) \<subseteq> set [replicate 32 1]"
  "length (manifest_text (fit 32) demo_ed (replicate 32 9) [replicate 32 1] []) \<le> MAX_MANIFEST_BYTES"
  by (simp_all add: manifest_text_def manifest_payload_def key_line_def Let_def
      demo_ed_def MAX_MANIFEST_BYTES_def MAX_TRUST_KEYS_def)

theorem manifest_round_trip_witness:
  "\<exists>t. from_manifest (fit 32) demo_ed (Some (manifest_text (fit 32) demo_ed (replicate 32 9)
          [replicate 32 1, replicate 32 2] [replicate 32 2])) (ed_public demo_ed (replicate 32 9)) = Ok t
     \<and> allows (fit 32) t (replicate 32 1) \<and> \<not> allows (fit 32) t (replicate 32 2)"
proof -
  have "fit 32 (replicate 32 1) \<noteq> (fit 32 (replicate 32 2) :: bytes)"
    by (simp add: replicate_eq_replicate)
  with manifest_round_trip [OF demo_sha_sized demo_ed_correct demo_keys(1,2) _ _ _ demo_keys(3)]
  show ?thesis by (auto simp: MAX_TRUST_KEYS_def)
qed


theorem pin_round_trip_witness: "pin_parse (pin_as_text (replicate 32 5)) = Ok (replicate 32 5)"
  by (rule pin_round_trip) simp

end
