(* ===== verification/Invite.thy ===== *)
theory Invite
  imports Identity Trust Protocol_Gate
begin

text \<open>
  Signed invites and relay receipts (\<^verbatim>\<open>authority.rs\<close>, with the text helpers of \<^verbatim>\<open>bridge_http.rs\<close>): the text of an
  invite, its verification with and without the one-time code, the relay's receipt for a consumed
  invite, and the check that an inbox address belongs to the relay of the invite.

  The URI parser is an argument: it returns the scheme, authority, path and query of an address.
\<close>

section \<open>Definitions\<close>

definition MAX_INVITE_TTL_SECONDS :: u64 where "MAX_INVITE_TTL_SECONDS = 10 * 60"

record VerifiedInvite =
  inv_account_id :: string
  inv_device_id :: string
  inv_expires_at :: u64
  inv_relay_origin :: string
  inv_inbox_url :: "string option"
  inv_conversation_id :: "string option"

record uri =
  uri_scheme :: "string option"
  uri_authority :: "string option"
  uri_path :: string
  uri_query :: "string option"

type_synonym uri_parser = "string \<Rightarrow> uri option"

definition hex_decode :: "string \<Rightarrow> bytes option" where
  "hex_decode s = (if s = [] \<or> odd (length s) then None else decode_pairs s)"

definition mls_device_credential :: "string \<Rightarrow> string \<Rightarrow> bytes" where
  "mls_device_credential account_id device_id =
     as_bytes (''ADDEVICE1'' @ [newline] @ account_id @ [newline] @ device_id)"

definition capability_ok :: "string \<Rightarrow> bool" where
  "capability_ok s \<longleftrightarrow> length s = 43 \<and>
     list_all (\<lambda>c. is_ascii_alphanumeric c \<or> c = CHR ''_'' \<or> c = CHR ''-'') s"

definition validate_bound_inbox_url :: "uri_parser \<Rightarrow> string \<Rightarrow> string \<Rightarrow> unit + unit" where
  "validate_bound_inbox_url parse relay_origin inbox_url =
     res_bind (ok_or (parse inbox_url) ()) (\<lambda>u.
     res_bind (ok_or (uri_scheme u) ()) (\<lambda>scheme.
     if scheme \<noteq> ''http'' \<and> scheme \<noteq> ''https'' then Err ()
     else res_bind (ok_or (uri_authority u) ()) (\<lambda>authority.
       if scheme @ ''://'' @ authority \<noteq> relay_origin \<or> uri_query u \<noteq> None
          \<or> \<not> starts_with (uri_path u) ''/api/v1/inbox/''
       then Err ()
       else if \<not> capability_ok (last (split_on CHR ''/'' (uri_path u))) then Err ()
       else Ok ())))"

definition non_empty :: "string \<Rightarrow> string option" where
  "non_empty s = (if s = [] then None else Some s)"

text \<open>The optional seventh and eighth lines of the payload; more lines are an error.\<close>

definition optional_lines :: "string list \<Rightarrow> (string option \<times> string option) option" where
  "optional_lines ls =
     (case ls of
        [] \<Rightarrow> Some (None, None)
      | [i] \<Rightarrow> Some (non_empty i, None)
      | [i, c] \<Rightarrow> Some (non_empty i, non_empty c)
      | _ \<Rightarrow> None)"

text \<open>The payload lines: account, device, code hash and invite.\<close>

definition invite_fields :: "string \<Rightarrow> (string \<times> VerifiedInvite) option" where
  "invite_fields payload =
     (case split_on newline payload of
        v # account_id # device_id # code_hash # expires # relay_origin # rest \<Rightarrow>
          if v \<noteq> ''another-dimension/invite/v1'' then None
          else (case (parse_u64 (map code expires), optional_lines rest) of
             (Some expires_at, Some (inbox, conversation)) \<Rightarrow>
               Some (code_hash,
                 \<lparr> inv_account_id = account_id, inv_device_id = device_id, inv_expires_at = expires_at,
                   inv_relay_origin = relay_origin, inv_inbox_url = inbox,
                   inv_conversation_id = conversation \<rparr>)
           | _ \<Rightarrow> None)
      | _ \<Rightarrow> None)"

definition invite_plausible :: "uri_parser \<Rightarrow> VerifiedInvite \<Rightarrow> u64 \<Rightarrow> bool" where
  "invite_plausible parse v now \<longleftrightarrow>
     starts_with (inv_account_id v) ''ad1pk'' \<and> now < inv_expires_at v \<and>
     inv_expires_at v \<le> sat_add now MAX_INVITE_TTL_SECONDS \<and>
     (case inv_conversation_id v of None \<Rightarrow> True
      | Some c \<Rightarrow> starts_with c ''adconv'' \<and> length c \<le> 80) \<and>
     (case inv_inbox_url v of None \<Rightarrow> True
      | Some i \<Rightarrow> is_ok (validate_bound_inbox_url parse (inv_relay_origin v) i))"

definition without_dashes :: "string \<Rightarrow> string" where
  "without_dashes s = filter (\<lambda>c. c \<noteq> CHR ''-'') s"

definition verify_signed_invite_with_code ::
    "uri_parser \<Rightarrow> (bytes \<Rightarrow> bytes) \<Rightarrow> ed25519 \<Rightarrow> string option \<Rightarrow> string \<Rightarrow> u64 \<Rightarrow> VerifiedInvite option" where
  "verify_signed_invite_with_code parse sha E expected_code signed_invite now =
     (case split_on CHR ''.'' signed_invite of
        [tag, p, s] \<Rightarrow>
          if tag \<noteq> ''ADDAINV1'' then None
          else (case (hex_decode p, hex_decode s) of
             (Some payload, Some signature) \<Rightarrow>
               if length signature \<noteq> 64 \<or> \<not> utf8_valid (bytes_to_string payload) then None
               else (case invite_fields (bytes_to_string payload) of
                  None \<Rightarrow> None
                | Some (code_hash, v) \<Rightarrow>
                    if \<not> invite_plausible parse v now then None
                    else (case Option.bind (strip_prefix (inv_account_id v) ''ad1pk'') hex_decode of
                       None \<Rightarrow> None
                     | Some public_key \<Rightarrow>
                         if length public_key \<noteq> 32 \<or> \<not> list_all is_ascii_hexdigit code_hash
                            \<or> length code_hash \<noteq> 64 then None
                         else if (case expected_code of None \<Rightarrow> False | Some c \<Rightarrow>
                                    c = [] \<or> code_hash \<noteq> hex (sha (as_bytes (without_dashes c))))
                         then None
                         else if \<not> ed_key_ok E public_key \<or> \<not> ed_verify E public_key payload signature
                         then None
                         else Some v))
           | _ \<Rightarrow> None)
      | _ \<Rightarrow> None)"

definition verify_signed_invite ::
    "uri_parser \<Rightarrow> (bytes \<Rightarrow> bytes) \<Rightarrow> ed25519 \<Rightarrow> string \<Rightarrow> string \<Rightarrow> u64 \<Rightarrow> VerifiedInvite option" where
  "verify_signed_invite parse sha E c = verify_signed_invite_with_code parse sha E (Some c)"

definition verify_signed_invite_unbound ::
    "uri_parser \<Rightarrow> (bytes \<Rightarrow> bytes) \<Rightarrow> ed25519 \<Rightarrow> string \<Rightarrow> u64 \<Rightarrow> VerifiedInvite option" where
  "verify_signed_invite_unbound parse sha E = verify_signed_invite_with_code parse sha E None"

text \<open>The code and the signed text \<^verbatim>\<open>InviteAuthority::create\<close> makes from 32 random bytes.\<close>

definition invite_code :: "bytes \<Rightarrow> string" where
  "invite_code random = to_ascii_uppercase (hex random)"

definition invite_payload :: "string \<Rightarrow> VerifiedInvite \<Rightarrow> string" where
  "invite_payload code_hash v =
     join_with newline [''another-dimension/invite/v1'', inv_account_id v, inv_device_id v, code_hash,
       u64_to_string (inv_expires_at v), inv_relay_origin v,
       case inv_inbox_url v of None \<Rightarrow> [] | Some i \<Rightarrow> i,
       case inv_conversation_id v of None \<Rightarrow> [] | Some c \<Rightarrow> c]"

definition signed_invite_text :: "ed25519 \<Rightarrow> bytes \<Rightarrow> string \<Rightarrow> string" where
  "signed_invite_text E root payload =
     ''ADDAINV1.'' @ hex (as_bytes payload) @ ''.'' @ hex (ed_sign E root (as_bytes payload))"

text \<open>The receipt of a relay for a consumed invite.\<close>

definition verify_relay_receipt ::
    "(bytes \<Rightarrow> bytes) \<Rightarrow> ed25519 \<Rightarrow> (nat \<Rightarrow> nat list) \<Rightarrow> string \<Rightarrow> string \<Rightarrow> string \<Rightarrow> VerifiedInvite
     \<Rightarrow> bytes option \<Rightarrow> RelayTrust option \<Rightarrow> u64 \<Rightarrow> bool" where
  "verify_relay_receipt sha E table entered signed_invite receipt invite public_key relay_trust now =
     (case (split_on CHR ''.'' receipt, public_key) of
        ([p0, p1, p2, p3, p4, p5, p6], Some pk) \<Rightarrow>
          p0 = ''ADRECEIPT1'' \<and>
          (case relay_trust of None \<Rightarrow> True | Some t \<Rightarrow> allows sha t pk) \<and>
          (let o_bytes = bytes_to_string (case hex_decode p2 of None \<Rightarrow> [] | Some b \<Rightarrow> b)
           in utf8_valid o_bytes \<and> o_bytes = inv_relay_origin invite) \<and>
          p1 = hex (sha pk) \<and>
          p3 = hex (sha (as_bytes (normalize_code table entered))) \<and>
          p4 = hex (sha (as_bytes signed_invite)) \<and>
          (case parse_u64 (map code p5) of None \<Rightarrow> False | Some consumed \<Rightarrow> consumed \<le> sat_add now 300) \<and>
          (case hex_decode p6 of None \<Rightarrow> False
           | Some signature \<Rightarrow> length signature = 64 \<and> ed_key_ok E pk \<and>
               ed_verify_strict E pk (as_bytes (join_with CHR ''.'' [p0, p1, p2, p3, p4, p5])) signature)
      | _ \<Rightarrow> False)"

section \<open>Text\<close>

lemma hex_decode_hex [simp]: "hex_decode (hex bs) = (if bs = [] then None else Some bs)"
proof -
  have "hex bs = [] \<longleftrightarrow> bs = []" by (cases bs) simp_all
  then show ?thesis by (simp only: hex_decode_def length_hex decode_pairs_hex) simp
qed

lemma non_empty_case [simp]: "non_empty (case x of None \<Rightarrow> [] | Some s \<Rightarrow> s) = (if x = Some [] then None else x)"
  by (auto simp: non_empty_def split: option.splits)

lemma set_dec_string: "c \<in> set (dec_string n) \<Longrightarrow> is_ascii_digit c"
  using dec_string_digits [of n] by (auto simp: list_all_iff ascii_defs)

lemma u64_to_string_no_newline [simp]: "newline \<notin> set (u64_to_string w)" "CHR ''.'' \<notin> set (u64_to_string w)"
  by (auto simp: u64_to_string_def ascii_defs dest!: set_dec_string)

lemma as_bytes_Nil [simp]: "as_bytes s = [] \<longleftrightarrow> s = []"
  by (simp add: as_bytes_def)

lemma hex_no_newline [simp]: "newline \<notin> set (hex bs)"
  by simp

lemma invite_code_digits: "c \<in> set (invite_code r) \<Longrightarrow> \<exists>d. is_ascii_hexdigit d \<and> c = ascii_upper d"
  using hex_all_hexdigits [of r] by (auto simp: invite_code_def to_ascii_uppercase_def list_all_iff)

lemma without_dashes_code [simp]: "without_dashes (invite_code r) = invite_code r"
  unfolding without_dashes_def filter_id_conv
  by (auto dest!: invite_code_digits simp: ascii_upper_hexdigit)

section \<open>Round trip\<close>

text \<open>The fields of an invite are lines of their own, and an absent optional field is not written as an
  empty one.\<close>

definition invite_lines_ok :: "VerifiedInvite \<Rightarrow> bool" where
  "invite_lines_ok v \<longleftrightarrow> newline \<notin> set (inv_account_id v) \<and> newline \<notin> set (inv_device_id v) \<and>
     newline \<notin> set (inv_relay_origin v) \<and>
     (\<forall>i. inv_inbox_url v = Some i \<longrightarrow> i \<noteq> [] \<and> newline \<notin> set i) \<and>
     (\<forall>c. inv_conversation_id v = Some c \<longrightarrow> c \<noteq> [] \<and> newline \<notin> set c)"

lemma invite_fields_payload:
  assumes "invite_lines_ok v" "newline \<notin> set code_hash"
  shows "invite_fields (invite_payload code_hash v) = Some (code_hash, v)"
proof -
  have "split_on newline (invite_payload code_hash v) =
      [''another-dimension/invite/v1'', inv_account_id v, inv_device_id v, code_hash,
       u64_to_string (inv_expires_at v), inv_relay_origin v,
       case inv_inbox_url v of None \<Rightarrow> [] | Some i \<Rightarrow> i,
       case inv_conversation_id v of None \<Rightarrow> [] | Some c \<Rightarrow> c]"
    unfolding invite_payload_def using assms
    by (intro split_join) (auto simp: invite_lines_ok_def split: option.splits)
  moreover have "inv_inbox_url v \<noteq> Some []" "inv_conversation_id v \<noteq> Some []"
    using assms(1) by (auto simp: invite_lines_ok_def)
  ultimately show ?thesis
    by (simp add: invite_fields_def optional_lines_def)
qed

lemma signed_invite_parts:
  "split_on CHR ''.'' (signed_invite_text E root payload)
     = [''ADDAINV1'', hex (as_bytes payload), hex (ed_sign E root (as_bytes payload))]"
proof -
  have "signed_invite_text E root payload = join_with CHR ''.''
      [''ADDAINV1'', hex (as_bytes payload), hex (ed_sign E root (as_bytes payload))]"
    by (simp add: signed_invite_text_def)
  then show ?thesis by (simp only:) (rule split_join, auto)
qed

lemma verify_signed_text:
  assumes E: "ed_correct E" and sha: "sha_sized sha"
    and v: "inv_account_id v = root_account_id E root" "invite_lines_ok v" "invite_plausible parse v now"
    and p: "payload = invite_payload (hex (sha secret)) v" "utf8_valid payload"
  shows "verify_signed_invite_with_code parse sha E expected (signed_invite_text E root payload) now
    = (if \<forall>c. expected = Some c \<longrightarrow> c \<noteq> [] \<and> sha secret = sha (as_bytes (without_dashes c))
       then Some v else None)"
proof -
  have k: "length (ed_public E root) = 32" "ed_key_ok E (ed_public E root)"
      "\<And>m. length (ed_sign E root m) = 64 \<and> ed_verify E (ed_public E root) m (ed_sign E root m)"
    using E by (auto simp: ed_correct_def)
  have f: "invite_fields payload = Some (hex (sha secret), v)"
    unfolding p(1) by (rule invite_fields_payload [OF v(2)]) simp
  have "ed_sign E root m \<noteq> []" for m using k(3) [of m] by auto
  then have ne: "payload \<noteq> []" "ed_public E root \<noteq> []" "\<And>m. ed_sign E root m \<noteq> []"
    using k(1) by (auto simp: p(1) invite_payload_def)
  have pk: "Option.bind (strip_prefix (inv_account_id v) ''ad1pk'') hex_decode = Some (ed_public E root)"
    unfolding v(1) root_account_id_def account_id_from_public_def strip_prefix_append using ne by simp
  have "hex_decode (hex (as_bytes payload)) = Some (as_bytes payload)"
    "hex_decode (hex (ed_sign E root (as_bytes payload))) = Some (ed_sign E root (as_bytes payload))"
    using ne by simp_all
  then show ?thesis
    unfolding verify_signed_invite_with_code_def signed_invite_parts
    using k f v(3) p(2) pk sha by (auto simp: sha_sized_def split: option.splits)
qed

text \<open>An invite the account makes verifies at the other daemon while it is plausible there: without a
  code, and with the one-time code of the invite typed with any dashes, it yields exactly the invited
  account, device, expiry, relay, inbox and conversation; with a code of another hash it is refused.\<close>
theorem invite_round_trip:
  assumes "ed_correct E" "sha_sized sha"
    and "inv_account_id v = root_account_id E root" "invite_lines_ok v" "invite_plausible parse v now"
    and "payload = invite_payload (hex (sha (as_bytes (invite_code random)))) v" "utf8_valid payload"
  shows "verify_signed_invite_unbound parse sha E (signed_invite_text E root payload) now = Some v
    \<and> (random \<noteq> [] \<and> without_dashes typed = invite_code random \<longrightarrow>
        verify_signed_invite parse sha E typed (signed_invite_text E root payload) now = Some v)
    \<and> (sha (as_bytes (without_dashes typed)) \<noteq> sha (as_bytes (invite_code random)) \<longrightarrow>
        verify_signed_invite parse sha E typed (signed_invite_text E root payload) now = None)"
proof -
  have "invite_code random \<noteq> []" if "random \<noteq> []"
    using that by (cases random) (simp_all add: invite_code_def to_ascii_uppercase_def)
  then have "typed \<noteq> []" if "random \<noteq> []" "without_dashes typed = invite_code random"
    using that by (auto simp: without_dashes_def)
  with verify_signed_text [OF assms(1-7)] show ?thesis
    by (auto simp: verify_signed_invite_def verify_signed_invite_unbound_def)
qed

section \<open>Authenticity\<close>

lemma optional_lines_Some:
  assumes "optional_lines rest = Some (i, c)"
  shows "length rest \<le> 2 \<and> i = Option.bind (if rest = [] then None else Some (rest ! 0)) non_empty
    \<and> c = Option.bind (if length rest < 2 then None else Some (rest ! 1)) non_empty"
  using assms by (auto simp: optional_lines_def split: list.splits)

lemma invite_fields_Some:
  assumes "invite_fields payload = Some (h, v)"
  obtains expires rest where
    "payload = join_with newline (''another-dimension/invite/v1'' # inv_account_id v # inv_device_id v # h
       # expires # inv_relay_origin v # rest)"
    "parse_u64 (map code expires) = Some (inv_expires_at v)"
    "optional_lines rest = Some (inv_inbox_url v, inv_conversation_id v)"
proof -
  obtain a d e r rest where
    s: "split_on newline payload = ''another-dimension/invite/v1'' # a # d # h # e # r # rest"
    and v: "parse_u64 (map code e) = Some (inv_expires_at v)"
      "optional_lines rest = Some (inv_inbox_url v, inv_conversation_id v)"
      "inv_account_id v = a" "inv_device_id v = d" "inv_relay_origin v = r"
    using assms unfolding invite_fields_def
    by (auto split: list.splits if_splits option.splits prod.splits)
  have "payload = join_with newline (split_on newline payload)" by (simp add: join_split)
  with s v that show thesis by metis
qed

lemma verify_Some:
  assumes "verify_signed_invite_with_code parse sha E expected wire now = Some v"
  obtains p s payload sig h pk where
    "wire = join_with CHR ''.'' [''ADDAINV1'', p, s]" "hex_decode p = Some payload" "hex_decode s = Some sig"
    "invite_fields (bytes_to_string payload) = Some (h, v)" "invite_plausible parse v now"
    "Option.bind (strip_prefix (inv_account_id v) ''ad1pk'') hex_decode = Some pk" "length pk = 32"
    "\<forall>c. expected = Some c \<longrightarrow> h = hex (sha (as_bytes (without_dashes c)))"
    "ed_verify E pk payload sig"
proof -
  obtain tag p s payload sig h pk where
    parts: "split_on CHR ''.'' wire = [tag, p, s]" and tag: "tag = ''ADDAINV1''"
    and rest: "hex_decode p = Some payload" "hex_decode s = Some sig"
      "invite_fields (bytes_to_string payload) = Some (h, v)" "invite_plausible parse v now"
      "Option.bind (strip_prefix (inv_account_id v) ''ad1pk'') hex_decode = Some pk" "length pk = 32"
      "\<forall>c. expected = Some c \<longrightarrow> h = hex (sha (as_bytes (without_dashes c)))"
      "ed_verify E pk payload sig"
    using assms unfolding verify_signed_invite_with_code_def
    by (auto split: list.splits option.splits if_splits prod.splits)
  have "wire = join_with CHR ''.'' [''ADDAINV1'', p, s]"
    using join_split [of "CHR ''.''" wire] parts tag by simp
  with that rest show thesis by blast
qed

text \<open>C29. Everything a daemon accepts from an invite is covered by the signature of the account it names.
  An accepted invite text is the tag, a payload and a signature; the signature verifies over the payload
  under the key spelled out in the account id; the payload is line by line the accepted account, device,
  code hash, expiry, relay and optional fields; and the invite expires in the future and at most ten
  minutes ahead.  With a code, the payload carries the hash of that code.\<close>
theorem invite_authentic:
  assumes "verify_signed_invite_with_code parse sha E expected wire now = Some v"
  shows "\<exists>p s payload sig pk h expires rest.
      wire = join_with CHR ''.'' [''ADDAINV1'', p, s] \<and> hex_decode p = Some payload \<and> hex_decode s = Some sig
    \<and> strip_prefix (inv_account_id v) ''ad1pk'' \<noteq> None
    \<and> hex_decode (the (strip_prefix (inv_account_id v) ''ad1pk'')) = Some pk
    \<and> length pk = 32 \<and> ed_verify E pk payload sig
    \<and> bytes_to_string payload = join_with newline (''another-dimension/invite/v1'' # inv_account_id v
        # inv_device_id v # h # expires # inv_relay_origin v # rest)
    \<and> parse_u64 (map code expires) = Some (inv_expires_at v)
    \<and> optional_lines rest = Some (inv_inbox_url v, inv_conversation_id v)
    \<and> now < inv_expires_at v \<and> unat (inv_expires_at v) \<le> unat now + 600
    \<and> (\<forall>c. expected = Some c \<longrightarrow> h = hex (sha (as_bytes (without_dashes c))))"
proof -
  from assms obtain p s payload sig h pk where a:
    "wire = join_with CHR ''.'' [''ADDAINV1'', p, s]" "hex_decode p = Some payload" "hex_decode s = Some sig"
    "invite_fields (bytes_to_string payload) = Some (h, v)" "invite_plausible parse v now"
    "Option.bind (strip_prefix (inv_account_id v) ''ad1pk'') hex_decode = Some pk" "length pk = 32"
    "\<forall>c. expected = Some c \<longrightarrow> h = hex (sha (as_bytes (without_dashes c)))" "ed_verify E pk payload sig"
    by (rule verify_Some)
  from a(4) obtain expires rest where b:
    "bytes_to_string payload = join_with newline (''another-dimension/invite/v1'' # inv_account_id v
       # inv_device_id v # h # expires # inv_relay_origin v # rest)"
    "parse_u64 (map code expires) = Some (inv_expires_at v)"
    "optional_lines rest = Some (inv_inbox_url v, inv_conversation_id v)"
    by (rule invite_fields_Some)
  obtain k where k: "strip_prefix (inv_account_id v) ''ad1pk'' = Some k" "hex_decode k = Some pk"
    using a(6) by (auto simp: Option.bind_eq_Some_conv)
  have t: "now < inv_expires_at v" "unat (inv_expires_at v) \<le> unat now + 600"
    using a(5) by (auto simp: invite_plausible_def word_le_nat_alt unat_sat_add MAX_INVITE_TTL_SECONDS_def)
  show ?thesis
    using a(1-3,7-9) b k t by (intro exI conjI) (assumption | simp)+
qed

section \<open>Witnesses\<close>

definition demo_root :: bytes where "demo_root = replicate 32 7"

definition demo_invite :: VerifiedInvite where
  "demo_invite = \<lparr> inv_account_id = root_account_id demo_ed demo_root, inv_device_id = ''device-1'',
     inv_expires_at = 700, inv_relay_origin = ''https://relay.example'', inv_inbox_url = None,
     inv_conversation_id = Some ''adconv1'' \<rparr>"

definition demo_payload :: string where
  "demo_payload = invite_payload (hex (fit 32 (as_bytes (invite_code (replicate 32 5))))) demo_invite"

lemma ascii_hex: "list_all is_ascii (hex bs)"
proof -
  have "is_ascii c" if "is_ascii_hexdigit c" for c using that by (auto simp: ascii_defs)
  then show ?thesis using hex_all_hexdigits [of bs] by (auto simp: list_all_iff)
qed

lemma demo_invite_ok:
  "inv_account_id demo_invite = root_account_id demo_ed demo_root" "invite_lines_ok demo_invite"
  "invite_plausible (\<lambda>_. None) demo_invite 100" "utf8_valid demo_payload"
proof -
  show "invite_plausible (\<lambda>_. None) demo_invite 100"
    by (simp add: invite_plausible_def demo_invite_def root_account_id_def account_id_from_public_def
        starts_with_def MAX_INVITE_TTL_SECONDS_def sat_add_def)
  show "utf8_valid demo_payload"
    by (rule utf8_valid_ascii)
       (simp add: demo_payload_def invite_payload_def demo_invite_def root_account_id_def
          account_id_from_public_def ascii_hex u64_to_string_def dec_string_ascii is_ascii_def)
qed (simp_all add: demo_invite_def invite_lines_ok_def root_account_id_def account_id_from_public_def)

theorem invite_round_trip_witness:
  "verify_signed_invite (\<lambda>_. None) (fit 32) demo_ed (invite_code (replicate 32 5))
     (signed_invite_text demo_ed demo_root demo_payload) 100 = Some demo_invite"
  using invite_round_trip [OF demo_ed_correct demo_sha_sized demo_invite_ok(1-3) demo_payload_def
      demo_invite_ok(4), of "invite_code (replicate 32 5)"]
  by simp

theorem invite_authentic_witness:
  "verify_signed_invite_with_code (\<lambda>_. None) (fit 32) demo_ed None
     (signed_invite_text demo_ed demo_root demo_payload) 100 = Some demo_invite
   \<and> unat (inv_expires_at demo_invite) \<le> unat (100::u64) + 600"
proof -
  have v: "verify_signed_invite_with_code (\<lambda>_. None) (fit 32) demo_ed None
     (signed_invite_text demo_ed demo_root demo_payload) 100 = Some demo_invite"
    by (subst verify_signed_text [OF demo_ed_correct demo_sha_sized demo_invite_ok(1-3) demo_payload_def
          demo_invite_ok(4)]) simp
  from invite_authentic [OF v] v show ?thesis by blast
qed

end
