(* ===== verification/Pairing.thy ===== *)
theory Pairing
  imports Invite Encrypted_Store
begin

text \<open>
  The pairing state machine (\<^verbatim>\<open>pairing.rs\<close>): verifying a peer's invite, confirming the safety number,
  approving, rejecting, and the persisted snapshot.
\<close>

section \<open>Definitions\<close>

definition PAIRING_SNAPSHOT_VERSION :: u16 where "PAIRING_SNAPSHOT_VERSION = 1"

datatype PairingState = Idle | InviteCreated | PeerVerified | Established | Rejected

fun pairing_state_as_str :: "PairingState \<Rightarrow> string" where
  "pairing_state_as_str Idle = ''idle''"
| "pairing_state_as_str InviteCreated = ''invite-created''"
| "pairing_state_as_str PeerVerified = ''verified''"
| "pairing_state_as_str Established = ''established''"
| "pairing_state_as_str Rejected = ''rejected''"

datatype PairingError =
  BadPairingTransition | SelfInvite | PairingExpired | PairingDuplicate | SafetyMismatch | BindingChanged

record PairingSnapshot =
  schema_version :: u16
  snap_state :: PairingState
  snap_peer :: "VerifiedInvite option"
  snap_safety_verified :: bool

record PairingSession =
  local_account_id :: string
  local_device_id :: string
  pair_state :: PairingState
  pair_peer :: "VerifiedInvite option"
  safety_verified :: bool

definition pairing_new :: "string \<Rightarrow> string \<Rightarrow> PairingSession" where
  "pairing_new account device = \<lparr> local_account_id = account, local_device_id = device,
     pair_state = Idle, pair_peer = None, safety_verified = False \<rparr>"

definition valid_relay_origin :: "string \<Rightarrow> bool" where
  "valid_relay_origin value =
     (case split_once ''://'' value of
        None \<Rightarrow> False
      | Some (scheme, authority) \<Rightarrow>
          (scheme = ''http'' \<or> scheme = ''https'') \<and> authority \<noteq> [] \<and> length authority \<le> 2 * 1024 \<and>
          CHR ''/'' \<notin> set authority \<and> CHR ''@'' \<notin> set authority \<and> CHR ''?'' \<notin> set authority \<and>
          CHR ''#'' \<notin> set authority \<and>
          (case utf8_decode authority of None \<Rightarrow> True
           | Some cs \<Rightarrow> \<not> list_ex (\<lambda>c. is_whitespace c \<or> is_control c) cs))"

definition valid_conversation_id :: "string \<Rightarrow> bool" where
  "valid_conversation_id s \<longleftrightarrow> s \<noteq> [] \<and> length s \<le> 128 \<and>
     list_all (\<lambda>c. is_ascii_alphanumeric c \<or> c = CHR ''-'' \<or> c = CHR ''_'') s"

definition valid_verified_peer :: "uri_parser \<Rightarrow> VerifiedInvite \<Rightarrow> bool" where
  "valid_verified_peer parse p \<longleftrightarrow>
     is_ok (validate_protocol_identifier (inv_account_id p)) \<and>
     is_ok (validate_protocol_identifier (inv_device_id p)) \<and>
     valid_relay_origin (inv_relay_origin p) \<and>
     (case inv_inbox_url p of None \<Rightarrow> True
      | Some i \<Rightarrow> is_ok (validate_bound_inbox_url parse (inv_relay_origin p) i)) \<and>
     (case inv_conversation_id p of None \<Rightarrow> True | Some c \<Rightarrow> valid_conversation_id c)"

definition mark_invite_created :: "PairingSession \<Rightarrow> (PairingError + unit) \<times> PairingSession" where
  "mark_invite_created s =
     (case pair_state s of
        PeerVerified \<Rightarrow> (Err BadPairingTransition, s)
      | _ \<Rightarrow> (Ok (), s \<lparr> pair_state := InviteCreated \<rparr>))"

definition verify_peer ::
    "uri_parser \<Rightarrow> VerifiedInvite \<Rightarrow> u64 \<Rightarrow> PairingSession \<Rightarrow> (PairingError + unit) \<times> PairingSession" where
  "verify_peer parse p now s =
     (if \<not> valid_verified_peer parse p then (Err BadPairingTransition, s)
      else if inv_account_id p = local_account_id s then (Err SelfInvite, s)
      else if inv_expires_at p \<le> now then (Err PairingExpired, s)
      else case pair_state s of
        PeerVerified \<Rightarrow> (Err PairingDuplicate, s)
      | Established \<Rightarrow>
          (case pair_peer s of
             None \<Rightarrow> (Err BadPairingTransition, s)
           | Some trusted \<Rightarrow>
               if inv_account_id trusted = inv_account_id p then (Err BindingChanged, s)
               else (Ok (), s \<lparr> pair_peer := Some p, safety_verified := True \<rparr>))
      | _ \<Rightarrow> (Ok (), s \<lparr> pair_peer := Some p, pair_state := PeerVerified, safety_verified := False \<rparr>))"

definition approve :: "u64 \<Rightarrow> PairingSession \<Rightarrow> (PairingError + unit) \<times> PairingSession" where
  "approve now s =
     (case pair_peer s of
        None \<Rightarrow> (Err BadPairingTransition, s)
      | Some p \<Rightarrow>
          if inv_expires_at p \<le> now then (Err PairingExpired, s)
          else if pair_state s \<noteq> PeerVerified
          then (Err (if pair_state s = Established then PairingDuplicate else BadPairingTransition), s)
          else if \<not> safety_verified s then (Err BadPairingTransition, s)
          else (Ok (), s \<lparr> pair_state := Established \<rparr>))"

definition safety_transcript :: "string \<Rightarrow> string \<Rightarrow> string \<Rightarrow> string \<Rightarrow> string" where
  "safety_transcript a b d e =
     ''another-dimension/safety/v1'' @ [newline] @ ''account-a='' @ min a b @ [newline] @ ''account-b='' @ max a b
     @ [newline] @ ''device-a='' @ min d e @ [newline] @ ''device-b='' @ max d e"

definition safety_number :: "(bytes \<Rightarrow> bytes) \<Rightarrow> PairingSession \<Rightarrow> string option" where
  "safety_number sha s =
     map_option (\<lambda>p. ''sha256-'' @ hex (sha (as_bytes
       (safety_transcript (local_account_id s) (inv_account_id p) (local_device_id s) (inv_device_id p)))))
       (pair_peer s)"

definition trim_str :: "string \<Rightarrow> string" where
  "trim_str s = (case utf8_decode s of None \<Rightarrow> s | Some cs \<Rightarrow> concat (map utf8_encode_char (trim_chars cs)))"

definition confirm_safety ::
    "(bytes \<Rightarrow> bytes) \<Rightarrow> string \<Rightarrow> PairingSession \<Rightarrow> (PairingError + unit) \<times> PairingSession" where
  "confirm_safety sha v s =
     (if \<not> (pair_state s = PeerVerified \<or> pair_state s = Established \<and> \<not> safety_verified s)
      then (Err BadPairingTransition, s)
      else if \<not> safety_verified s \<and> safety_number sha s \<noteq> Some (trim_str v) then (Err SafetyMismatch, s)
      else (Ok (), s \<lparr> safety_verified := True \<rparr>))"

definition unverify_safety :: "PairingSession \<Rightarrow> (PairingError + unit) \<times> PairingSession" where
  "unverify_safety s =
     (if pair_state s \<noteq> Established \<or> \<not> safety_verified s then (Err BadPairingTransition, s)
      else (Ok (), s \<lparr> safety_verified := False \<rparr>))"

definition can_message :: "PairingSession \<Rightarrow> bool" where
  "can_message s \<longleftrightarrow> pair_state s = Established \<and> safety_verified s"

definition can_message_at :: "PairingSession \<Rightarrow> u64 \<Rightarrow> bool" where
  "can_message_at s now \<longleftrightarrow> can_message s \<and>
     (case pair_peer s of None \<Rightarrow> False | Some p \<Rightarrow> now < max (inv_expires_at p) now)"

definition reject :: "PairingSession \<Rightarrow> (PairingError + unit) \<times> PairingSession" where
  "reject s =
     (if pair_state s \<notin> {PeerVerified, Established} then (Err BadPairingTransition, s)
      else (Ok (), s \<lparr> pair_state := Rejected, pair_peer := None, safety_verified := False \<rparr>))"

definition invalidate_binding :: "PairingSession \<Rightarrow> (PairingError + unit) \<times> PairingSession" where
  "invalidate_binding s =
     (if pair_state s \<noteq> Established then (Err BadPairingTransition, s)
      else (Ok (), s \<lparr> pair_state := Rejected, pair_peer := None, safety_verified := False \<rparr>))"

definition snapshot :: "PairingSession \<Rightarrow> PairingSnapshot" where
  "snapshot s = \<lparr> schema_version = PAIRING_SNAPSHOT_VERSION, snap_state = pair_state s,
     snap_peer = pair_peer s, snap_safety_verified = safety_verified s \<rparr>"

definition pairing_key :: record_key where
  "pairing_key = (RecordClass.Contact, ''pairing/state'')"

definition pairing_persist ::
    "(PairingSnapshot \<Rightarrow> bytes option) \<Rightarrow> store_crypto \<Rightarrow> commit_io \<Rightarrow> PairingSession
     \<Rightarrow> EncryptedStore \<times> disk \<Rightarrow> (StorageError + unit) \<times> EncryptedStore \<times> disk" where
  "pairing_persist to_json C io s st =
     (case to_json (snapshot s) of
        None \<Rightarrow> (Err CorruptStore, st)
      | Some bs \<Rightarrow> store_put C io pairing_key bs st)"

definition valid_state_shape :: "uri_parser \<Rightarrow> PairingSnapshot \<Rightarrow> bool" where
  "valid_state_shape parse sn \<longleftrightarrow>
     (case snap_state sn of
        Idle \<Rightarrow> snap_peer sn = None
      | InviteCreated \<Rightarrow> snap_peer sn = None
      | PeerVerified \<Rightarrow> (case snap_peer sn of None \<Rightarrow> False | Some p \<Rightarrow> valid_verified_peer parse p)
      | Established \<Rightarrow> (case snap_peer sn of None \<Rightarrow> False | Some p \<Rightarrow> valid_verified_peer parse p)
      | Rejected \<Rightarrow> snap_peer sn = None)"

definition pairing_restore ::
    "uri_parser \<Rightarrow> (bytes \<Rightarrow> PairingSnapshot option) \<Rightarrow> string \<Rightarrow> string \<Rightarrow> EncryptedStore \<times> disk
     \<Rightarrow> StorageError + PairingSession" where
  "pairing_restore parse of_json account device st =
     (case store_get pairing_key st of
        None \<Rightarrow> Ok (pairing_new account device)
      | Some bs \<Rightarrow>
          res_bind (ok_or (of_json bs) CorruptStore) (\<lambda>sn.
            if PAIRING_SNAPSHOT_VERSION < schema_version sn then Err CorruptStore
            else if \<not> valid_state_shape parse sn
                    \<or> snap_safety_verified sn \<and> snap_state sn \<notin> {PeerVerified, Established}
            then Err CorruptStore
            else Ok ((pairing_new account device) \<lparr> pair_state := snap_state sn, pair_peer := snap_peer sn,
                       safety_verified := snap_safety_verified sn \<rparr>)))"

text \<open>Runs of the machine: an operation, applied whatever it answers.\<close>

datatype PairingOp =
  MarkInviteCreated | VerifyPeer VerifiedInvite u64 | Approve u64 | ConfirmSafety string
  | UnverifySafety | Reject | InvalidateBinding

fun pairing_op ::
    "uri_parser \<Rightarrow> (bytes \<Rightarrow> bytes) \<Rightarrow> PairingOp \<Rightarrow> PairingSession \<Rightarrow> (PairingError + unit) \<times> PairingSession" where
  "pairing_op parse sha MarkInviteCreated s = mark_invite_created s"
| "pairing_op parse sha (VerifyPeer p now) s = verify_peer parse p now s"
| "pairing_op parse sha (Approve now) s = approve now s"
| "pairing_op parse sha (ConfirmSafety v) s = confirm_safety sha v s"
| "pairing_op parse sha UnverifySafety s = unverify_safety s"
| "pairing_op parse sha Reject s = reject s"
| "pairing_op parse sha InvalidateBinding s = invalidate_binding s"

inductive pairing_run ::
    "uri_parser \<Rightarrow> (bytes \<Rightarrow> bytes) \<Rightarrow> PairingSession \<Rightarrow> (PairingOp \<times> PairingSession) list \<Rightarrow> PairingSession \<Rightarrow> bool"
  for parse :: uri_parser and sha :: "bytes \<Rightarrow> bytes" where
  run_Nil: "pairing_run parse sha s [] s"
| run_snoc: "pairing_run parse sha s tr t \<Longrightarrow> pairing_op parse sha a t = (r, u) \<Longrightarrow>
    pairing_run parse sha s (tr @ [(a, t)]) u"

lemmas pairing_op_defs = mark_invite_created_def verify_peer_def approve_def confirm_safety_def
  unverify_safety_def reject_def invalidate_binding_def

section \<open>The shape of a session\<close>

definition pairing_shape :: "uri_parser \<Rightarrow> PairingSession \<Rightarrow> bool" where
  "pairing_shape parse s \<longleftrightarrow>
     (\<forall>p. pair_peer s = Some p \<longrightarrow> valid_verified_peer parse p \<and> inv_account_id p \<noteq> local_account_id s) \<and>
     (pair_state s \<in> {PeerVerified, Established} \<longrightarrow> pair_peer s \<noteq> None) \<and>
     (pair_state s \<in> {Idle, Rejected} \<longrightarrow> pair_peer s = None) \<and>
     (safety_verified s \<longrightarrow> pair_peer s \<noteq> None)"

lemma pairing_op_shape:
  assumes "pairing_shape parse s" "pairing_op parse sha a s = (r, t)"
  shows "pairing_shape parse t"
  using assms
  by (cases a; cases "pair_state s")
     (auto simp: pairing_shape_def pairing_op_defs split: if_splits option.splits)

lemma pairing_op_local:
  "pairing_op parse sha a s = (r, t) \<Longrightarrow>
     local_account_id t = local_account_id s \<and> local_device_id t = local_device_id s"
  by (cases a; cases "pair_state s") (auto simp: pairing_op_defs split: if_splits option.splits)

lemma pairing_run_shape:
  "pairing_run parse sha s tr t \<Longrightarrow> pairing_shape parse s \<Longrightarrow>
     pairing_shape parse t \<and> local_account_id t = local_account_id s \<and> local_device_id t = local_device_id s"
  by (induction rule: pairing_run.induct) (auto dest: pairing_op_shape pairing_op_local)

lemma pairing_new_shape [simp]: "pairing_shape parse (pairing_new account device)"
  by (simp add: pairing_shape_def pairing_new_def)

section \<open>Messaging needs a confirmation and an approval\<close>

definition confirmed_in ::
    "(bytes \<Rightarrow> bytes) \<Rightarrow> (PairingOp \<times> PairingSession) list \<Rightarrow> VerifiedInvite option \<Rightarrow> bool" where
  "confirmed_in sha tr p \<longleftrightarrow> (\<exists>v t. (ConfirmSafety v, t) \<in> set tr \<and> pair_peer t = p \<and> p \<noteq> None \<and>
     safety_number sha t = Some (trim_str v))"

definition approved_in ::
    "(bytes \<Rightarrow> bytes) \<Rightarrow> (PairingOp \<times> PairingSession) list \<Rightarrow> bool" where
  "approved_in sha tr \<longleftrightarrow> (\<exists>before now t after p. tr = before @ (Approve now, t) # after \<and>
     pair_peer t = Some p \<and> now < inv_expires_at p \<and> confirmed_in sha before (Some p))"

lemma confirmed_in_snoc: "confirmed_in sha tr p \<Longrightarrow> confirmed_in sha (tr @ [x]) p"
  by (auto simp: confirmed_in_def)

lemma approved_in_snoc: "approved_in sha tr \<Longrightarrow> approved_in sha (tr @ [x])"
  unfolding approved_in_def by (metis append.assoc append_Cons)

lemma approved_in_now:
  "pair_peer t = Some p \<Longrightarrow> now < inv_expires_at p \<Longrightarrow> confirmed_in sha tr (Some p) \<Longrightarrow>
     approved_in sha (tr @ [(Approve now, t)])"
  unfolding approved_in_def by blast

definition trace_ok ::
    "(bytes \<Rightarrow> bytes) \<Rightarrow> (PairingOp \<times> PairingSession) list \<Rightarrow> PairingSession \<Rightarrow> bool" where
  "trace_ok sha tr s \<longleftrightarrow>
     (pair_state s = PeerVerified \<and> safety_verified s \<longrightarrow> confirmed_in sha tr (pair_peer s)) \<and>
     (pair_state s = Established \<longrightarrow> approved_in sha tr)"

lemma trace_ok_confirm:
  assumes "trace_ok sha tr s" "pairing_shape parse s" "confirm_safety sha v s = (r, t)"
  shows "trace_ok sha (tr @ [(ConfirmSafety v, s)]) t"
proof -
  have "confirmed_in sha (tr @ [(ConfirmSafety v, s)]) (pair_peer s)"
    if "safety_number sha s = Some (trim_str v)"
    using that by (auto simp: confirmed_in_def safety_number_def)
  then show ?thesis
    using assms confirmed_in_snoc [of sha tr "pair_peer s"] approved_in_snoc [of sha tr]
    by (auto simp: trace_ok_def confirm_safety_def split: if_splits)
qed

lemma trace_ok_approve:
  assumes "trace_ok sha tr s" "pairing_shape parse s" "approve now s = (r, t)"
  shows "trace_ok sha (tr @ [(Approve now, s)]) t"
proof (cases "pair_peer s")
  case (Some p)
  then show ?thesis
    using assms confirmed_in_snoc [of sha tr "pair_peer s"] approved_in_snoc [of sha tr]
      approved_in_now [of s p now sha tr]
    by (auto simp: trace_ok_def approve_def split: if_splits)
qed (use assms in \<open>auto simp: trace_ok_def approve_def confirmed_in_snoc approved_in_snoc\<close>)

lemma trace_ok_step:
  assumes "trace_ok sha tr s" "pairing_shape parse s" "pairing_op parse sha a s = (r, t)"
  shows "trace_ok sha (tr @ [(a, s)]) t"
proof (cases a)
  case (ConfirmSafety v)
  then show ?thesis using trace_ok_confirm assms by simp
next
  case (Approve now)
  then show ?thesis using trace_ok_approve assms by simp
qed (use assms confirmed_in_snoc [of sha tr "pair_peer s"] approved_in_snoc [of sha tr]
     in \<open>auto simp: trace_ok_def pairing_op_defs split: if_splits option.splits PairingState.splits\<close>)

lemma pairing_run_trace:
  assumes "pairing_run parse sha s tr t" "s = pairing_new account device"
  shows "trace_ok sha tr t"
  using assms
proof (induction rule: pairing_run.induct)
  case (run_snoc s tr t a r u)
  then show ?case
    using trace_ok_step pairing_run_shape by (metis pairing_new_shape)
qed (simp add: trace_ok_def pairing_new_def)

lemma pairing_run_visited:
  "pairing_run parse sha s tr t \<Longrightarrow> (a, w) \<in> set tr \<Longrightarrow> \<exists>tr'. pairing_run parse sha s tr' w"
  by (induction rule: pairing_run.induct) auto


section \<open>The persisted snapshot\<close>

lemma pairing_restore_snapshot:
  assumes "store_get pairing_key st = Some bs" "of_json bs = Some (snapshot s)" "pairing_shape parse s"
  shows "pairing_restore parse of_json (local_account_id s) (local_device_id s) st =
    (if pair_state s = InviteCreated \<and> pair_peer s \<noteq> None then Err CorruptStore else Ok s)"
  using assms
  by (cases "pair_state s"; cases s)
     (auto simp: pairing_restore_def snapshot_def pairing_shape_def pairing_new_def valid_state_shape_def
        split: option.splits)

text \<open>A daemon that restarts finds the pairing it persisted: in every run from a fresh session, the
  session read back from the store equals the persisted one, except in one situation, an invite created
  over an established pairing that kept its peer, whose snapshot the loader refuses.\<close>
theorem pairing_restart:
  assumes "pairing_run parse sha (pairing_new account device) tr s"
    and "pairing_persist to_json C io s st = (Ok (), st')" "\<And>sn b. to_json sn = Some b \<Longrightarrow> of_json b = Some sn"
  shows "pairing_restore parse of_json account device st' =
    (if pair_state s = InviteCreated \<and> pair_peer s \<noteq> None then Err CorruptStore else Ok s)"
proof -
  obtain bs where bs: "to_json (snapshot s) = Some bs" "store_put C io pairing_key bs st = (Ok (), st')"
    using assms(2) by (auto simp: pairing_persist_def split: option.splits)
  have "pairing_shape parse s" "local_account_id s = account" "local_device_id s = device"
    using pairing_run_shape [OF assms(1) pairing_new_shape] by (simp_all add: pairing_new_def)
  then show ?thesis
    using pairing_restore_snapshot [of st' bs of_json s parse] es.get_put_ok [OF bs(2)] assms(3) [OF bs(1)]
    by simp
qed

section \<open>Safety numbers\<close>

lemma safety_transcript_inject:
  assumes "newline \<notin> set a" "newline \<notin> set b" "newline \<notin> set d" "newline \<notin> set e"
    "newline \<notin> set a'" "newline \<notin> set b'" "newline \<notin> set d'" "newline \<notin> set e'"
    and "safety_transcript a b d e = safety_transcript a' b' d' e'"
  shows "{a, b} = {a', b'} \<and> {d, e} = {d', e'}"
proof -
  let ?t = "\<lambda>a b d e. [''another-dimension/safety/v1'', ''account-a='' @ min a b, ''account-b='' @ max a b,
    ''device-a='' @ min d e, ''device-b='' @ max d e]"
  have t: "safety_transcript a b d e = join_with newline (?t a b d e)" for a b d e
    by (simp add: safety_transcript_def)
  have "split_on newline (join_with newline (?t a b d e)) = ?t a b d e"
    if "newline \<notin> set a" "newline \<notin> set b" "newline \<notin> set d" "newline \<notin> set e" for a b d e
  proof (rule split_join)
    show "\<forall>s \<in> set (?t a b d e). newline \<notin> set s" using that by (simp add: min_def max_def)
  qed simp
  then have "?t a b d e = ?t a' b' d' e'" using assms unfolding t by metis
  then show ?thesis by (auto simp: min_def max_def split: if_splits)
qed

text \<open>The two daemons of a pairing show the same safety number, whichever side invited, and the text
  the number is the hash of determines both accounts and both devices (as unordered pairs).\<close>
theorem safety_number_agrees:
  assumes "pair_peer s = Some p" "pair_peer t = Some q"
    and "inv_account_id p = local_account_id t" "inv_device_id p = local_device_id t"
    and "inv_account_id q = local_account_id s" "inv_device_id q = local_device_id s"
  shows "safety_number sha s = safety_number sha t \<and> safety_number sha s \<noteq> None
    \<and> (\<forall>a b d e. newline \<notin> \<Union> (set ` {a, b, d, e, local_account_id s, local_account_id t,
            local_device_id s, local_device_id t})
        \<and> safety_transcript a b d e = safety_transcript (local_account_id s) (local_account_id t)
              (local_device_id s) (local_device_id t)
        \<longrightarrow> {a, b} = {local_account_id s, local_account_id t} \<and> {d, e} = {local_device_id s, local_device_id t})"
proof -
  have c1: "safety_number sha s = safety_number sha t"
    using assms by (simp add: safety_number_def safety_transcript_def min.commute max.commute)
  have c2: "safety_number sha s \<noteq> None" using assms(1) by (simp add: safety_number_def)
  have c3: "{a, b} = {local_account_id s, local_account_id t} \<and> {d, e} = {local_device_id s, local_device_id t}"
    if n: "newline \<notin> \<Union> (set ` {a, b, d, e, local_account_id s, local_account_id t,
            local_device_id s, local_device_id t})"
      and eq: "safety_transcript a b d e = safety_transcript (local_account_id s) (local_account_id t)
              (local_device_id s) (local_device_id t)" for a b d e
    by (rule safety_transcript_inject [OF _ _ _ _ _ _ _ _ eq]) (use n in simp_all)
  show ?thesis
    by (rule conjI [OF c1 conjI [OF c2]]) (intro allI impI, elim conjE, rule c3, assumption+)
qed

section \<open>What the established state lets through\<close>

text \<open>A peer staged over an established pairing is treated as confirmed, although its own safety number
  was never compared, even when the user had just withdrawn the confirmation.\<close>

lemma staged_peer_unconfirmed:
  assumes "can_message s" "pair_peer s = Some q" "valid_verified_peer parse p" "now < inv_expires_at p"
    and "inv_account_id p \<noteq> local_account_id s" "inv_account_id p \<noteq> inv_account_id q"
  shows "\<exists>t. snd (pairing_op parse sha (VerifyPeer p now) (snd (pairing_op parse sha UnverifySafety s))) = t
    \<and> can_message t \<and> pair_peer t = Some p"
  using assms by (simp add: can_message_def pairing_op_defs)

text \<open>Creating an invite while a pairing is established leaves a session whose snapshot is refused.\<close>

lemma reopened_invite_not_restorable:
  assumes "pair_state s = Established" "pair_peer s = Some q"
    and "store_get pairing_key st = Some bs" "of_json bs = Some (snapshot (snd (mark_invite_created s)))"
  shows "pairing_restore parse of_json account device st = Err CorruptStore"
  using assms by (simp add: pairing_restore_def mark_invite_created_def snapshot_def valid_state_shape_def
      PAIRING_SNAPSHOT_VERSION_def)

section \<open>Witnesses\<close>

lemma trim_str_graphic:
  assumes "list_all is_ascii_graphic s"
  shows "trim_str s = s"
proof -
  have a: "list_all is_ascii s" using assms by (auto simp: list_all_iff ascii_defs)
  have w: "\<forall>c \<in> set (map code s). \<not> is_whitespace c"
    using assms by (auto simp: list_all_iff ascii_defs is_whitespace_def)
  have "concat (map utf8_encode_char (map code t)) = t" if "list_all is_ascii t" for t
    using that by (induction t) (simp_all add: utf8_encode_char_def is_ascii_def)
  then show ?thesis
    using a trim_chars_id [OF w] by (simp add: trim_str_def utf8_decode_ascii)
qed

lemma graphic_hex: "list_all is_ascii_graphic (hex bs)"
proof -
  have "is_ascii_graphic c" if "is_ascii_hexdigit c" for c using that by (auto simp: ascii_defs)
  then show ?thesis using hex_all_hexdigits [of bs] by (auto simp: list_all_iff)
qed

definition demo_session :: PairingSession where
  "demo_session = \<lparr> local_account_id = ''me'', local_device_id = ''d'', pair_state = Established,
     pair_peer = Some demo_invite, safety_verified = True \<rparr>"

lemma demo_peer_valid: "valid_verified_peer parse demo_invite"
proof -
  have "wf_identifier (root_account_id demo_ed demo_root)"
    using graphic_hex [of "ed_public demo_ed demo_root"]
    by (auto simp: wf_identifier_def root_account_id_def account_id_from_public_def list_all_iff ascii_defs
        demo_ed_def)
  then show ?thesis
    by (simp add: valid_verified_peer_def is_ok_iff demo_invite_def wf_identifier_def [of "''device-1''"]
        valid_relay_origin_def starts_with_def utf8_decode_ascii ascii_defs is_whitespace_def is_control_def
        valid_conversation_id_def)
qed

lemma demo_account: "inv_account_id demo_invite \<noteq> ''me''" "inv_expires_at demo_invite = 700"
  by (simp_all add: demo_invite_def root_account_id_def account_id_from_public_def)

lemma demo_run:
  "\<exists>tr. pairing_run parse sha (pairing_new ''me'' ''d'') tr demo_session"
proof -
  let ?s0 = "pairing_new ''me'' ''d''"
  let ?s1 = "?s0 \<lparr> pair_peer := Some demo_invite, pair_state := PeerVerified, safety_verified := False \<rparr>"
  let ?s2 = "?s1 \<lparr> safety_verified := True \<rparr>"
  define v where "v = ''sha256-'' @ hex (sha (as_bytes
    (safety_transcript ''me'' (inv_account_id demo_invite) ''d'' (inv_device_id demo_invite))))"
  have "trim_str v = v"
    by (rule trim_str_graphic) (simp add: v_def graphic_hex ascii_defs)
  then have "pairing_op parse sha (ConfirmSafety v) ?s1 = (Ok (), ?s2)"
    by (simp add: confirm_safety_def pairing_new_def safety_number_def v_def)
  moreover have "pairing_op parse sha (VerifyPeer demo_invite 100) ?s0 = (Ok (), ?s1)"
    using demo_account demo_peer_valid by (simp add: verify_peer_def pairing_new_def)
  moreover have "pairing_op parse sha (Approve 100) ?s2 = (Ok (), demo_session)"
    using demo_account by (simp add: approve_def pairing_new_def demo_session_def)
  ultimately show ?thesis by (metis run_Nil run_snoc)
qed


theorem pairing_restart_witness:
  "\<exists>st'. pairing_persist (\<lambda>sn. if sn = snapshot demo_session then Some [1] else None) tag_crypto
        (demo_commit Done) demo_session (demo_store, demo_disk) = (Ok (), st')
     \<and> pairing_restore (\<lambda>_. None) (\<lambda>_. Some (snapshot demo_session)) ''me'' ''d'' st' = Ok demo_session"
proof -
  let ?to = "\<lambda>sn. if sn = snapshot demo_session then Some [1 :: byte] else None"
  obtain tr where tr: "pairing_run (\<lambda>_. None) (fit 32) (pairing_new ''me'' ''d'') tr demo_session"
    using demo_run by blast
  have "fst (store_put tag_crypto (demo_commit Done) pairing_key [1] (demo_store, demo_disk)) = Ok ()"
    by (rule demo_store_put) (simp_all add: pairing_key_def wf_key_def ascii_defs MAX_VALUE_BYTES_def)
  then obtain st' where p: "pairing_persist ?to tag_crypto (demo_commit Done) demo_session
      (demo_store, demo_disk) = (Ok (), st')"
    by (auto simp: pairing_persist_def) (metis prod.collapse)
  have "pairing_restore (\<lambda>_. None) (\<lambda>_. Some (snapshot demo_session)) ''me'' ''d'' st' =
      (if pair_state demo_session = InviteCreated \<and> pair_peer demo_session \<noteq> None
       then Err CorruptStore else Ok demo_session)"
    by (rule pairing_restart [OF tr p]) (simp split: if_splits)
  with p show ?thesis by (auto simp: demo_session_def)
qed

theorem safety_number_agrees_witness:
  "safety_number (fit 32) demo_session
     = safety_number (fit 32) (demo_session \<lparr> local_account_id := inv_account_id demo_invite,
         local_device_id := inv_device_id demo_invite,
         pair_peer := Some (demo_invite \<lparr> inv_account_id := ''me'', inv_device_id := ''d'' \<rparr>) \<rparr>)"
  by (rule safety_number_agrees [THEN conjunct1, of _ demo_invite _
        "demo_invite \<lparr> inv_account_id := ''me'', inv_device_id := ''d'' \<rparr>"])
     (simp_all add: demo_session_def)

end
