(* ===== verification/Contacts.thy ===== *)
theory Contacts
  imports Pairing
begin

text \<open>
  The contact directory (\<^verbatim>\<open>contacts.rs\<close>): contacts by account id with their pinned device, relay, inbox,
  conversation, block state and message summary, and the persisted directory.  The relay origin check is
  the one of \<^verbatim>\<open>pairing.rs\<close>, which both files repeat.
\<close>

section \<open>Definitions\<close>

definition DIRECTORY_VERSION :: u16 where "DIRECTORY_VERSION = 1"
definition MAX_ALIAS_BYTES :: nat where "MAX_ALIAS_BYTES = 128"
definition MAX_PREVIEW_BYTES :: nat where "MAX_PREVIEW_BYTES = 4 * 1024"
definition MAX_CONTACTS :: nat where "MAX_CONTACTS = MAX_RECORDS"

record ContactRecord =
  ct_account_id :: string
  ct_device_id :: string
  ct_relay_origin :: string
  ct_inbox_url :: "string option"
  ct_alias :: "string option"
  ct_state :: string
  ct_conversation_id :: "string option"
  ct_last_message_preview :: "string option"
  ct_last_message_at :: "u64 option"
  ct_unread_count :: u32

type_synonym ContactDirectory = "(string, ContactRecord) btree"

record DirectorySnapshot =
  dir_version :: u16
  dir_contacts :: ContactDirectory

datatype ContactDirectoryError =
  DuplicateContactDevice | ContactNotFound | InvalidAlias | DirectoryCorrupt | InvalidContactState

type_synonym contact_result = "(ContactDirectoryError + unit) \<times> ContactDirectory"

definition or_else :: "'a option \<Rightarrow> 'a option \<Rightarrow> 'a option" where
  "or_else a b = (case a of Some x \<Rightarrow> Some x | None \<Rightarrow> b)"

definition upserted ::
    "ContactRecord option \<Rightarrow> string \<Rightarrow> string \<Rightarrow> string \<Rightarrow> string option \<Rightarrow> u64 \<Rightarrow> ContactRecord" where
  "upserted old account_id device_id relay_origin inbox_url now =
     \<lparr> ct_account_id = account_id, ct_device_id = device_id, ct_relay_origin = relay_origin,
       ct_inbox_url = or_else inbox_url (Option.bind old ct_inbox_url),
       ct_alias = Option.bind old ct_alias,
       ct_state = (case old of None \<Rightarrow> ''verified'' | Some c \<Rightarrow> ct_state c),
       ct_conversation_id = Option.bind old ct_conversation_id,
       ct_last_message_preview = Option.bind old ct_last_message_preview,
       ct_last_message_at = or_else (Option.bind old ct_last_message_at) (Some now),
       ct_unread_count = (case old of None \<Rightarrow> 0 | Some c \<Rightarrow> ct_unread_count c) \<rparr>"

definition upsert_verified_with_inbox ::
    "string \<Rightarrow> string \<Rightarrow> string \<Rightarrow> string option \<Rightarrow> u64 \<Rightarrow> ContactDirectory \<Rightarrow> contact_result" where
  "upsert_verified_with_inbox account_id device_id relay_origin inbox_url now m =
     (if (case fmlookup m account_id of None \<Rightarrow> False | Some c \<Rightarrow> ct_device_id c \<noteq> device_id)
      then (Err DuplicateContactDevice, m)
      else (Ok (), fmupd account_id
              (upserted (fmlookup m account_id) account_id device_id relay_origin inbox_url now) m))"

definition upsert_verified :: "string \<Rightarrow> string \<Rightarrow> string \<Rightarrow> u64 \<Rightarrow> ContactDirectory \<Rightarrow> contact_result" where
  "upsert_verified account_id device_id relay_origin now =
     upsert_verified_with_inbox account_id device_id relay_origin None now"

text \<open>The common shape of the updates of one contact.\<close>

definition update_contact :: "string \<Rightarrow> (ContactRecord \<Rightarrow> ContactRecord) \<Rightarrow> ContactDirectory \<Rightarrow> contact_result" where
  "update_contact account_id f m =
     (case fmlookup m account_id of
        None \<Rightarrow> (Err ContactNotFound, m)
      | Some c \<Rightarrow> (Ok (), fmupd account_id (f c) m))"

definition has_control :: "string \<Rightarrow> bool" where
  "has_control s = (case utf8_decode s of None \<Rightarrow> False | Some cs \<Rightarrow> list_ex is_control cs)"

definition set_alias :: "string \<Rightarrow> string \<Rightarrow> ContactDirectory \<Rightarrow> contact_result" where
  "set_alias account_id alias m =
     (if MAX_ALIAS_BYTES < length alias \<or> has_control alias then (Err InvalidAlias, m)
      else update_contact account_id (\<lambda>c. c \<lparr> ct_alias := non_empty (trim_str alias) \<rparr>) m)"

definition contacts_list :: "ContactDirectory \<Rightarrow> ContactRecord list" where
  "contacts_list m = map snd (sorted_list_of_fmap m)"

definition for_conversation :: "ContactDirectory \<Rightarrow> string \<Rightarrow> ContactRecord option" where
  "for_conversation m conversation_id =
     find (\<lambda>c. ct_conversation_id c = Some conversation_id) (contacts_list m)"

definition bind_conversation :: "string \<Rightarrow> string \<Rightarrow> ContactDirectory \<Rightarrow> contact_result" where
  "bind_conversation account_id conversation_id m =
     (case fmlookup m account_id of
        None \<Rightarrow> (Err ContactNotFound, m)
      | Some c \<Rightarrow>
          if conversation_id = [] \<or> 128 < length conversation_id \<or> \<not> list_all is_ascii conversation_id
          then (Err InvalidAlias, m)
          else (Ok (), fmupd account_id (c \<lparr> ct_conversation_id := Some conversation_id \<rparr>) m))"

definition mark_read :: "string \<Rightarrow> ContactDirectory \<Rightarrow> contact_result" where
  "mark_read account_id = update_contact account_id (\<lambda>c. c \<lparr> ct_unread_count := 0 \<rparr>)"

definition mark_unread :: "string \<Rightarrow> u64 \<Rightarrow> ContactDirectory \<Rightarrow> contact_result" where
  "mark_unread account_id now = update_contact account_id
     (\<lambda>c. c \<lparr> ct_unread_count := sat_add (ct_unread_count c) 1, ct_last_message_at := Some now \<rparr>)"

definition block :: "string \<Rightarrow> ContactDirectory \<Rightarrow> contact_result" where
  "block account_id = update_contact account_id (\<lambda>c. c \<lparr> ct_state := ''blocked'' \<rparr>)"

definition unblock :: "string \<Rightarrow> ContactDirectory \<Rightarrow> contact_result" where
  "unblock account_id = update_contact account_id (\<lambda>c. c \<lparr> ct_state := ''verified'' \<rparr>)"

definition remove_contact_record ::
    "string \<Rightarrow> ContactDirectory \<Rightarrow> (ContactDirectoryError + ContactRecord) \<times> ContactDirectory" where
  "remove_contact_record account_id m = (ok_or (fmlookup m account_id) ContactNotFound, fmdrop account_id m)"

definition is_blocked_conversation :: "ContactDirectory \<Rightarrow> string \<Rightarrow> bool" where
  "is_blocked_conversation m conversation_id =
     list_ex (\<lambda>c. ct_state c = ''blocked'' \<and> ct_conversation_id c = Some conversation_id) (contacts_list m)"

definition message_recorded :: "string \<Rightarrow> u64 \<Rightarrow> bool \<Rightarrow> ContactRecord \<Rightarrow> ContactRecord" where
  "message_recorded preview now background c =
     c \<lparr> ct_last_message_at := Some now, ct_last_message_preview := Some preview,
         ct_unread_count := (if background then sat_add (ct_unread_count c) 1 else 0) \<rparr>"

definition record_message ::
    "string \<Rightarrow> string \<Rightarrow> u64 \<Rightarrow> bool \<Rightarrow> ContactDirectory \<Rightarrow> contact_result" where
  "record_message conversation_id preview now background m =
     (case find (\<lambda>(k, c). ct_conversation_id c = Some conversation_id) (sorted_list_of_fmap m) of
        None \<Rightarrow> (Err ContactNotFound, m)
      | Some (k, c) \<Rightarrow> (Ok (), fmupd k (message_recorded preview now background c) m))"

definition contacts_key :: record_key where
  "contacts_key = (RecordClass.Contact, ''contacts/directory'')"

definition snapshot_bytes :: "(DirectorySnapshot \<Rightarrow> bytes option) \<Rightarrow> ContactDirectory \<Rightarrow> StorageError + bytes" where
  "snapshot_bytes to_json m =
     ok_or (to_json \<lparr> dir_version = DIRECTORY_VERSION, dir_contacts = m \<rparr>) CorruptStore"

definition contacts_persist ::
    "(DirectorySnapshot \<Rightarrow> bytes option) \<Rightarrow> store_crypto \<Rightarrow> commit_io \<Rightarrow> ContactDirectory
     \<Rightarrow> EncryptedStore \<times> disk \<Rightarrow> (StorageError + unit) \<times> EncryptedStore \<times> disk" where
  "contacts_persist to_json C io m st =
     (case snapshot_bytes to_json m of
        Inl e \<Rightarrow> (Err e, st)
      | Inr bs \<Rightarrow> store_put C io contacts_key bs st)"

definition valid_bound_inbox :: "string \<Rightarrow> string \<Rightarrow> bool" where
  "valid_bound_inbox origin value \<longleftrightarrow>
     starts_with value (origin @ ''/api/v1/inbox/'') \<and> length value \<le> 2 * 1024 \<and>
     CHR ''?'' \<notin> set value \<and> capability_ok (last (split_on CHR ''/'' value))"

definition valid_persisted_contact :: "string \<Rightarrow> ContactRecord \<Rightarrow> bool" where
  "valid_persisted_contact k c \<longleftrightarrow>
     k = ct_account_id c \<and>
     is_ok (validate_protocol_identifier (ct_account_id c)) \<and>
     is_ok (validate_protocol_identifier (ct_device_id c)) \<and>
     valid_relay_origin (ct_relay_origin c) \<and>
     (case ct_inbox_url c of None \<Rightarrow> True | Some i \<Rightarrow> valid_bound_inbox (ct_relay_origin c) i) \<and>
     (ct_state c = ''verified'' \<or> ct_state c = ''blocked'') \<and>
     (case ct_alias c of None \<Rightarrow> True | Some a \<Rightarrow> length a \<le> MAX_ALIAS_BYTES \<and> \<not> has_control a) \<and>
     (case ct_conversation_id c of None \<Rightarrow> True | Some v \<Rightarrow> valid_conversation_id v) \<and>
     (case ct_last_message_preview c of None \<Rightarrow> True | Some p \<Rightarrow> length p \<le> MAX_PREVIEW_BYTES)"

definition contacts_restore ::
    "(bytes \<Rightarrow> DirectorySnapshot option) \<Rightarrow> EncryptedStore \<times> disk \<Rightarrow> StorageError + ContactDirectory" where
  "contacts_restore of_json st =
     (case store_get contacts_key st of
        None \<Rightarrow> Ok fmempty
      | Some bs \<Rightarrow>
          res_bind (ok_or (of_json bs) CorruptStore) (\<lambda>sn.
            if dir_version sn \<noteq> DIRECTORY_VERSION then Err CorruptStore
            else if MAX_CONTACTS < fcard (fmdom (dir_contacts sn))
                    \<or> list_ex (\<lambda>(k, c). \<not> valid_persisted_contact k c) (sorted_list_of_fmap (dir_contacts sn))
            then Err CorruptStore
            else Ok (dir_contacts sn)))"

text \<open>Sequences of directory operations.\<close>

datatype ContactOp =
  Upsert string string string "string option" u64 | SetAlias string string | BindConversation string string
  | MarkRead string | MarkUnread string u64 | BlockContact string | UnblockContact string
  | RemoveContact string | RecordMessage string string u64 bool

fun contact_op :: "ContactOp \<Rightarrow> ContactDirectory \<Rightarrow> ContactDirectory" where
  "contact_op (Upsert a d r i now) m = snd (upsert_verified_with_inbox a d r i now m)"
| "contact_op (SetAlias a v) m = snd (set_alias a v m)"
| "contact_op (BindConversation a v) m = snd (bind_conversation a v m)"
| "contact_op (MarkRead a) m = snd (mark_read a m)"
| "contact_op (MarkUnread a now) m = snd (mark_unread a now m)"
| "contact_op (BlockContact a) m = snd (block a m)"
| "contact_op (UnblockContact a) m = snd (unblock a m)"
| "contact_op (RemoveContact a) m = snd (remove_contact_record a m)"
| "contact_op (RecordMessage v p now b) m = snd (record_message v p now b m)"

definition contact_ops :: "ContactOp list \<Rightarrow> ContactDirectory \<Rightarrow> ContactDirectory" where
  "contact_ops = fold contact_op"

lemmas contact_op_defs = upsert_verified_with_inbox_def set_alias_def bind_conversation_def mark_read_def
  mark_unread_def block_def unblock_def remove_contact_record_def record_message_def update_contact_def

section \<open>One operation\<close>

lemma find_sorted_list_of_fmap:
  "find P (sorted_list_of_fmap m) = Some (k, c) \<Longrightarrow> fmlookup m k = Some c \<and> P (k, c)"
  by (auto simp: find_Some_iff set_sorted_list_of_fmap [symmetric])

lemma record_message_cases:
  obtains (unknown) "record_message v p now b m = (Err ContactNotFound, m)"
  | (found) k c where "fmlookup m k = Some c" "ct_conversation_id c = Some v"
      "record_message v p now b m = (Ok (), fmupd k (message_recorded p now b c) m)"
proof (cases "find (\<lambda>(k, c). ct_conversation_id c = Some v) (sorted_list_of_fmap m)")
  case (Some kc)
  then show thesis
    using find_sorted_list_of_fmap [of _ m "fst kc" "snd kc"] that(2)
    by (cases kc) (auto simp: record_message_def)
qed (use that in \<open>simp add: record_message_def\<close>)

lemma contact_op_keeps:
  assumes "fmlookup m a = Some c" "op \<noteq> RemoveContact a"
  shows "\<exists>c'. fmlookup (contact_op op m) a = Some c' \<and> ct_device_id c' = ct_device_id c
    \<and> (op \<noteq> UnblockContact a \<and> ct_state c = ''blocked'' \<longrightarrow> ct_state c' = ''blocked'')"
proof (cases op)
  case (RecordMessage v p now b)
  then show ?thesis
    using assms by (cases rule: record_message_cases [of v p now b m]) (auto simp: message_recorded_def)
qed (use assms in \<open>auto simp: contact_op_defs upserted_def split: option.splits if_splits\<close>)

lemma contact_ops_Cons [simp]: "contact_ops (op # ops) m = contact_ops ops (contact_op op m)"
  and contact_ops_Nil [simp]: "contact_ops [] m = m"
  by (simp_all add: contact_ops_def)

text \<open>C31. A contact is pinned.  As long as a contact is not removed, no sequence of directory operations
  changes the device it was verified with, a new invite for another device of the same account is
  refused, and a blocked contact stays blocked, also when it is verified again, until it is unblocked.\<close>
theorem contact_pinned:
  assumes "fmlookup m a = Some c" "RemoveContact a \<notin> set ops"
  shows "\<exists>c'. fmlookup (contact_ops ops m) a = Some c' \<and> ct_device_id c' = ct_device_id c
    \<and> (UnblockContact a \<notin> set ops \<and> ct_state c = ''blocked'' \<longrightarrow> ct_state c' = ''blocked'')
    \<and> (d \<noteq> ct_device_id c \<longrightarrow>
        upsert_verified_with_inbox a d r i now (contact_ops ops m) = (Err DuplicateContactDevice, contact_ops ops m))"
  using assms
proof (induction ops arbitrary: m c)
  case (Cons op ops)
  obtain c1 where c1: "fmlookup (contact_op op m) a = Some c1" "ct_device_id c1 = ct_device_id c"
    "op \<noteq> UnblockContact a \<and> ct_state c = ''blocked'' \<longrightarrow> ct_state c1 = ''blocked''"
    using contact_op_keeps [OF Cons.prems(1), of op] Cons.prems(2) by auto
  from Cons.IH [OF c1(1)] Cons.prems(2) c1(2,3) show ?case by auto
qed (auto simp: upsert_verified_with_inbox_def)

section \<open>The persisted directory\<close>

lemma trim_str_bounds:
  assumes "\<not> has_control s"
  shows "length (trim_str s) \<le> length s \<and> \<not> has_control (trim_str s)"
proof (cases "utf8_decode s")
  case None
  then show ?thesis using assms by (simp add: trim_str_def)
next
  case (Some cs)
  define ds where "ds = trim_chars cs"
  have "\<exists>xs zs. cs = xs @ ds @ zs"
  proof -
    have "\<exists>zs. ys = rev (dropWhile is_whitespace (rev ys)) @ zs" for ys
      by (metis append.assoc rev_append rev_rev_ident takeWhile_dropWhile_id)
    moreover have "cs = takeWhile is_whitespace cs @ dropWhile is_whitespace cs" by simp
    ultimately show ?thesis unfolding ds_def trim_chars_def by metis
  qed
  then obtain xs zs where cs: "cs = xs @ ds @ zs" by blast
  have "trim_str s = utf8_encode ds" by (simp add: trim_str_def Some ds_def)
  moreover have "utf8_decode (utf8_encode ds) = Some ds \<and> length (utf8_encode ds) \<le> length s"
    using utf8_decode_middle [of s xs ds zs] Some cs by simp
  moreover have "\<not> list_ex is_control ds" using assms Some cs by (simp add: has_control_def)
  ultimately show ?thesis by (simp add: has_control_def)
qed

text \<open>The operations as the daemon's callers use them: identifiers and relay of a verified peer, inbox
  addresses of that relay, conversation ids in their final alphabet, and previews cut to the bound.\<close>

fun contact_op_clean :: "ContactDirectory \<Rightarrow> ContactOp \<Rightarrow> bool" where
  "contact_op_clean m (Upsert a d r i now) \<longleftrightarrow> wf_identifier a \<and> wf_identifier d \<and> valid_relay_origin r \<and>
     (case or_else i (Option.bind (fmlookup m a) ct_inbox_url) of None \<Rightarrow> True | Some j \<Rightarrow> valid_bound_inbox r j)"
| "contact_op_clean m (BindConversation a v) \<longleftrightarrow> valid_conversation_id v"
| "contact_op_clean m (RecordMessage v p now b) \<longleftrightarrow> length p \<le> MAX_PREVIEW_BYTES"
| "contact_op_clean m op \<longleftrightarrow> True"

inductive contact_reach :: "ContactDirectory \<Rightarrow> bool" where
  start: "contact_reach fmempty"
| step: "contact_reach m \<Longrightarrow> contact_op_clean m op \<Longrightarrow> contact_reach (contact_op op m)"

lemma valid_contact_iff:
  "valid_persisted_contact k c \<longleftrightarrow>
     k = ct_account_id c \<and> wf_identifier (ct_account_id c) \<and> wf_identifier (ct_device_id c) \<and>
     valid_relay_origin (ct_relay_origin c) \<and>
     (\<forall>i. ct_inbox_url c = Some i \<longrightarrow> valid_bound_inbox (ct_relay_origin c) i) \<and>
     (ct_state c = ''verified'' \<or> ct_state c = ''blocked'') \<and>
     (\<forall>a. ct_alias c = Some a \<longrightarrow> length a \<le> MAX_ALIAS_BYTES \<and> \<not> has_control a) \<and>
     (\<forall>v. ct_conversation_id c = Some v \<longrightarrow> valid_conversation_id v) \<and>
     (\<forall>p. ct_last_message_preview c = Some p \<longrightarrow> length p \<le> MAX_PREVIEW_BYTES)"
  by (simp add: valid_persisted_contact_def is_ok_iff split: option.splits)

lemma valid_upserted:
  assumes "\<And>c. old = Some c \<Longrightarrow> valid_persisted_contact a c" "wf_identifier a" "wf_identifier d"
    "valid_relay_origin r"
    "case or_else i (Option.bind old ct_inbox_url) of None \<Rightarrow> True | Some j \<Rightarrow> valid_bound_inbox r j"
  shows "valid_persisted_contact a (upserted old a d r i now)"
  using assms by (cases old) (auto simp: valid_contact_iff upserted_def split: option.splits)

lemma update_contact_valid:
  assumes "fmpred valid_persisted_contact m" "\<And>c. valid_persisted_contact a c \<Longrightarrow> valid_persisted_contact a (f c)"
  shows "fmpred valid_persisted_contact (snd (update_contact a f m))"
  using assms fmpredD [OF assms(1), of a] by (auto simp: update_contact_def split: option.splits)

lemma contact_op_valid:
  assumes "fmpred valid_persisted_contact m" "contact_op_clean m op"
  shows "fmpred valid_persisted_contact (contact_op op m)"
proof (cases op)
  case (Upsert a d r i now)
  have "valid_persisted_contact a (upserted (fmlookup m a) a d r i now)"
    using assms(2) Upsert by (intro valid_upserted) (auto intro: fmpredD [OF assms(1)])
  then show ?thesis using assms(1) Upsert by (auto simp: upsert_verified_with_inbox_def)
next
  case (SetAlias a v)
  have "valid_persisted_contact a (c \<lparr> ct_alias := non_empty (trim_str v) \<rparr>)"
    if "fmlookup m a = Some c" "length v \<le> MAX_ALIAS_BYTES" "\<not> has_control v" for c
    using fmpredD [OF assms(1) that(1)] trim_str_bounds [OF that(3)] that(2)
    by (auto simp: valid_contact_iff non_empty_def)
  then show ?thesis
    using assms(1) SetAlias by (auto simp: set_alias_def update_contact_def split: option.splits)
next
  case (BindConversation a v)
  have "valid_persisted_contact a (c \<lparr> ct_conversation_id := Some v \<rparr>)" if "fmlookup m a = Some c" for c
    using fmpredD [OF assms(1) that] assms(2) BindConversation by (simp add: valid_contact_iff)
  then show ?thesis using assms(1) BindConversation by (auto simp: bind_conversation_def split: option.splits)
next
  case (RecordMessage v p now b)
  then show ?thesis
    using assms
    by (cases rule: record_message_cases [of v p now b m])
       (auto simp: message_recorded_def valid_contact_iff dest!: fmpredD [OF assms(1)])
next
  case (RemoveContact a)
  then show ?thesis using assms(1) by (auto simp: remove_contact_record_def fmpred_iff split: if_splits)
qed (use assms in \<open>auto simp: mark_read_def mark_unread_def block_def unblock_def valid_contact_iff
      intro!: update_contact_valid\<close>)

lemma contact_reach_valid: "contact_reach m \<Longrightarrow> fmpred valid_persisted_contact m"
  by (induction rule: contact_reach.induct) (simp_all add: contact_op_valid)

lemma contacts_restore_saved:
  assumes "store_get contacts_key st = Some bs"
    and "of_json bs = Some \<lparr> dir_version = DIRECTORY_VERSION, dir_contacts = m \<rparr>"
  shows "contacts_restore of_json st =
    (if fcard (fmdom m) \<le> MAX_CONTACTS \<and> fmpred valid_persisted_contact m then Ok m else Err CorruptStore)"
proof -
  have "list_ex (\<lambda>(k, c). \<not> valid_persisted_contact k c) (sorted_list_of_fmap m)
      \<longleftrightarrow> \<not> fmpred valid_persisted_contact m"
    by (auto simp: list_ex_iff set_sorted_list_of_fmap fmpred_iff split: prod.splits) blast
  then show ?thesis
    using assms by (simp add: contacts_restore_def)
qed

text \<open>A directory built by the daemon survives a restart: after any sequence of operations on
  verified peers, a directory within the record limit that was persisted is read back unchanged, with
  every alias, block, binding, preview and counter.\<close>
theorem directory_restart:
  assumes "contact_reach m" "fcard (fmdom m) \<le> MAX_CONTACTS"
    and "contacts_persist to_json C io m st = (Ok (), st')" "\<And>sn b. to_json sn = Some b \<Longrightarrow> of_json b = Some sn"
  shows "contacts_restore of_json st' = Ok m"
proof -
  obtain bs where bs: "to_json \<lparr> dir_version = DIRECTORY_VERSION, dir_contacts = m \<rparr> = Some bs"
    "store_put C io contacts_key bs st = (Ok (), st')"
    using assms(3) by (cases "to_json \<lparr> dir_version = DIRECTORY_VERSION, dir_contacts = m \<rparr>")
      (auto simp: contacts_persist_def snapshot_bytes_def)
  show ?thesis
    using contacts_restore_saved [of st' bs of_json m] es.get_put_ok [OF bs(2)] assms(4) [OF bs(1)]
      contact_reach_valid [OF assms(1)] assms(2) by simp
qed

section \<open>What the loader refuses\<close>

text \<open>A contact that is verified again under another relay, without a new inbox, keeps the inbox of the
  old relay; the loader then refuses the whole directory.\<close>

lemma moved_contact_not_restorable:
  assumes "fmlookup m a = Some c" "ct_inbox_url c = Some i" "\<not> starts_with i (r @ ''/api/v1/inbox/'')"
    and "upsert_verified_with_inbox a (ct_device_id c) r None now m = (Ok (), m')"
    and "store_get contacts_key st = Some bs"
    and "of_json bs = Some \<lparr> dir_version = DIRECTORY_VERSION, dir_contacts = m' \<rparr>"
  shows "contacts_restore of_json st = Err CorruptStore"
proof -
  have "fmlookup m' a = Some (upserted (Some c) a (ct_device_id c) r None now)"
    using assms(1,4) by (auto simp: upsert_verified_with_inbox_def)
  moreover have "\<not> valid_persisted_contact a (upserted (Some c) a (ct_device_id c) r None now)"
    using assms(2,3) by (simp add: valid_contact_iff upserted_def or_else_def valid_bound_inbox_def)
  ultimately have "\<not> fmpred valid_persisted_contact m'" by (auto dest: fmpredD)
  then show ?thesis using contacts_restore_saved [of st bs of_json m'] assms(5,6) by simp
qed

text \<open>A conversation id in the full ASCII range is accepted when it is bound and refused when it is
  loaded.\<close>

lemma ascii_conversation_not_restorable:
  assumes "fmlookup m a = Some c" "bind_conversation a ''a.b'' m = (r, m')"
    and "store_get contacts_key st = Some bs"
    and "of_json bs = Some \<lparr> dir_version = DIRECTORY_VERSION, dir_contacts = m' \<rparr>"
  shows "r = Ok () \<and> contacts_restore of_json st = Err CorruptStore"
proof -
  have "r = Ok ()" "fmlookup m' a = Some (c \<lparr> ct_conversation_id := Some ''a.b'' \<rparr>)"
    using assms(1,2) by (auto simp: bind_conversation_def is_ascii_def)
  moreover have "\<not> valid_conversation_id ''a.b''" by (simp add: valid_conversation_id_def ascii_defs)
  then have "\<not> valid_persisted_contact a (c \<lparr> ct_conversation_id := Some ''a.b'' \<rparr>)"
    by (simp add: valid_contact_iff)
  ultimately have "r = Ok ()" "\<not> fmpred valid_persisted_contact m'" by (auto dest: fmpredD)
  then show ?thesis using contacts_restore_saved [of st bs of_json m'] assms(3,4) by simp
qed

section \<open>Witnesses\<close>

definition demo_directory :: ContactDirectory where
  "demo_directory = contact_op (BlockContact ''bob'') (contact_op
     (Upsert ''bob'' ''d1'' ''https://relay'' None 5) fmempty)"

lemma demo_directory_lookup:
  "\<exists>c. fmlookup demo_directory ''bob'' = Some c \<and> ct_device_id c = ''d1'' \<and> ct_state c = ''blocked''"
  by (simp add: demo_directory_def contact_op_defs upserted_def)

lemma demo_directory_reach: "contact_reach demo_directory"
proof -
  have "contact_op_clean fmempty (Upsert ''bob'' ''d1'' ''https://relay'' None 5)"
    by (simp add: wf_identifier_def or_else_def valid_relay_origin_def starts_with_def utf8_decode_ascii
        ascii_defs is_whitespace_def is_control_def)
  then show ?thesis
    unfolding demo_directory_def by (intro contact_reach.intros) simp_all
qed

theorem contact_pinned_witness:
  "\<exists>c. fmlookup (contact_ops [Upsert ''bob'' ''d1'' ''https://other'' None 9] demo_directory) ''bob'' = Some c
     \<and> ct_state c = ''blocked'' \<and> ct_device_id c = ''d1''"
proof -
  obtain c where "fmlookup demo_directory ''bob'' = Some c" "ct_device_id c = ''d1''" "ct_state c = ''blocked''"
    using demo_directory_lookup by blast
  from contact_pinned [OF this(1), of "[Upsert ''bob'' ''d1'' ''https://other'' None 9]" "''d1''" "''r''" None 0] this(2,3)
  show ?thesis by auto
qed

theorem directory_restart_witness:
  "\<exists>st'. contacts_persist (\<lambda>sn. if sn = \<lparr> dir_version = 1, dir_contacts = demo_directory \<rparr> then Some [1] else None)
        tag_crypto (demo_commit Done) demo_directory (demo_store, demo_disk) = (Ok (), st')
     \<and> contacts_restore (\<lambda>_. Some \<lparr> dir_version = 1, dir_contacts = demo_directory \<rparr>) st' = Ok demo_directory"
proof -
  let ?to = "\<lambda>sn. if sn = \<lparr> dir_version = 1, dir_contacts = demo_directory \<rparr> then Some [1 :: byte] else None"
  have "fst (store_put tag_crypto (demo_commit Done) contacts_key [1] (demo_store, demo_disk)) = Ok ()"
    by (rule demo_store_put) (simp_all add: contacts_key_def wf_key_def ascii_defs MAX_VALUE_BYTES_def)
  then obtain st' where p: "contacts_persist ?to tag_crypto (demo_commit Done) demo_directory
      (demo_store, demo_disk) = (Ok (), st')"
    by (auto simp: contacts_persist_def snapshot_bytes_def DIRECTORY_VERSION_def) (metis prod.collapse)
  have "fcard (fmdom demo_directory) \<le> MAX_CONTACTS"
    by (simp add: demo_directory_def contact_op_defs MAX_CONTACTS_def MAX_RECORDS_def fcard_finsert_if
        fcard_fempty)
  then have "contacts_restore (\<lambda>_. Some \<lparr> dir_version = 1, dir_contacts = demo_directory \<rparr>) st' = Ok demo_directory"
    by (rule directory_restart [OF demo_directory_reach _ p]) (simp split: if_splits)
  with p show ?thesis by blast
qed

end
