(* ===== verification/Bridge.thy ===== *)
theory Bridge
  imports AD_Text Protocol_Gate
begin

text \<open>
  The local browser bridge (\<^verbatim>\<open>bridge.rs\<close>): its loopback configuration, the one-time bootstrap token, the
  session with its cookie and CSRF token, and the authorisation of requests.

  Random tokens are arguments (\<open>None\<close> when the random source fails), SHA-256 is an argument.  An
  \<^verbatim>\<open>Instant\<close> is a number of nanoseconds of the monotonic clock.
\<close>

section \<open>Addresses\<close>

datatype IpAddr = V4 byte byte byte byte | V6 "u16 list"

definition is_loopback :: "IpAddr \<Rightarrow> bool" where
  "is_loopback a = (case a of V4 p _ _ _ \<Rightarrow> p = 127 | V6 segs \<Rightarrow> segs = [0, 0, 0, 0, 0, 0, 0, 1])"

definition v4_string :: "byte \<Rightarrow> byte \<Rightarrow> byte \<Rightarrow> byte \<Rightarrow> string" where
  "v4_string p q r s = join_with CHR ''.'' (map (\<lambda>b. dec_string (unat b)) [p, q, r, s])"

fun hex_nat :: "nat \<Rightarrow> string" where
  "hex_nat n = (if n < 16 then [hex_digit n] else hex_nat (n div 16) @ [hex_digit (n mod 16)])"

declare hex_nat.simps [simp del]

text \<open>The first longest run of zero groups, as start and length.\<close>

fun zero_run :: "u16 list \<Rightarrow> nat" where
  "zero_run (s # ss) = (if s = 0 then Suc (zero_run ss) else 0)"
| "zero_run [] = 0"

definition longest_zero_run :: "u16 list \<Rightarrow> nat \<times> nat" where
  "longest_zero_run segs =
     fold (\<lambda>i (start, len). if len < zero_run (drop i segs) then (i, zero_run (drop i segs)) else (start, len))
       [0..<length segs] (0, 0)"

definition v6_groups :: "u16 list \<Rightarrow> string" where
  "v6_groups segs = join_with CHR '':'' (map (\<lambda>s. hex_nat (unat s)) segs)"

definition v6_string :: "u16 list \<Rightarrow> string" where
  "v6_string segs =
     (if take 6 segs = [0, 0, 0, 0, 0, 65535]
      then ''::ffff:'' @ v4_string (ucast (drop_bit 8 (segs ! 6))) (ucast (segs ! 6))
             (ucast (drop_bit 8 (segs ! 7))) (ucast (segs ! 7))
      else (case longest_zero_run segs of (start, len) \<Rightarrow>
        if 1 < len then v6_groups (take start segs) @ ''::'' @ v6_groups (drop (start + len) segs)
        else v6_groups segs))"

definition expected_host :: "IpAddr \<Rightarrow> u16 \<Rightarrow> string" where
  "expected_host a port =
     (case a of
        V4 p q r s \<Rightarrow> v4_string p q r s @ '':'' @ dec_string (unat port)
      | V6 segs \<Rightarrow> ''['' @ v6_string segs @ '']:'' @ dec_string (unat port))"

definition is_exact_loopback_origin :: "string \<Rightarrow> IpAddr \<Rightarrow> u16 \<Rightarrow> bool" where
  "is_exact_loopback_origin origin a port \<longleftrightarrow> origin = ''http://'' @ expected_host a port"

section \<open>Definitions\<close>

definition TOKEN_BYTES :: nat where "TOKEN_BYTES = 32"
definition TOKEN_HASH_BYTES :: nat where "TOKEN_HASH_BYTES = 32"
definition DEFAULT_SESSION_TTL_SECONDS :: u64 where "DEFAULT_SESSION_TTL_SECONDS = 15 * 60"
definition MAX_UI_VERSION_BYTES :: nat where "MAX_UI_VERSION_BYTES = 64"

datatype BridgeError =
  NonLoopbackBind | InvalidUiOrigin | InvalidUiVersion | InvalidRequestOrigin | InvalidHost
  | InvalidBootstrap | BootstrapAlreadyConsumed | SessionInvalid | CsrfRequired
  | BridgeRandomnessUnavailable

record BridgeConfig =
  bind_host :: IpAddr
  bind_port :: u16
  ui_origin :: string
  config_ui_version :: string
  session_ttl_seconds :: u64

record SessionCredentials =
  cred_cookie :: string
  cred_set_cookie :: string
  cred_csrf_token :: string
  cred_expires_at :: u64
  cred_ui_version :: string

record SessionState =
  cookie_hash :: bytes
  csrf_hash :: bytes
  session_ttl :: TtlContract
  started :: nat

record LocalBridge =
  bridge_config :: BridgeConfig
  bootstrap_hash :: "bytes option"
  bootstrap_token :: "string option"
  session :: "SessionState option"

record BridgeRequest =
  req_origin :: string
  req_host :: string
  req_method :: string
  req_cookie :: string
  req_csrf_token :: "string option"
  req_ui_version :: string

definition bridge_config_new :: "IpAddr \<Rightarrow> u16 \<Rightarrow> string \<Rightarrow> string \<Rightarrow> BridgeError + BridgeConfig" where
  "bridge_config_new a port origin version =
     (if \<not> is_loopback a then Err NonLoopbackBind
      else if \<not> is_exact_loopback_origin origin a port then Err InvalidUiOrigin
      else if version = [] \<or> MAX_UI_VERSION_BYTES < length version
              \<or> (case utf8_decode version of None \<Rightarrow> False
                 | Some cs \<Rightarrow> list_ex (\<lambda>c. is_control c \<or> is_whitespace c) cs)
      then Err InvalidUiVersion
      else Ok \<lparr> bind_host = a, bind_port = port, ui_origin = origin, config_ui_version = version,
                session_ttl_seconds = DEFAULT_SESSION_TTL_SECONDS \<rparr>)"

definition with_session_ttl :: "u64 \<Rightarrow> BridgeConfig \<Rightarrow> BridgeConfig" where
  "with_session_ttl seconds c = c \<lparr> session_ttl_seconds := max seconds 1 \<rparr>"

definition is_state_changing_method :: "string \<Rightarrow> bool" where
  "is_state_changing_method m \<longleftrightarrow> m \<in> {''POST'', ''PUT'', ''PATCH'', ''DELETE''}"

definition random_token :: "bytes option \<Rightarrow> BridgeError + string" where
  "random_token r = res_bind (ok_or r BridgeRandomnessUnavailable) (\<lambda>bs. Ok (hex bs))"

definition hash_token :: "(bytes \<Rightarrow> bytes) \<Rightarrow> string \<Rightarrow> bytes" where
  "hash_token sha token = sha (as_bytes token)"

definition constant_time_equal :: "bytes \<Rightarrow> bytes \<Rightarrow> bool" where
  "constant_time_equal left right =
     (if length left \<noteq> length right then False
      else foldl (\<lambda>difference (a, b). or difference (xor a b)) 0 (zip left right) = 0)"

definition bridge_new :: "(bytes \<Rightarrow> bytes) \<Rightarrow> bytes option \<Rightarrow> BridgeConfig \<Rightarrow> BridgeError + LocalBridge" where
  "bridge_new sha r config =
     res_bind (random_token r) (\<lambda>bootstrap.
       Ok \<lparr> bridge_config = config, bootstrap_hash = Some (hash_token sha bootstrap),
            bootstrap_token = Some bootstrap, session = None \<rparr>)"

definition bootstrap_url :: "LocalBridge \<Rightarrow> string \<Rightarrow> BridgeError + string" where
  "bootstrap_url b ui_path =
     (if CHR ''#'' \<in> set ui_path \<or> CHR ''?'' \<in> set ui_path \<or> CHR 0x0A \<in> set ui_path \<or> CHR 0x0D \<in> set ui_path
      then Err InvalidUiOrigin
      else res_bind (ok_or (bootstrap_token b) BootstrapAlreadyConsumed) (\<lambda>token.
        Ok (ui_origin (bridge_config b) @ ui_path @ ''#ad_bootstrap='' @ token)))"

definition check_origin_host :: "LocalBridge \<Rightarrow> string \<Rightarrow> string \<Rightarrow> BridgeError + unit" where
  "check_origin_host b origin host =
     (if origin \<noteq> ui_origin (bridge_config b) then Err InvalidRequestOrigin
      else if host \<noteq> expected_host (bind_host (bridge_config b)) (bind_port (bridge_config b))
      then Err InvalidHost
      else Ok ())"

text \<open>\<open>r1\<close> and \<open>r2\<close> are the random bytes for the cookie and the CSRF token, \<open>clock\<close> the monotonic clock.\<close>

definition issue_session ::
    "(bytes \<Rightarrow> bytes) \<Rightarrow> bytes option \<Rightarrow> bytes option \<Rightarrow> u64 \<Rightarrow> nat \<Rightarrow> LocalBridge
     \<Rightarrow> (BridgeError + SessionCredentials) \<times> LocalBridge" where
  "issue_session sha r1 r2 now clock b =
     (case res_bind (random_token r1) (\<lambda>cookie. res_bind (random_token r2) (\<lambda>csrf. Ok (cookie, csrf))) of
        Inl e \<Rightarrow> (Err e, b)
      | Inr (cookie, csrf) \<Rightarrow>
          (let ttl = \<lparr> issued_at = now, ttl_seconds = session_ttl_seconds (bridge_config b) \<rparr> in
           (Ok \<lparr> cred_cookie = cookie,
                 cred_set_cookie = ''ad_session='' @ cookie @ ''; Path=/; HttpOnly; SameSite=Strict; Max-Age=''
                   @ u64_to_string (session_ttl_seconds (bridge_config b)),
                 cred_csrf_token = csrf, cred_expires_at = ttl_expires_at ttl,
                 cred_ui_version = config_ui_version (bridge_config b) \<rparr>,
            b \<lparr> session := Some \<lparr> cookie_hash = hash_token sha cookie, csrf_hash = hash_token sha csrf,
                                  session_ttl = ttl, started = clock \<rparr> \<rparr>)))"

definition exchange ::
    "(bytes \<Rightarrow> bytes) \<Rightarrow> bytes option \<Rightarrow> bytes option \<Rightarrow> string \<Rightarrow> string \<Rightarrow> string \<Rightarrow> string \<Rightarrow> u64 \<Rightarrow> nat
     \<Rightarrow> LocalBridge \<Rightarrow> (BridgeError + SessionCredentials) \<times> LocalBridge" where
  "exchange sha r1 r2 origin host token ui_version now clock b =
     (case check_origin_host b origin host of
        Inl e \<Rightarrow> (Err e, b)
      | Inr _ \<Rightarrow>
          if ui_version \<noteq> config_ui_version (bridge_config b) then (Err InvalidBootstrap, b)
          else (case bootstrap_hash b of
             None \<Rightarrow> (Err BootstrapAlreadyConsumed, b)
           | Some expected \<Rightarrow>
               if \<not> constant_time_equal expected (hash_token sha token) then (Err InvalidBootstrap, b)
               else issue_session sha r1 r2 now clock
                      (b \<lparr> bootstrap_hash := None, bootstrap_token := None \<rparr>)))"

definition renew ::
    "(bytes \<Rightarrow> bytes) \<Rightarrow> bytes option \<Rightarrow> bytes option \<Rightarrow> string \<Rightarrow> string \<Rightarrow> string \<Rightarrow> string \<Rightarrow> string \<Rightarrow> u64 \<Rightarrow> nat
     \<Rightarrow> LocalBridge \<Rightarrow> (BridgeError + SessionCredentials) \<times> LocalBridge" where
  "renew sha r1 r2 origin host cookie csrf ui_version now clock b =
     (case check_origin_host b origin host of
        Inl e \<Rightarrow> (Err e, b)
      | Inr _ \<Rightarrow>
          if ui_version \<noteq> config_ui_version (bridge_config b) then (Err SessionInvalid, b)
          else (case session b of
             None \<Rightarrow> (Err SessionInvalid, b)
           | Some s \<Rightarrow>
               if \<not> constant_time_equal (cookie_hash s) (hash_token sha cookie)
                  \<or> \<not> constant_time_equal (csrf_hash s) (hash_token sha csrf)
               then (Err SessionInvalid, b)
               else issue_session sha r1 r2 now clock b))"

definition elapsed_secs :: "nat \<Rightarrow> SessionState \<Rightarrow> u64" where
  "elapsed_secs clock s = of_nat ((clock - started s) div 1000000000)"

definition bridge_authorize ::
    "(bytes \<Rightarrow> bytes) \<Rightarrow> LocalBridge \<Rightarrow> BridgeRequest \<Rightarrow> u64 \<Rightarrow> nat \<Rightarrow> BridgeError + unit" where
  "bridge_authorize sha b request now clock =
     res_bind (check_origin_host b (req_origin request) (req_host request)) (\<lambda>_.
     if req_ui_version request \<noteq> config_ui_version (bridge_config b) then Err SessionInvalid
     else res_bind (ok_or (session b) SessionInvalid) (\<lambda>s.
       if ttl_is_expired (session_ttl s) now (elapsed_secs clock s)
          \<or> \<not> constant_time_equal (cookie_hash s) (hash_token sha (req_cookie request))
       then Err SessionInvalid
       else if is_state_changing_method (req_method request)
               \<and> \<not> constant_time_equal (csrf_hash s)
                     (hash_token sha (case req_csrf_token request of None \<Rightarrow> [] | Some t \<Rightarrow> t))
       then Err CsrfRequired
       else Ok ()))"

definition invalidate_session :: "LocalBridge \<Rightarrow> LocalBridge" where
  "invalidate_session b = b \<lparr> session := None \<rparr>"

text \<open>What a browser can make the bridge do, with the credentials each operation hands out together with
  the wall and monotonic time of their issue.\<close>

datatype BridgeOp =
  ExchangeOp "bytes option" "bytes option" string string string string u64 nat
  | RenewOp "bytes option" "bytes option" string string string string string u64 nat
  | InvalidateOp

type_synonym issue = "SessionCredentials \<times> u64 \<times> nat"

definition issue_of :: "(BridgeError + SessionCredentials) \<times> LocalBridge \<Rightarrow> u64 \<Rightarrow> nat \<Rightarrow> issue list \<times> LocalBridge" where
  "issue_of r now clock = (case r of (Inl _, b) \<Rightarrow> ([], b) | (Inr c, b) \<Rightarrow> ([(c, now, clock)], b))"

fun bridge_op :: "(bytes \<Rightarrow> bytes) \<Rightarrow> BridgeOp \<Rightarrow> LocalBridge \<Rightarrow> issue list \<times> LocalBridge" where
  "bridge_op sha (ExchangeOp r1 r2 origin host token v now clock) b =
     issue_of (exchange sha r1 r2 origin host token v now clock b) now clock"
| "bridge_op sha (RenewOp r1 r2 origin host cookie csrf v now clock) b =
     issue_of (renew sha r1 r2 origin host cookie csrf v now clock b) now clock"
| "bridge_op sha InvalidateOp b = ([], invalidate_session b)"

text \<open>A run, newest credentials first.\<close>

fun bridge_run :: "(bytes \<Rightarrow> bytes) \<Rightarrow> BridgeOp list \<Rightarrow> issue list \<times> LocalBridge \<Rightarrow> issue list \<times> LocalBridge" where
  "bridge_run sha [] s = s"
| "bridge_run sha (a # ops) (issued, b) =
     (case bridge_op sha a b of (new, b') \<Rightarrow> bridge_run sha ops (new @ issued, b'))"

fun is_exchange :: "BridgeOp \<Rightarrow> bool" where
  "is_exchange (ExchangeOp r1 r2 origin host token v now clock) = True"
| "is_exchange _ = False"

fun exchanges_granted :: "(bytes \<Rightarrow> bytes) \<Rightarrow> BridgeOp list \<Rightarrow> LocalBridge \<Rightarrow> nat" where
  "exchanges_granted sha [] b = 0"
| "exchanges_granted sha (a # ops) b =
     (if is_exchange a \<and> fst (bridge_op sha a b) \<noteq> [] then 1 else 0)
     + exchanges_granted sha ops (snd (bridge_op sha a b))"

section \<open>Token comparison\<close>

lemma xor_eq_0_iff: "xor a b = 0 \<longleftrightarrow> a = (b :: 'a::len word)"
  by (metis xor.right_neutral xor_self_eq xor.assoc xor.left_neutral)

lemma foldl_difference:
  "foldl (\<lambda>d (a, b). or d (xor a b)) d xs = 0 \<longleftrightarrow> d = 0 \<and> (\<forall>(a, b) \<in> set xs. a = (b :: byte))"
  by (induction xs arbitrary: d) (auto simp: or_eq_0_iff xor_eq_0_iff)

text \<open>The constant-time comparison of two token hashes, which folds the differences of all bytes, decides
  equality of the byte strings.\<close>

lemma constant_time_equal_iff [simp]: "constant_time_equal left right \<longleftrightarrow> left = right"
proof (cases "length left = length right")
  case True
  then have "(\<forall>(a, b) \<in> set (zip left right). a = b) \<longleftrightarrow> left = right"
    by (auto simp: list_eq_iff_zip_eq)
  with True show ?thesis by (simp add: constant_time_equal_def foldl_difference)
qed (auto simp: constant_time_equal_def)

section \<open>The bootstrap token\<close>

lemma issue_session_config [simp]:
  "bridge_config (snd (issue_session sha r1 r2 now clock b)) = bridge_config b"
  "bootstrap_hash (snd (issue_session sha r1 r2 now clock b)) = bootstrap_hash b"
  by (auto simp: issue_session_def Let_def split: sum.splits)

lemma issue_of_snd [simp]: "snd (issue_of r now clock) = snd r"
  by (auto simp: issue_of_def split: prod.splits sum.splits)

lemma bridge_op_config [simp]: "bridge_config (snd (bridge_op sha a b)) = bridge_config b"
  by (cases a) (auto simp: exchange_def renew_def invalidate_session_def split: sum.splits option.splits)

lemma bridge_op_consumed: "bootstrap_hash b = None \<Longrightarrow> bootstrap_hash (snd (bridge_op sha a b)) = None"
  by (cases a) (auto simp: exchange_def renew_def invalidate_session_def split: sum.splits option.splits)

lemma exchange_consumed:
  "bootstrap_hash b = None \<Longrightarrow> is_exchange a \<Longrightarrow> fst (bridge_op sha a b) = []"
  by (cases a) (auto simp: exchange_def issue_of_def split: sum.splits)

lemma exchange_grants:
  assumes "is_exchange a" "fst (bridge_op sha a b) \<noteq> []"
  shows "bootstrap_hash (snd (bridge_op sha a b)) = None"
  using assms
  by (cases a) (auto simp: exchange_def issue_of_def [of "(_, b)"] split: sum.splits option.splits if_splits)

lemma exchanges_after_consumption: "bootstrap_hash b = None \<Longrightarrow> exchanges_granted sha ops b = 0"
  by (induction ops arbitrary: b) (auto simp: exchange_consumed bridge_op_consumed)

text \<open>C32. The bootstrap token is good for one session at most: in every sequence of exchanges, renewals
  and invalidations, at most one exchange hands out credentials.\<close>
theorem bootstrap_at_most_once: "exchanges_granted sha ops b \<le> 1"
proof (induction ops arbitrary: b)
  case (Cons a ops)
  show ?case
  proof (cases "is_exchange a \<and> fst (bridge_op sha a b) \<noteq> []")
    case True
    then have "exchanges_granted sha ops (snd (bridge_op sha a b)) = 0"
      by (intro exchanges_after_consumption exchange_grants) auto
    then show ?thesis by simp
  next
    case False
    then show ?thesis using Cons.IH [of "snd (bridge_op sha a b)"] by auto
  qed
qed simp

section \<open>Authorised requests\<close>

text \<open>The session is the one of the newest credentials.\<close>

definition session_of :: "(bytes \<Rightarrow> bytes) \<Rightarrow> BridgeConfig \<Rightarrow> issue \<Rightarrow> SessionState" where
  "session_of sha config i = (case i of (c, now, clock) \<Rightarrow>
     \<lparr> cookie_hash = hash_token sha (cred_cookie c), csrf_hash = hash_token sha (cred_csrf_token c),
       session_ttl = \<lparr> issued_at = now, ttl_seconds = session_ttl_seconds config \<rparr>, started = clock \<rparr>)"

definition session_newest :: "(bytes \<Rightarrow> bytes) \<Rightarrow> issue list \<times> LocalBridge \<Rightarrow> bool" where
  "session_newest sha s \<longleftrightarrow> (\<forall>t. session (snd s) = Some t \<longrightarrow>
     fst s \<noteq> [] \<and> t = session_of sha (bridge_config (snd s)) (hd (fst s)))"

lemma issue_session_newest:
  "session_newest sha (issued, b) \<Longrightarrow>
   session_newest sha (case issue_of (issue_session sha r1 r2 now clock b) now clock of (new, b') \<Rightarrow> (new @ issued, b'))"
  by (auto simp: issue_session_def issue_of_def session_newest_def session_of_def Let_def
      split: sum.splits option.splits)

lemma bridge_op_newest:
  assumes "session_newest sha (issued, b)" "bridge_op sha a b = (new, b')"
  shows "session_newest sha (new @ issued, b')"
proof -
  have kept: "session_newest sha (issued, b \<lparr> bootstrap_hash := None, bootstrap_token := None \<rparr>)"
    using assms(1) by (simp add: session_newest_def)
  show ?thesis
    using assms issue_session_newest [OF assms(1)] issue_session_newest [OF kept]
    by (cases a)
       (fastforce simp: exchange_def renew_def invalidate_session_def session_newest_def issue_of_def
          split: sum.splits option.splits if_splits prod.splits)+
qed

lemma bridge_run_newest:
  "session_newest sha s \<Longrightarrow> session_newest sha (bridge_run sha ops s)
     \<and> bridge_config (snd (bridge_run sha ops s)) = bridge_config (snd s)"
proof (induction sha ops s rule: bridge_run.induct)
  case (2 sha a ops issued b)
  obtain new b' where n: "bridge_op sha a b = (new, b')" by fastforce
  with 2 bridge_op_newest [OF 2(2) n] bridge_op_config [of sha a b] show ?case by simp
qed simp

text \<open>C33. A request is let through only with the newest credentials.  In every run of a bridge, an
  authorised request carries the exact configured origin, host and interface version, its cookie hashes
  like the cookie of the newest credentials handed out, a state-changing request also carries the
  matching CSRF token, and the session is within its lifetime both by the wall clock and by the
  monotonic clock, so that setting the wall clock back does not extend it.\<close>
theorem authorized_request_current:
  assumes "bridge_new sha r config = Ok b0" "bridge_run sha ops ([], b0) = (issued, b)"
    and "bridge_authorize sha b q now clock = Ok ()"
  shows "\<exists>c t0 clock0 older. issued = (c, t0, clock0) # older
    \<and> req_origin q = ui_origin config \<and> req_host q = expected_host (bind_host config) (bind_port config)
    \<and> req_ui_version q = config_ui_version config
    \<and> sha (as_bytes (req_cookie q)) = sha (as_bytes (cred_cookie c))
    \<and> (is_state_changing_method (req_method q) \<longrightarrow>
        sha (as_bytes (case req_csrf_token q of None \<Rightarrow> [] | Some t \<Rightarrow> t)) = sha (as_bytes (cred_csrf_token c)))
    \<and> now < sat_add t0 (session_ttl_seconds config)
    \<and> (of_nat ((clock - clock0) div 1000000000) :: u64) < session_ttl_seconds config"
proof -
  have "session_newest sha ([], b0)" "bridge_config b0 = config"
    using assms(1) by (auto simp: bridge_new_def session_newest_def)
  then have n: "session_newest sha (issued, b)" and c: "bridge_config b = config"
    using bridge_run_newest [of sha "([], b0)" ops] assms(2) by auto
  obtain s where s: "session b = Some s" "\<not> ttl_is_expired (session_ttl s) now (elapsed_secs clock s)"
      "cookie_hash s = hash_token sha (req_cookie q)"
      "is_state_changing_method (req_method q) \<longrightarrow>
         csrf_hash s = hash_token sha (case req_csrf_token q of None \<Rightarrow> [] | Some t \<Rightarrow> t)"
    and o: "req_origin q = ui_origin config" "req_host q = expected_host (bind_host config) (bind_port config)"
      "req_ui_version q = config_ui_version config"
    using assms(3) c by (auto simp: bridge_authorize_def check_origin_host_def split: if_splits)
  obtain cr t0 k older where i: "issued = (cr, t0, k) # older" "s = session_of sha config (cr, t0, k)"
    using n s(1) c by (cases issued) (auto simp: session_newest_def)
  then show ?thesis
    using s(2-4) o
    by (auto simp: session_of_def hash_token_def ttl_is_expired_def ttl_expires_at_def elapsed_secs_def)
qed

section \<open>Witness\<close>

definition demo_config :: BridgeConfig where
  "demo_config = \<lparr> bind_host = V4 127 0 0 1, bind_port = 8080, ui_origin = ''http://127.0.0.1:8080'',
     config_ui_version = ''1'', session_ttl_seconds = 900 \<rparr>"

lemma demo_host: "expected_host (V4 127 0 0 1) 8080 = ''127.0.0.1:8080''"
  by (simp add: expected_host_def v4_string_def dec_string.simps)

theorem authorized_request_current_witness:
  "\<exists>b0 issued b. bridge_new (fit 32) (Some [1]) demo_config = Ok b0
     \<and> bridge_run (fit 32) [ExchangeOp (Some [2]) (Some [3]) ''http://127.0.0.1:8080'' ''127.0.0.1:8080''
           (hex [1]) ''1'' 100 0] ([], b0) = (issued, b) \<and> issued \<noteq> []"
proof -
  obtain b0 where b0: "bridge_new (fit 32) (Some [1]) demo_config = Ok b0"
    by (simp add: bridge_new_def random_token_def)
  let ?op = "ExchangeOp (Some [2]) (Some [3]) ''http://127.0.0.1:8080'' ''127.0.0.1:8080'' (hex [1]) ''1'' 100 0"
  let ?q = "\<lparr> req_origin = ''http://127.0.0.1:8080'', req_host = ''127.0.0.1:8080'', req_method = ''GET'',
    req_cookie = hex [2], req_csrf_token = None, req_ui_version = ''1'' \<rparr>"
  define b where "b = \<lparr> bridge_config = demo_config, bootstrap_hash = None, bootstrap_token = None,
    session = Some \<lparr> cookie_hash = hash_token (fit 32) (hex [2]), csrf_hash = hash_token (fit 32) (hex [3]),
      session_ttl = \<lparr> issued_at = 100, ttl_seconds = 900 \<rparr>, started = 0 \<rparr> \<rparr>"
  have "\<exists>issued. bridge_run (fit 32) [?op] ([], b0) = (issued, b)"
    using b0 by (auto simp: bridge_new_def random_token_def demo_config_def demo_host exchange_def
        check_origin_host_def issue_of_def issue_session_def Let_def b_def)
  then obtain issued where r: "bridge_run (fit 32) [?op] ([], b0) = (issued, b)" by blast
  have "bridge_authorize (fit 32) b ?q 101 0 = Ok ()"
    by (simp add: b_def demo_config_def demo_host check_origin_host_def bridge_authorize_def
        ttl_is_expired_def ttl_expires_at_def sat_add_def elapsed_secs_def is_state_changing_method_def)
  from authorized_request_current [OF b0 r this] b0 r show ?thesis by blast
qed

end
