(* ===== verification/AD_Json.thy ===== *)
theory AD_Json
  imports AD_Text
begin

text \<open>
  JSON values and HTTP replies, as the relay and the daemon's handlers use them.

  A \<^verbatim>\<open>serde_json::Value\<close> is a datatype; reading one from bytes and writing one are arguments of the
  definitions that use them.  The accessors below are the methods of \<^verbatim>\<open>Value\<close> the handlers call.
\<close>

section \<open>JSON values\<close>

datatype json_number = PosInt u64 | NegInt int | Float string

datatype Value =
    JNull
  | JBool bool
  | JNumber json_number
  | JString string
  | JArray "Value list"
  | JObject "(string \<times> Value) list"

fun value_get :: "Value \<Rightarrow> string \<Rightarrow> Value option" where
  "value_get (JObject fs) k = map_of fs k"
| "value_get _ k = None"

fun as_str :: "Value \<Rightarrow> string option" where
  "as_str (JString s) = Some s"
| "as_str _ = None"

fun as_bool :: "Value \<Rightarrow> bool option" where
  "as_bool (JBool b) = Some b"
| "as_bool _ = None"

fun as_array :: "Value \<Rightarrow> Value list option" where
  "as_array (JArray vs) = Some vs"
| "as_array _ = None"

fun as_u64 :: "Value \<Rightarrow> u64 option" where
  "as_u64 (JNumber (PosInt n)) = Some n"
| "as_u64 _ = None"

fun is_object :: "Value \<Rightarrow> bool" where
  "is_object (JObject _) = True"
| "is_object _ = False"

abbreviation get_str :: "Value \<Rightarrow> string \<Rightarrow> string option" where
  "get_str v k \<equiv> Option.bind (value_get v k) as_str"

abbreviation json_u64 :: "u64 \<Rightarrow> Value" where "json_u64 n \<equiv> JNumber (PosInt n)"
abbreviation json_len :: "nat \<Rightarrow> Value" where "json_len n \<equiv> JNumber (PosInt (of_nat n))"

section \<open>Status codes\<close>

datatype StatusCode =
    STATUS_OK | CREATED | ACCEPTED | BAD_REQUEST | FORBIDDEN | NOT_FOUND | CONFLICT | GONE
  | TOO_MANY_REQUESTS | INTERNAL_SERVER_ERROR

section \<open>Files written without a rename\<close>

text \<open>\<^verbatim>\<open>fs::write\<close> truncates the file first: when it fails the file holds whatever had been written.\<close>

datatype write_outcome = Written | WriteFailed "bytes option"

fun fs_write :: "write_outcome \<Rightarrow> bytes \<Rightarrow> bool \<times> bytes option" where
  "fs_write Written bs = (True, Some bs)"
| "fs_write (WriteFailed left) bs = (False, left)"

end
