(* ===== verification/Relay.thy ===== *)
theory Relay
  imports AD_Json
begin

text \<open>
  The relay server (\<^verbatim>\<open>apps/relay/src/main.rs\<close>): the inbox of encrypted envelopes, the one-time invite codes
  with their receipts and pairing responses, the blob store, the request limit, and start-up from the
  data directory.

  A handler is a function from the server's state and its data directory to a reply and both updated.
  The inbox and the invites are each behind one lock that the handler holds while it works on them, so
  handlers are steps; the clock readings, random bytes and outcomes of writes of one call are its
  arguments.  The blob handler takes no lock and is split at the point where it has checked the file.

  JSON, SHA-256, Ed25519, base64 and the upper-case table of Unicode are arguments.
\<close>

section \<open>State\<close>

definition MAX_ENVELOPE_BYTES :: nat where "MAX_ENVELOPE_BYTES = 96 * 1024"
definition MAX_INBOX_ITEMS :: nat where "MAX_INBOX_ITEMS = 256"
definition MAX_INVITES :: nat where "MAX_INVITES = 256"
definition MAX_RELAY_BODY_BYTES :: nat where "MAX_RELAY_BODY_BYTES = 192 * 1024"
definition MAX_BLOB_BYTES :: nat where "MAX_BLOB_BYTES = 32 * 1024 * 1024"
definition TTL_SECONDS :: u64 where "TTL_SECONDS = 7 * 24 * 60 * 60"
definition RATE_WINDOW_SECONDS :: u64 where "RATE_WINDOW_SECONDS = 60"
definition MAX_REQUESTS_PER_WINDOW :: u32 where "MAX_REQUESTS_PER_WINDOW = 120"
definition MAX_PAIRING_RESPONSES :: nat where "MAX_PAIRING_RESPONSES = 32"

record RateWindow =
  started_at :: u64
  requests :: u32

record Item =
  item_id :: string
  envelope :: string
  received_at :: u64

record RelayInvite =
  ri_version :: byte
  ri_code_hash :: string
  ri_invite :: string
  ri_invite_digest :: string
  ri_created_at :: u64
  ri_expires_at :: u64
  ri_consumed_at :: "u64 option"
  ri_pairing_responses :: "Value list"

record AppState =
  items :: "Item list"
  invites :: "RelayInvite list"
  capability :: string
  origin :: string
  receipt_key :: bytes
  rate_window :: RateWindow

text \<open>The data directory.\<close>

record relay_dir =
  inbox_file :: "bytes option"
  invites_file :: "bytes option"
  capability_file :: "bytes option"
  key_file :: "bytes option"
  blob_files :: "string \<Rightarrow> bytes option"
  meta_files :: "string \<Rightarrow> bytes option"

record relay_lib =
  parse_value :: "bytes \<Rightarrow> Value option"
  value_bytes :: "Value \<Rightarrow> bytes option"
  value_text :: "Value \<Rightarrow> bytes"
  items_to :: "Item list \<Rightarrow> bytes option"
  items_of :: "bytes \<Rightarrow> Item list option"
  invites_to :: "RelayInvite list \<Rightarrow> bytes option"
  invites_of :: "bytes \<Rightarrow> RelayInvite list option"
  sha256 :: "bytes \<Rightarrow> bytes"
  upper_table :: "nat \<Rightarrow> nat list"
  relay_ed :: ed25519
  base64url :: "bytes \<Rightarrow> string"

text \<open>The clock readings of one request (in the request limit, in the check of an invite, and in the
  handler itself), its random bytes, and whether its write of a state file succeeds.\<close>

record relay_env =
  env_rate :: u64
  env_check :: u64
  env_now :: u64
  env_random :: "bytes option"
  env_write :: bool

datatype reply =
    Reply StatusCode Value
  | BlobReply nat nat bytes
  | PayloadTooLarge
  | Abort

type_synonym handled = "reply \<times> AppState \<times> relay_dir"

definition error_reply :: "StatusCode \<Rightarrow> string \<Rightarrow> reply" where
  "error_reply status value = Reply status (JObject [(''error'', JString value)])"

section \<open>Request limit\<close>

definition rate_limited :: "u64 \<Rightarrow> RateWindow \<Rightarrow> bool \<times> RateWindow" where
  "rate_limited timestamp w =
     (let w1 = (if RATE_WINDOW_SECONDS \<le> sat_sub timestamp (started_at w)
                then w \<lparr> started_at := timestamp, requests := 0 \<rparr> else w);
          w2 = w1 \<lparr> requests := sat_add (requests w1) 1 \<rparr>
      in (MAX_REQUESTS_PER_WINDOW < requests w2, w2))"

definition rate_gate ::
    "relay_env \<Rightarrow> (AppState \<Rightarrow> relay_dir \<Rightarrow> handled) \<Rightarrow> AppState \<Rightarrow> relay_dir \<Rightarrow> handled" where
  "rate_gate env k st d =
     (let (limited, w) = rate_limited (env_rate env) (rate_window st);
          st1 = st \<lparr> rate_window := w \<rparr>
      in if limited then (error_reply TOO_MANY_REQUESTS ''rate_limit_exceeded'', st1, d) else k st1 d)"

section \<open>State files\<close>

text \<open>The state files are written to a temporary file and renamed.\<close>

definition persist :: "relay_lib \<Rightarrow> bool \<Rightarrow> AppState \<Rightarrow> relay_dir \<Rightarrow> bool \<times> relay_dir" where
  "persist J write_ok st d =
     (case items_to J (items st) of
        None \<Rightarrow> (False, d)
      | Some bs \<Rightarrow> if write_ok then (True, d \<lparr> inbox_file := Some bs \<rparr>) else (False, d))"

definition persist_invites :: "relay_lib \<Rightarrow> bool \<Rightarrow> AppState \<Rightarrow> relay_dir \<Rightarrow> bool \<times> relay_dir" where
  "persist_invites J write_ok st d =
     (case invites_to J (invites st) of
        None \<Rightarrow> (False, d)
      | Some bs \<Rightarrow> if write_ok then (True, d \<lparr> invites_file := Some bs \<rparr>) else (False, d))"

section \<open>Codes, receipts and the check of an invite\<close>

definition ALPHABET :: string where "ALPHABET = ''0123456789ABCDEFGHJKMNPQRSTVWXYZ''"

fun chunks_of_4 :: "string \<Rightarrow> string list" where
  "chunks_of_4 (a # b # c # d # e # s) = [a, b, c, d] # chunks_of_4 (e # s)"
| "chunks_of_4 [] = []"
| "chunks_of_4 s = [s]"

definition invite_code :: "bytes \<Rightarrow> string" where
  "invite_code random =
     join_with CHR ''-'' (chunks_of_4
       (map (\<lambda>b. ALPHABET ! (unat b mod length ALPHABET)) (take 26 random)))"

definition code_hash :: "relay_lib \<Rightarrow> string \<Rightarrow> string" where
  "code_hash J s = hex (sha256 J (as_bytes (normalize_code (upper_table J) s)))"

definition receipt_body :: "relay_lib \<Rightarrow> bytes \<Rightarrow> string \<Rightarrow> string \<Rightarrow> string \<Rightarrow> u64 \<Rightarrow> string" where
  "receipt_body J key relay_origin entered invite timestamp =
     join_with CHR ''.'' [''ADRECEIPT1'', hex (sha256 J (ed_public (relay_ed J) key)),
       hex (as_bytes relay_origin), code_hash J entered, hex (sha256 J (as_bytes invite)),
       u64_to_string timestamp]"

definition receipt :: "relay_lib \<Rightarrow> bytes \<Rightarrow> string \<Rightarrow> string \<Rightarrow> string \<Rightarrow> u64 \<Rightarrow> string" where
  "receipt J key relay_origin entered invite timestamp =
     receipt_body J key relay_origin entered invite timestamp @ ''.''
       @ hex (ed_sign (relay_ed J) key (as_bytes (receipt_body J key relay_origin entered invite timestamp)))"

definition relay_hex_decode :: "string \<Rightarrow> bytes option run" where
  "relay_hex_decode s = (if odd (length s) then Returns None else hex_pairs s)"

text \<open>The next two definitions sequence a decoding into the rest of the check.\<close>

definition with_hex :: "string \<Rightarrow> (bytes \<Rightarrow> bool run) \<Rightarrow> bool run" where
  "with_hex s k =
     (case relay_hex_decode s of
        Panics \<Rightarrow> Panics
      | Returns None \<Rightarrow> Returns False
      | Returns (Some bs) \<Rightarrow> k bs)"

definition check_invite_lines ::
    "relay_lib \<Rightarrow> u64 \<Rightarrow> string \<Rightarrow> bytes \<Rightarrow> bytes \<Rightarrow> string list \<Rightarrow> bool run" where
  "check_invite_lines J now expected_origin payload signature ls =
     (if length ls \<notin> {6, 7, 8} \<or> ls ! 0 \<noteq> ''another-dimension/invite/v1'' then Returns False
      else with_hex (case strip_prefix (ls ! 1) ''ad1pk'' of None \<Rightarrow> [] | Some a \<Rightarrow> a) (\<lambda>public_bytes.
        if length public_bytes \<noteq> 32 \<or> \<not> ed_key_ok (relay_ed J) public_bytes \<or> length signature \<noteq> 64
        then Returns False
        else case parse_u64 (map code (ls ! 4)) of
          None \<Rightarrow> Returns False
        | Some expires \<Rightarrow>
            if expires \<le> now \<or> ls ! 5 \<noteq> expected_origin then Returns False
            else with_hex (ls ! 3) (\<lambda>_.
              Returns (ed_verify (relay_ed J) public_bytes payload signature))))"

definition validate_invite :: "relay_lib \<Rightarrow> u64 \<Rightarrow> string \<Rightarrow> string \<Rightarrow> bool run" where
  "validate_invite J now invite expected_origin =
     (case split_on CHR ''.'' invite of
        [p0, p1, p2] \<Rightarrow>
          if p0 \<noteq> ''ADDAINV1'' then Returns False
          else with_hex p1 (\<lambda>payload. with_hex p2 (\<lambda>signature.
            if \<not> utf8_valid (bytes_to_string payload) then Returns False
            else check_invite_lines J now expected_origin payload signature
                   (split_on CHR 0x0A (bytes_to_string payload))))
      | _ \<Rightarrow> Returns False)"

section \<open>Inbox\<close>

definition inbox_refusal :: "AppState \<Rightarrow> string \<Rightarrow> string option \<Rightarrow> reply option" where
  "inbox_refusal st cap header =
     (if cap \<noteq> capability st then Some (error_reply GONE ''capability_expired'')
      else if header \<noteq> Some (capability st) then Some (error_reply FORBIDDEN ''relay_capability_required'')
      else None)"

definition envelope_id :: "relay_lib \<Rightarrow> string \<Rightarrow> string" where
  "envelope_id J e = hex (sha256 J (as_bytes e))"

definition accept_envelope :: "relay_lib \<Rightarrow> relay_env \<Rightarrow> string \<Rightarrow> AppState \<Rightarrow> relay_dir \<Rightarrow> handled" where
  "accept_envelope J env e st d =
     (let i = envelope_id J e in
      if list_ex (\<lambda>item. item_id item = i) (items st)
      then (Reply ACCEPTED (JObject [(''accepted'', JBool True), (''id'', JString i), (''duplicate'', JBool True)]), st, d)
      else if MAX_INBOX_ITEMS \<le> length (items st) then (error_reply TOO_MANY_REQUESTS ''queue_full'', st, d)
      else
        (let st1 = st \<lparr> items := items st @ [\<lparr> item_id = i, envelope = e, received_at = env_now env \<rparr>] \<rparr>;
             (ok, d1) = persist J (env_write env) st1 d
         in (if ok then Reply ACCEPTED (JObject [(''accepted'', JBool True), (''id'', JString i)])
             else error_reply INTERNAL_SERVER_ERROR ''storage_error'', st1, d1)))"

definition post_inbox ::
    "relay_lib \<Rightarrow> relay_env \<Rightarrow> string \<Rightarrow> string option \<Rightarrow> bytes \<Rightarrow> AppState \<Rightarrow> relay_dir \<Rightarrow> handled" where
  "post_inbox J env cap header body = rate_gate env (\<lambda>st d.
     case inbox_refusal st cap header of
       Some r \<Rightarrow> (r, st, d)
     | None \<Rightarrow> (case parse_value J body of
         None \<Rightarrow> (error_reply BAD_REQUEST ''invalid_json'', st, d)
       | Some v \<Rightarrow> (case get_str v ''envelope'' of
           None \<Rightarrow> (error_reply BAD_REQUEST ''invalid_envelope'', st, d)
         | Some e \<Rightarrow>
             if \<not> starts_with e ''ADENV1.'' \<or> MAX_ENVELOPE_BYTES < length e
             then (error_reply BAD_REQUEST ''invalid_envelope'', st, d)
             else accept_envelope J env e st d)))"

definition item_value :: "Item \<Rightarrow> Value" where
  "item_value item = JObject [(''id'', JString (item_id item)), (''envelope'', JString (envelope item)),
     (''receivedAt'', json_u64 (received_at item))]"

definition get_inbox ::
    "relay_lib \<Rightarrow> relay_env \<Rightarrow> string \<Rightarrow> string option \<Rightarrow> AppState \<Rightarrow> relay_dir \<Rightarrow> handled" where
  "get_inbox J env cap header = rate_gate env (\<lambda>st d.
     case inbox_refusal st cap header of
       Some r \<Rightarrow> (r, st, d)
     | None \<Rightarrow>
         (let cutoff = sat_sub (env_now env) TTL_SECONDS;
              st1 = st \<lparr> items := filter (\<lambda>item. cutoff \<le> received_at item) (items st) \<rparr>;
              (ok, d1) = persist J (env_write env) st1 d
          in (if ok then Reply STATUS_OK (JObject [(''protocol'', json_u64 1), (''items'', JArray (map item_value (items st1)))])
              else error_reply INTERNAL_SERVER_ERROR ''storage_error'', st1, d1)))"

definition ack_inbox ::
    "relay_lib \<Rightarrow> relay_env \<Rightarrow> string \<Rightarrow> string option \<Rightarrow> bytes \<Rightarrow> AppState \<Rightarrow> relay_dir \<Rightarrow> handled" where
  "ack_inbox J env cap header body = rate_gate env (\<lambda>st d.
     case inbox_refusal st cap header of
       Some r \<Rightarrow> (r, st, d)
     | None \<Rightarrow> (case parse_value J body of
         None \<Rightarrow> (error_reply BAD_REQUEST ''invalid_json'', st, d)
       | Some v \<Rightarrow> (case Option.bind (value_get v ''ids'') as_array of
           None \<Rightarrow> (error_reply BAD_REQUEST ''too_many_ids'', st, d)
         | Some vs \<Rightarrow>
             if MAX_INBOX_ITEMS < length vs then (error_reply BAD_REQUEST ''too_many_ids'', st, d)
             else
               (let ids = List.map_filter as_str vs;
                    st1 = st \<lparr> items := filter (\<lambda>item. item_id item \<notin> set ids) (items st) \<rparr>;
                    (ok, d1) = persist J (env_write env) st1 d
                in (if ok then Reply STATUS_OK (JObject [(''acknowledged'', json_len (length (items st) - length (items st1)))])
                    else error_reply INTERNAL_SERVER_ERROR ''storage_error'', st1, d1)))))"

section \<open>Invite codes\<close>

definition add_invite :: "relay_lib \<Rightarrow> relay_env \<Rightarrow> string \<Rightarrow> AppState \<Rightarrow> relay_dir \<Rightarrow> handled" where
  "add_invite J env invite st d =
     (case env_random env of
        None \<Rightarrow> (error_reply INTERNAL_SERVER_ERROR ''random_generation_failed'', st, d)
      | Some random \<Rightarrow>
          (let c = invite_code random;
               timestamp = env_now env;
               r = \<lparr> ri_version = 1, ri_code_hash = code_hash J c, ri_invite = invite,
                     ri_invite_digest = hex (sha256 J (as_bytes invite)), ri_created_at = timestamp,
                     ri_expires_at = timestamp + 600, ri_consumed_at = None, ri_pairing_responses = [] \<rparr>;
               st1 = st \<lparr> invites := filter (\<lambda>item. timestamp < ri_expires_at item) (invites st) \<rparr>
           in if MAX_INVITES \<le> length (invites st1)
              then (error_reply TOO_MANY_REQUESTS ''invite_queue_full'', st1, d)
              else
                (let st2 = st1 \<lparr> invites := invites st1 @ [r] \<rparr>;
                     (ok, d1) = persist_invites J (env_write env) st2 d
                 in (if ok then Reply CREATED (JObject [(''created'', JBool True), (''code'', JString c),
                           (''expiresAt'', json_u64 (ri_expires_at r)), (''inviteDigest'', JString (ri_invite_digest r))])
                     else error_reply INTERNAL_SERVER_ERROR ''storage_error'', st2, d1))))"

definition create_invite ::
    "relay_lib \<Rightarrow> relay_env \<Rightarrow> bytes \<Rightarrow> AppState \<Rightarrow> relay_dir \<Rightarrow> handled" where
  "create_invite J env body = rate_gate env (\<lambda>st d.
     case parse_value J body of
       None \<Rightarrow> (error_reply BAD_REQUEST ''invalid_json'', st, d)
     | Some v \<Rightarrow> (case get_str v ''invite'' of
         None \<Rightarrow> (error_reply BAD_REQUEST ''invalid_signed_invite'', st, d)
       | Some i \<Rightarrow>
           if 96 * 1024 < length i then (error_reply BAD_REQUEST ''invalid_signed_invite'', st, d)
           else (case validate_invite J (env_check env) i (origin st) of
               Panics \<Rightarrow> (Abort, st, d)
             | Returns False \<Rightarrow> (error_reply BAD_REQUEST ''invalid_signed_invite'', st, d)
             | Returns True \<Rightarrow> add_invite J env i st d)))"

text \<open>The first record that satisfies a predicate is updated in place.\<close>

fun update_first :: "('a \<Rightarrow> bool) \<Rightarrow> ('a \<Rightarrow> 'a) \<Rightarrow> 'a list \<Rightarrow> 'a list" where
  "update_first P f [] = []"
| "update_first P f (x # xs) = (if P x then f x # xs else x # update_first P f xs)"

definition open_invite :: "relay_lib \<Rightarrow> string \<Rightarrow> u64 \<Rightarrow> RelayInvite \<Rightarrow> bool" where
  "open_invite J c timestamp r \<longleftrightarrow>
     ri_code_hash r = code_hash J c \<and> timestamp < ri_expires_at r \<and> ri_consumed_at r = None"

definition consume_invite ::
    "relay_lib \<Rightarrow> relay_env \<Rightarrow> bytes \<Rightarrow> AppState \<Rightarrow> relay_dir \<Rightarrow> handled" where
  "consume_invite J env body = rate_gate env (\<lambda>st d.
     case parse_value J body of
       None \<Rightarrow> (error_reply BAD_REQUEST ''invalid_json'', st, d)
     | Some v \<Rightarrow> (case get_str v ''code'' of
         None \<Rightarrow> (error_reply NOT_FOUND ''invalid_or_expired'', st, d)
       | Some c \<Rightarrow> (let timestamp = env_now env in
           case List.find (open_invite J c timestamp) (invites st) of
             None \<Rightarrow> (error_reply NOT_FOUND ''invalid_or_expired'', st, d)
           | Some r \<Rightarrow>
               (let st1 = st \<lparr> invites := update_first (open_invite J c timestamp)
                                  (\<lambda>x. x \<lparr> ri_consumed_at := Some timestamp \<rparr>) (invites st) \<rparr>;
                    payload = JObject [(''consumed'', JBool True), (''invite'', JString (ri_invite r)),
                      (''inviteDigest'', JString (ri_invite_digest r)),
                      (''receipt'', JString (receipt J (receipt_key st) (origin st) c (ri_invite r) timestamp))];
                    (ok, d1) = persist_invites J (env_write env) st1 d
                in (if ok then Reply STATUS_OK payload
                    else error_reply INTERNAL_SERVER_ERROR ''storage_error'', st1, d1)))))"

definition consumed_invite :: "relay_lib \<Rightarrow> string \<Rightarrow> u64 \<Rightarrow> RelayInvite \<Rightarrow> bool" where
  "consumed_invite J c timestamp r \<longleftrightarrow>
     ri_code_hash r = code_hash J c \<and> timestamp < ri_expires_at r \<and> ri_consumed_at r \<noteq> None"

definition pairing ::
    "relay_lib \<Rightarrow> relay_env \<Rightarrow> bytes \<Rightarrow> AppState \<Rightarrow> relay_dir \<Rightarrow> handled" where
  "pairing J env body = rate_gate env (\<lambda>st d.
     case parse_value J body of
       None \<Rightarrow> (error_reply BAD_REQUEST ''invalid_json'', st, d)
     | Some v \<Rightarrow> (case get_str v ''code'' of
         None \<Rightarrow> (error_reply NOT_FOUND ''invalid_or_expired'', st, d)
       | Some c \<Rightarrow> (case List.find (consumed_invite J c (env_now env)) (invites st) of
           None \<Rightarrow> (error_reply NOT_FOUND ''invalid_or_expired'', st, d)
         | Some r \<Rightarrow>
             if Option.bind (value_get v ''read'') as_bool = Some True
             then (Reply STATUS_OK (JObject [(''available'', JBool (ri_pairing_responses r \<noteq> [])),
                     (''responses'', JArray (ri_pairing_responses r))]), st, d)
             else (case value_get v ''response'' of
                 None \<Rightarrow> (error_reply BAD_REQUEST ''invalid_pairing_response'', st, d)
               | Some value \<Rightarrow>
                   if \<not> is_object value
                      \<or> (case value_bytes J value of None \<Rightarrow> True | Some b \<Rightarrow> 128 * 1024 < length b)
                   then (error_reply BAD_REQUEST ''invalid_pairing_response'', st, d)
                   else if MAX_PAIRING_RESPONSES \<le> length (ri_pairing_responses r)
                   then (error_reply CONFLICT ''pairing_response_queue_full'', st, d)
                   else
                     (let st1 = st \<lparr> invites := update_first (consumed_invite J c (env_now env))
                           (\<lambda>x. x \<lparr> ri_pairing_responses := ri_pairing_responses x @ [value] \<rparr>) (invites st) \<rparr>;
                          (ok, d1) = persist_invites J (env_write env) st1 d
                      in (if ok then Reply CREATED (JObject [(''accepted'', JBool True)])
                          else error_reply INTERNAL_SERVER_ERROR ''storage_error'', st1, d1))))))"

section \<open>Blobs\<close>

definition valid_blob_id :: "string \<Rightarrow> bool" where
  "valid_blob_id s \<longleftrightarrow> 32 \<le> length s \<and> length s \<le> 128 \<and>
     list_all (\<lambda>b. is_ascii_alphanumeric b \<or> b = CHR ''_'' \<or> b = CHR ''-'') s"

definition header_usize :: "string option \<Rightarrow> nat \<Rightarrow> nat option" where
  "header_usize header dflt =
     (case header of
        None \<Rightarrow> Some dflt
      | Some v \<Rightarrow> map_option unat (parse_u64 (map code v)))"

text \<open>Outcomes of the file operations of one blob request: reading, opening, the size query, seeking, the
  write (a failure leaves a number of bytes written) and writing the metadata file.\<close>

record blob_io =
  bio_read :: bool
  bio_open :: bool
  bio_len :: bool
  bio_seek :: bool
  bio_write :: "nat option"
  bio_meta :: write_outcome

record blob_headers =
  h_capability :: "string option"
  h_offset :: "string option"
  h_length :: "string option"
  h_total :: "string option"

definition fs_read_blob :: "blob_io \<Rightarrow> string \<Rightarrow> relay_dir \<Rightarrow> bytes option" where
  "fs_read_blob io i d = (if bio_read io then blob_files d i else None)"

text \<open>Writing at an offset of a file; the file is as long as the offset when the handler gets here alone.\<close>

definition write_at :: "nat \<Rightarrow> bytes \<Rightarrow> bytes \<Rightarrow> bytes" where
  "write_at offset body content =
     (if body = [] then content
      else take offset (content @ replicate (offset - length content) 0) @ body @ drop (offset + length body) content)"

definition blob_url :: "string \<Rightarrow> string" where
  "blob_url i = ''/api/v1/blobs/'' @ i"

definition blob_status :: "bool \<Rightarrow> StatusCode" where
  "blob_status complete = (if complete then CREATED else ACCEPTED)"

definition read_blob_range :: "blob_io \<Rightarrow> blob_headers \<Rightarrow> string \<Rightarrow> relay_dir \<Rightarrow> reply" where
  "read_blob_range io h i d =
     (case fs_read_blob io i d of
        None \<Rightarrow> error_reply NOT_FOUND ''blob_not_found''
      | Some bs \<Rightarrow>
          (case header_usize (h_offset h) 0 of
             None \<Rightarrow> error_reply BAD_REQUEST ''invalid_blob_range''
           | Some offset \<Rightarrow>
               if length bs < offset then error_reply BAD_REQUEST ''invalid_blob_range''
               else
                 (let len = min (case header_usize (h_length h) (length bs - offset) of None \<Rightarrow> 0 | Some n \<Rightarrow> n)
                              (length bs - offset)
                  in BlobReply offset (length bs) (take len (drop offset bs)))))"

definition remove_blob :: "bool \<Rightarrow> bool \<Rightarrow> string \<Rightarrow> relay_dir \<Rightarrow> relay_dir" where
  "remove_blob file_ok meta_ok i d =
     d \<lparr> blob_files := (if file_ok then (blob_files d)(i := None) else blob_files d),
         meta_files := (if meta_ok then (meta_files d)(i := None) else meta_files d) \<rparr>"

text \<open>An upload up to the point where the file is known to be as long as the offset: an early reply, or
  nothing, and the data directory (opening creates the file).\<close>

definition blob_check ::
    "blob_io \<Rightarrow> u64 \<Rightarrow> string \<Rightarrow> nat \<Rightarrow> nat \<Rightarrow> bytes \<Rightarrow> relay_dir \<Rightarrow> reply option \<times> relay_dir" where
  "blob_check io now i offset full body d =
     (if full < offset \<or> full < offset + length body
      then (Some (error_reply BAD_REQUEST ''blob_chunk_out_of_bounds''), d)
      else case fs_read_blob io i d of
        Some existing \<Rightarrow>
          if offset < length existing
          then
            (if offset + length body \<le> length existing \<and> take (length body) (drop offset existing) = body
             then (Some (Reply (blob_status (length existing = full)) (JObject
                     [(''accepted'', JBool True), (''complete'', JBool (length existing = full)),
                      (''duplicate'', JBool True), (''received'', json_len (length existing)),
                      (''total'', json_len full), (''expiresAt'', json_u64 (now + TTL_SECONDS)),
                      (''blobUrl'', JString (blob_url i))])), d)
             else (Some (error_reply CONFLICT ''blob_chunk_conflict''), d))
          else if offset \<noteq> length existing then (Some (error_reply BAD_REQUEST ''blob_offset_mismatch''), d)
          else if \<not> bio_open io
          then (Some (if offset \<noteq> 0 then error_reply BAD_REQUEST ''blob_offset_mismatch''
                      else error_reply INTERNAL_SERVER_ERROR ''blob_storage_error''), d)
          else (if \<not> bio_len io then Some (error_reply BAD_REQUEST ''blob_offset_mismatch'') else None, d)
      | None \<Rightarrow>
          if \<not> bio_open io
          then (Some (if offset \<noteq> 0 then error_reply BAD_REQUEST ''blob_offset_mismatch''
                      else error_reply INTERNAL_SERVER_ERROR ''blob_storage_error''), d)
          else
            (let content = (case blob_files d i of None \<Rightarrow> [] | Some bs \<Rightarrow> bs);
                 d1 = d \<lparr> blob_files := (blob_files d)(i := Some content) \<rparr>
             in (if \<not> bio_len io \<or> length content \<noteq> offset
                 then Some (error_reply BAD_REQUEST ''blob_offset_mismatch'') else None, d1)))"

text \<open>The rest of the upload: seek, write, write the metadata.\<close>

definition blob_write ::
    "relay_lib \<Rightarrow> blob_io \<Rightarrow> u64 \<Rightarrow> string \<Rightarrow> nat \<Rightarrow> nat \<Rightarrow> bytes \<Rightarrow> relay_dir \<Rightarrow> reply \<times> relay_dir" where
  "blob_write J io now i offset full body d =
     (let content = (case blob_files d i of None \<Rightarrow> [] | Some bs \<Rightarrow> bs) in
      if \<not> bio_seek io then (error_reply INTERNAL_SERVER_ERROR ''blob_storage_error'', d)
      else case bio_write io of
        Some n \<Rightarrow> (error_reply INTERNAL_SERVER_ERROR ''blob_storage_error'',
            d \<lparr> blob_files := (blob_files d)(i := Some (write_at offset (take n body) content)) \<rparr>)
      | None \<Rightarrow>
          (let d1 = d \<lparr> blob_files := (blob_files d)(i := Some (write_at offset body content)) \<rparr>;
               received = offset + length body;
               complete = (received = full);
               (ok, m) = fs_write (bio_meta io) (value_text J (JObject
                 [(''version'', json_u64 1), (''total'', json_len full), (''received'', json_len received),
                  (''complete'', JBool complete), (''expiresAt'', json_u64 (now + TTL_SECONDS))]));
               d2 = d1 \<lparr> meta_files := (meta_files d1)(i := m) \<rparr>
           in (if \<not> ok then error_reply INTERNAL_SERVER_ERROR ''blob_storage_error''
               else Reply (blob_status complete) (JObject
                 [(''accepted'', JBool True), (''complete'', JBool complete), (''received'', json_len received),
                  (''total'', json_len full), (''expiresAt'', json_u64 (now + TTL_SECONDS)),
                  (''blobUrl'', JString (blob_url i))]), d2)))"

definition blob_upload ::
    "relay_lib \<Rightarrow> blob_io \<Rightarrow> u64 \<Rightarrow> blob_headers \<Rightarrow> string \<Rightarrow> bytes \<Rightarrow> relay_dir \<Rightarrow> reply \<times> relay_dir" where
  "blob_upload J io now h i body d =
     (case header_usize (h_offset h) 0 of
        None \<Rightarrow> (error_reply BAD_REQUEST ''invalid_blob_metadata'', d)
      | Some offset \<Rightarrow>
          (case header_usize (h_total h) 0 of
             None \<Rightarrow> (error_reply BAD_REQUEST ''invalid_blob_metadata'', d)
           | Some full \<Rightarrow>
               if full = 0 \<or> MAX_BLOB_BYTES < full then (error_reply BAD_REQUEST ''invalid_blob_metadata'', d)
               else (case blob_check io now i offset full body d of
                   (Some r, d1) \<Rightarrow> (r, d1)
                 | (None, d1) \<Rightarrow> blob_write J io now i offset full body d1)))"

datatype blob_method = BlobGet | BlobPost | BlobDelete bool bool

definition blob_impl ::
    "relay_lib \<Rightarrow> relay_env \<Rightarrow> blob_io \<Rightarrow> blob_method \<Rightarrow> blob_headers \<Rightarrow> string \<Rightarrow> bytes
      \<Rightarrow> AppState \<Rightarrow> relay_dir \<Rightarrow> handled" where
  "blob_impl J env io meth h i body = rate_gate env (\<lambda>st d.
     if \<not> valid_blob_id i then (error_reply BAD_REQUEST ''invalid_blob_id'', st, d)
     else if h_capability h \<noteq> Some (capability st)
     then (error_reply FORBIDDEN ''relay_capability_required'', st, d)
     else case meth of
       BlobDelete file_ok meta_ok \<Rightarrow>
         (Reply STATUS_OK (JObject [(''deleted'', JBool True)]), st, remove_blob file_ok meta_ok i d)
     | BlobGet \<Rightarrow> (read_blob_range io h i d, st, d)
     | BlobPost \<Rightarrow> (let (r, d1) = blob_upload J io (env_now env) h i body d in (r, st, d1)))"

section \<open>Start-up\<close>

datatype boot_error =
    CapabilityNotWritten | RandomFailed | InviteStateCorrupt | InviteStateExceedsLimits | ReceiptKeyCorrupt
  | ReceiptKeyNotWritten | RelayStateCorrupt | RelayStateExceedsLimits | DirectoryError | ReadError

text \<open>Outcomes of the reads and writes of start-up, its random bytes, the origin from the environment and
  the clock.\<close>

record boot_io =
  bo_read_capability :: bool
  bo_write_capability :: write_outcome
  bo_random_capability :: "bytes option"
  bo_read_invites :: bool
  bo_read_key :: bool
  bo_random_key :: "bytes option"
  bo_write_key :: write_outcome
  bo_permissions :: bool
  bo_directory :: bool
  bo_read_inbox :: bool
  bo_origin :: string
  bo_now :: u64

definition new_capability :: "relay_lib \<Rightarrow> bytes option \<Rightarrow> boot_error + string" where
  "new_capability J random = map_err (\<lambda>_. RandomFailed) (ok_or (map_option (base64url J) random) ())"

definition stored_capability :: "boot_io \<Rightarrow> relay_dir \<Rightarrow> string option" where
  "stored_capability io d =
     (if bo_read_capability io then
        Option.bind (capability_file d) (\<lambda>bs.
        Option.bind (utf8_decode (bytes_to_string bs)) (\<lambda>cs.
          let t = utf8_encode (trim_chars cs) in if length t = 43 then Some t else None))
      else None)"

definition boot_capability :: "relay_lib \<Rightarrow> boot_io \<Rightarrow> relay_dir \<Rightarrow> (boot_error + string) \<times> relay_dir" where
  "boot_capability J io d =
     (case stored_capability io d of
        Some c \<Rightarrow> (Ok c, d)
      | None \<Rightarrow>
          (case new_capability J (bo_random_capability io) of
             Inl e \<Rightarrow> (Err e, d)
           | Inr c \<Rightarrow>
               if \<not> bo_directory io then (Err DirectoryError, d)
               else (let (ok, m) = fs_write (bo_write_capability io) (as_bytes (c @ [CHR 0x0A]))
                     in (if ok then Ok c else Err CapabilityNotWritten, d \<lparr> capability_file := m \<rparr>))))"

definition load_invites :: "relay_lib \<Rightarrow> boot_io \<Rightarrow> relay_dir \<Rightarrow> boot_error + RelayInvite list" where
  "load_invites J io d =
     (case invites_file d of
        None \<Rightarrow> if bo_read_invites io then Ok [] else Err ReadError
      | Some bs \<Rightarrow>
          if \<not> bo_read_invites io then Err ReadError
          else res_bind (ok_or (invites_of J bs) InviteStateCorrupt) (\<lambda>is.
            if MAX_INVITES < length is \<or> list_ex (\<lambda>i. 96 * 1024 < length (ri_invite i)) is
            then Err InviteStateExceedsLimits else Ok is))"

definition boot_key :: "boot_io \<Rightarrow> relay_dir \<Rightarrow> (boot_error + bytes) \<times> relay_dir" where
  "boot_key io d =
     (if \<not> bo_read_key io then (Err ReadError, d)
      else case key_file d of
        Some bs \<Rightarrow> (if length bs = 32 then Ok bs else Err ReceiptKeyCorrupt, d)
      | None \<Rightarrow>
          (case bo_random_key io of
             None \<Rightarrow> (Err RandomFailed, d)
           | Some seed \<Rightarrow>
               (let (ok, m) = fs_write (bo_write_key io) seed;
                    d1 = d \<lparr> key_file := m \<rparr>
                in (if \<not> ok \<or> \<not> bo_permissions io then Err ReceiptKeyNotWritten else Ok seed, d1))))"

definition load_store :: "relay_lib \<Rightarrow> boot_io \<Rightarrow> relay_dir \<Rightarrow> boot_error + Item list" where
  "load_store J io d =
     (if \<not> bo_directory io then Err DirectoryError
      else if \<not> bo_read_inbox io then Err ReadError
      else case inbox_file d of
        None \<Rightarrow> Ok []
      | Some bs \<Rightarrow>
          res_bind (ok_or (items_of J bs) RelayStateCorrupt) (\<lambda>is.
            if MAX_INBOX_ITEMS < length is
               \<or> list_ex (\<lambda>i. length (item_id i) \<noteq> 64 \<or> MAX_ENVELOPE_BYTES < length (envelope i)
                     \<or> \<not> starts_with (envelope i) ''ADENV1.'') is
            then Err RelayStateExceedsLimits else Ok is))"

definition boot :: "relay_lib \<Rightarrow> boot_io \<Rightarrow> relay_dir \<Rightarrow> (boot_error + AppState) \<times> relay_dir" where
  "boot J io d =
     (case boot_capability J io d of
        (Inl e, d1) \<Rightarrow> (Err e, d1)
      | (Inr c, d1) \<Rightarrow>
          (case load_invites J io d1 of
             Inl e \<Rightarrow> (Err e, d1)
           | Inr invs \<Rightarrow>
               (case boot_key io d1 of
                  (Inl e, d2) \<Rightarrow> (Err e, d2)
                | (Inr seed, d2) \<Rightarrow>
                    (res_bind (load_store J io d2) (\<lambda>is.
                       Ok \<lparr> items = is, invites = invs, capability = c, origin = bo_origin io,
                            receipt_key = seed,
                            rate_window = \<lparr> started_at = bo_now io, requests = 0 \<rparr> \<rparr>), d2))))"

section \<open>Routes and runs\<close>

definition health :: reply where
  "health = Reply STATUS_OK (JObject [(''ok'', JBool True), (''protocol'', json_u64 1)])"

definition info :: "relay_lib \<Rightarrow> AppState \<Rightarrow> reply" where
  "info J st =
     (let pk = ed_public (relay_ed J) (receipt_key st) in
      Reply STATUS_OK (JObject
        [(''protocol'', json_u64 1), (''protocolVersions'', JArray [json_u64 1]),
         (''inboxUrl'', JString (origin st @ ''/api/v1/inbox/'' @ capability st)),
         (''publicOrigin'', JString (origin st)), (''externalSecure'', JBool False),
         (''listenerTls'', JBool False), (''serveStatic'', JBool False), (''highRiskAllowed'', JBool False),
         (''highRiskTransport'', JString ''disabled''), (''supportedTransports'', JArray [JString ''loopback'']),
         (''transportMode'', JString ''local-or-http-low-risk''), (''networkScope'', JString ''loopback''),
         (''maxEnvelopeBytes'', json_len MAX_ENVELOPE_BYTES), (''maxAttachmentBytes'', json_len (32 * 1024 * 1024)),
         (''relayReceiptPublicKey'', JString (hex pk)),
         (''relayReceiptPublicKeyFingerprint'', JString (hex (sha256 J pk)))]))"

datatype relay_request =
    Health
  | Info
  | PostInbox string "string option" bytes
  | GetInbox string "string option"
  | AckInbox string "string option" bytes
  | CreateInvite bytes
  | ConsumeInvite bytes
  | Pairing bytes
  | BlobRequest blob_io blob_method blob_headers string bytes

fun request_body :: "relay_request \<Rightarrow> bytes" where
  "request_body (PostInbox _ _ b) = b"
| "request_body (AckInbox _ _ b) = b"
| "request_body (CreateInvite b) = b"
| "request_body (ConsumeInvite b) = b"
| "request_body (Pairing b) = b"
| "request_body (BlobRequest _ BlobPost _ _ b) = b"
| "request_body _ = []"

fun handle :: "relay_lib \<Rightarrow> relay_env \<Rightarrow> relay_request \<Rightarrow> AppState \<Rightarrow> relay_dir \<Rightarrow> handled" where
  "handle J env Health st d = (health, st, d)"
| "handle J env Info st d = (info J st, st, d)"
| "handle J env (PostInbox c h b) st d = post_inbox J env c h b st d"
| "handle J env (GetInbox c h) st d = get_inbox J env c h st d"
| "handle J env (AckInbox c h b) st d = ack_inbox J env c h b st d"
| "handle J env (CreateInvite b) st d = create_invite J env b st d"
| "handle J env (ConsumeInvite b) st d = consume_invite J env b st d"
| "handle J env (Pairing b) st d = pairing J env b st d"
| "handle J env (BlobRequest io BlobPost h i b) st d = blob_impl J env io BlobPost h i b st d"
| "handle J env (BlobRequest io meth h i b) st d = blob_impl J env io meth h i [] st d"

text \<open>The router rejects a body over the limit before the handler runs.\<close>

definition serve :: "relay_lib \<Rightarrow> relay_env \<Rightarrow> relay_request \<Rightarrow> AppState \<Rightarrow> relay_dir \<Rightarrow> handled" where
  "serve J env req st d =
     (if MAX_RELAY_BODY_BYTES < length (request_body req) then (PayloadTooLarge, st, d)
      else handle J env req st d)"

text \<open>The life of a relay on one data directory: it serves requests, is killed or aborts, and starts again.
  \<^verbatim>\<open>None\<close> is a stopped server.\<close>

datatype relay_event = Request relay_env relay_request | Kill | Boot boot_io

type_synonym relay_system = "AppState option \<times> relay_dir"

fun relay_step :: "relay_lib \<Rightarrow> relay_system \<Rightarrow> relay_event \<Rightarrow> reply option \<times> relay_system" where
  "relay_step J (Some st, d) (Request env req) =
     (let (r, st1, d1) = serve J env req st d
      in if r = Abort then (None, None, d1) else (Some r, Some st1, d1))"
| "relay_step J (None, d) (Request env req) = (None, None, d)"
| "relay_step J (p, d) Kill = (None, None, d)"
| "relay_step J (Some st, d) (Boot io) = (None, Some st, d)"
| "relay_step J (None, d) (Boot io) =
     (let (r, d1) = boot J io d in (None, case r of Inl _ \<Rightarrow> None | Inr st \<Rightarrow> Some st, d1))"

fun relay_run :: "relay_lib \<Rightarrow> relay_system \<Rightarrow> relay_event list \<Rightarrow> relay_system" where
  "relay_run J s [] = s"
| "relay_run J s (e # es) = relay_run J (snd (relay_step J s e)) es"

fun relay_replies :: "relay_lib \<Rightarrow> relay_system \<Rightarrow> relay_event list \<Rightarrow> (relay_event \<times> reply option) list" where
  "relay_replies J s [] = []"
| "relay_replies J s (e # es) =
     (e, fst (relay_step J s e)) # relay_replies J (snd (relay_step J s e)) es"

end
