(* ===== verification/Relay_Runs.thy ===== *)
theory Relay_Runs
  imports Relay
begin

text \<open>
  What the relay promises over whole runs, with kills and restarts: the limits of its state, that an
  accepted envelope stays until it is acknowledged or old, that a code is redeemed at most as often as it
  was drawn, the request limit, and that an upload in pieces is read back unchanged.
\<close>

section \<open>Request limit\<close>

fun admitted :: "RateWindow \<Rightarrow> u64 list \<Rightarrow> nat" where
  "admitted w [] = 0"
| "admitted w (t # ts) =
     (let (limited, w1) = rate_limited t w in (if limited then 0 else 1) + admitted w1 ts)"

lemma rate_limited_same:
  assumes "unat t - unat (started_at w) < 60"
  shows "rate_limited t w =
     (120 \<le> unat (requests w), w \<lparr> requests := sat_add (requests w) 1 \<rparr>)"
proof -
  have "\<not> RATE_WINDOW_SECONDS \<le> sat_sub t (started_at w)"
    using assms by (simp add: RATE_WINDOW_SECONDS_def word_le_nat_alt unat_sat_sub)
  moreover have "MAX_REQUESTS_PER_WINDOW < sat_add (requests w) 1 \<longleftrightarrow> 120 \<le> unat (requests w)"
    by (simp add: MAX_REQUESTS_PER_WINDOW_def word_less_nat_alt unat_sat_add) linarith
  ultimately show ?thesis by (simp add: rate_limited_def Let_def)
qed

lemma rate_limited_new:
  assumes "60 \<le> unat t - unat (started_at w)"
  shows "rate_limited t w = (False, \<lparr> started_at = t, requests = 1 \<rparr>)"
proof -
  have "RATE_WINDOW_SECONDS \<le> sat_sub t (started_at w)"
    using assms by (simp add: RATE_WINDOW_SECONDS_def word_le_nat_alt unat_sat_sub)
  then show ?thesis by (simp add: rate_limited_def Let_def MAX_REQUESTS_PER_WINDOW_def sat_add_def)
qed

lemma admitted_same_window:
  assumes "\<forall>t \<in> set ts. unat t - unat (started_at w) < 60"
  shows "admitted w ts \<le> 120 - unat (requests w)"
  using assms
proof (induction ts arbitrary: w)
  case (Cons t ts)
  have "admitted (w \<lparr> requests := sat_add (requests w) 1 \<rparr>) ts \<le> 120 - unat (sat_add (requests w) 1)"
    using Cons.IH [of "w \<lparr> requests := sat_add (requests w) 1 \<rparr>"] Cons.prems by simp
  moreover have "unat (sat_add (requests w) 1) = min (unat (requests w) + 1) (2 ^ 32 - 1)"
    by (simp add: unat_sat_add)
  ultimately show ?case
    using Cons.prems by (simp add: rate_limited_same) linarith
qed simp

lemma admitted_interval:
  assumes "sorted (map unat ts)" "\<forall>t \<in> set ts. a \<le> unat t \<and> unat t < a + 60"
  shows "admitted w ts \<le> 120 - unat (requests w) + 120"
  using assms
proof (induction ts arbitrary: w)
  case (Cons t ts)
  show ?case
  proof (cases "unat t - unat (started_at w) < 60")
    case True
    have "admitted (w \<lparr> requests := sat_add (requests w) 1 \<rparr>) ts
        \<le> 120 - unat (sat_add (requests w) 1) + 120"
      using Cons.IH [of "w \<lparr> requests := sat_add (requests w) 1 \<rparr>"] Cons.prems by simp
    moreover have "unat (sat_add (requests w) 1) = min (unat (requests w) + 1) (2 ^ 32 - 1)"
      by (simp add: unat_sat_add)
    ultimately show ?thesis using True by (simp add: rate_limited_same) linarith
  next
    case False
    have "\<forall>u \<in> set ts. unat u - unat t < 60" using Cons.prems by fastforce
    then have "admitted \<lparr> started_at = t, requests = 1 \<rparr> ts \<le> 119"
      using admitted_same_window [of ts "\<lparr> started_at = t, requests = 1 \<rparr>"] by simp
    then show ?thesis using False by (simp add: rate_limited_new)
  qed
qed simp

section \<open>What a request does to the inbox\<close>

definition acked_ids :: "relay_lib \<Rightarrow> bytes \<Rightarrow> string list" where
  "acked_ids J body =
     (case Option.bind (parse_value J body) (\<lambda>v. Option.bind (value_get v ''ids'') as_array) of
        None \<Rightarrow> []
      | Some vs \<Rightarrow> List.map_filter as_str vs)"

definition item_ok :: "Item \<Rightarrow> bool" where
  "item_ok x \<longleftrightarrow> length (item_id x) = 64 \<and> length (envelope x) \<le> MAX_ENVELOPE_BYTES
     \<and> starts_with (envelope x) ''ADENV1.''"

inductive inbox_move :: "relay_lib \<Rightarrow> relay_env \<Rightarrow> relay_request \<Rightarrow> Item list \<Rightarrow> Item list \<Rightarrow> bool"
  for J env where
  kept: "inbox_move J env req is is"
| pushed: "x = \<lparr> item_id = envelope_id J e, envelope = e, received_at = env_now env \<rparr> \<Longrightarrow>
    length is < MAX_INBOX_ITEMS \<Longrightarrow> item_id x \<notin> item_id ` set is \<Longrightarrow>
    starts_with e ''ADENV1.'' \<Longrightarrow> length e \<le> MAX_ENVELOPE_BYTES \<Longrightarrow>
    inbox_move J env (PostInbox c h b) is (is @ [x])"
| expired: "inbox_move J env (GetInbox c h) is
    (filter (\<lambda>x. sat_sub (env_now env) TTL_SECONDS \<le> received_at x) is)"
| acked: "inbox_move J env (AckInbox c h b) is (filter (\<lambda>x. item_id x \<notin> set (acked_ids J b)) is)"

text \<open>After a request the inbox file is as before or holds the inbox.\<close>

definition inbox_saved :: "relay_lib \<Rightarrow> Item list \<Rightarrow> bytes option \<Rightarrow> bytes option \<Rightarrow> bool" where
  "inbox_saved J is f f' \<longleftrightarrow> f' = f \<or> (f' \<noteq> None \<and> f' = items_to J is)"

lemmas relay_handlers = post_inbox_def get_inbox_def ack_inbox_def create_invite_def consume_invite_def
  pairing_def blob_impl_def add_invite_def accept_envelope_def persist_def persist_invites_def
  inbox_refusal_def remove_blob_def

lemma rate_gate_cases:
  assumes "rate_gate env k st d = (r, st', d')"
  obtains w where "r = error_reply TOO_MANY_REQUESTS ''rate_limit_exceeded''" "st' = st \<lparr> rate_window := w \<rparr>" "d' = d"
  | w where "k (st \<lparr> rate_window := w \<rparr>) d = (r, st', d')"
  using assms by (auto simp: rate_gate_def Let_def split: prod.splits if_splits)

lemma blob_upload_files:
  "blob_upload J io now h i body d = (r, d') \<Longrightarrow>
     inbox_file d' = inbox_file d \<and> invites_file d' = invites_file d"
  by (auto simp: blob_upload_def blob_check_def blob_write_def Let_def
      split: option.splits if_splits prod.splits)

lemma accept_envelope_move:
  assumes "accept_envelope J env e st d = (r, st', d')"
    "starts_with e ''ADENV1.''" "length e \<le> MAX_ENVELOPE_BYTES"
  shows "inbox_move J env (PostInbox c h b) (items st) (items st')
    \<and> inbox_saved J (items st') (inbox_file d) (inbox_file d')"
proof (cases "envelope_id J e \<in> item_id ` set (items st) \<or> MAX_INBOX_ITEMS \<le> length (items st)")
  case True
  then show ?thesis using assms(1)
    by (auto simp: accept_envelope_def Let_def list_ex_iff inbox_saved_def intro: kept split: if_splits)
next
  case False
  then have "inbox_move J env (PostInbox c h b) (items st)
      (items st @ [\<lparr> item_id = envelope_id J e, envelope = e, received_at = env_now env \<rparr>])"
    using assms(2,3) by (intro pushed [OF refl]) auto
  moreover have "\<not> list_ex (\<lambda>x. item_id x = envelope_id J e) (items st)"
    using False by (force simp: list_ex_iff)
  ultimately show ?thesis using False assms(1)
    by (auto simp: accept_envelope_def Let_def persist_def inbox_saved_def split: option.splits if_splits)
qed

lemma post_inbox_move:
  assumes "post_inbox J env c h b st d = (r, st', d')"
  shows "inbox_move J env (PostInbox c h b) (items st) (items st')
    \<and> inbox_saved J (items st') (inbox_file d) (inbox_file d')"
  using assms unfolding post_inbox_def
proof (cases rule: rate_gate_cases)
  case (2 w)
  then show ?thesis
    using accept_envelope_move [of J env _ "st \<lparr> rate_window := w \<rparr>" d r st' d' c h b]
    by (auto simp: inbox_refusal_def inbox_saved_def not_less split: option.splits if_splits intro: kept)
qed (auto simp: inbox_saved_def intro: kept)

lemma get_inbox_move:
  assumes "get_inbox J env c h st d = (r, st', d')"
  shows "inbox_move J env (GetInbox c h) (items st) (items st')
    \<and> inbox_saved J (items st') (inbox_file d) (inbox_file d')"
  using assms unfolding get_inbox_def
proof (cases rule: rate_gate_cases)
  case (2 w)
  then show ?thesis
    by (auto simp: relay_handlers inbox_saved_def Let_def split: option.splits if_splits
        intro: kept expired)
qed (auto simp: inbox_saved_def intro: kept)

lemma ack_inbox_move:
  assumes "ack_inbox J env c h b st d = (r, st', d')"
  shows "inbox_move J env (AckInbox c h b) (items st) (items st')
    \<and> inbox_saved J (items st') (inbox_file d) (inbox_file d')"
  using assms unfolding ack_inbox_def
proof (cases rule: rate_gate_cases)
  case (2 w)
  then show ?thesis
    using acked [of J env c h b "items st"]
    by (auto simp: relay_handlers inbox_saved_def Let_def acked_ids_def split: option.splits if_splits
        intro: kept)
qed (auto simp: inbox_saved_def intro: kept)

lemma create_invite_inbox:
  "create_invite J env b st d = (r, st', d') \<Longrightarrow> items st' = items st \<and> inbox_file d' = inbox_file d"
  unfolding create_invite_def
  by (erule rate_gate_cases)
     (auto simp: relay_handlers Let_def split: option.splits if_splits run.splits bool.splits)

lemma consume_invite_inbox:
  "consume_invite J env b st d = (r, st', d') \<Longrightarrow> items st' = items st \<and> inbox_file d' = inbox_file d"
  unfolding consume_invite_def
  by (erule rate_gate_cases) (auto simp: relay_handlers Let_def split: option.splits if_splits)

lemma pairing_inbox:
  "pairing J env b st d = (r, st', d') \<Longrightarrow> items st' = items st \<and> inbox_file d' = inbox_file d"
  unfolding pairing_def
  by (erule rate_gate_cases) (auto simp: relay_handlers Let_def split: option.splits if_splits)

lemma blob_impl_keeps:
  assumes "blob_impl J env io meth h i b st d = (r, st', d')"
  shows "items st' = items st \<and> inbox_file d' = inbox_file d \<and> invites st' = invites st
    \<and> invites_file d' = invites_file d"
  using assms unfolding blob_impl_def
proof (cases rule: rate_gate_cases)
  case (2 w)
  then show ?thesis
    using blob_upload_files [of J io "env_now env" h i b d]
    by (auto simp: remove_blob_def split: if_splits blob_method.splits prod.splits)
qed auto

lemma inbox_unchanged [simp]: "inbox_move J env req is is" "inbox_saved J is f f"
  by (simp_all add: kept inbox_saved_def)

lemma handle_inbox:
  assumes "handle J env req st d = (r, st', d')"
  shows "inbox_move J env req (items st) (items st')
    \<and> inbox_saved J (items st') (inbox_file d) (inbox_file d')"
  using assms
  by (cases "(J, env, req, st, d)" rule: handle.cases)
     (auto dest: post_inbox_move get_inbox_move ack_inbox_move create_invite_inbox
          consume_invite_inbox pairing_inbox blob_impl_keeps)

lemma serve_inbox:
  assumes "serve J env req st d = (r, st', d')"
  shows "inbox_move J env req (items st) (items st')
    \<and> inbox_saved J (items st') (inbox_file d) (inbox_file d')"
  using assms handle_inbox [of J env req st d]
  by (auto simp: serve_def inbox_saved_def kept split: if_splits)

section \<open>What a request does to the invites\<close>

definition request_code :: "relay_lib \<Rightarrow> bytes \<Rightarrow> string option" where
  "request_code J body = Option.bind (parse_value J body) (\<lambda>v. get_str v ''code'')"

definition invites_saved :: "relay_lib \<Rightarrow> RelayInvite list \<Rightarrow> bytes option \<Rightarrow> bytes option \<Rightarrow> bool" where
  "invites_saved J is f f' \<longleftrightarrow> f' = f \<or> (f' \<noteq> None \<and> f' = invites_to J is)"

abbreviation unexpired :: "relay_env \<Rightarrow> RelayInvite list \<Rightarrow> RelayInvite list" where
  "unexpired env \<equiv> filter (\<lambda>r. env_now env < ri_expires_at r)"

abbreviation consume_first :: "relay_lib \<Rightarrow> relay_env \<Rightarrow> string \<Rightarrow> RelayInvite list \<Rightarrow> RelayInvite list" where
  "consume_first J env c \<equiv>
     update_first (open_invite J c (env_now env)) (\<lambda>r. r \<lparr> ri_consumed_at := Some (env_now env) \<rparr>)"

inductive invite_move :: "relay_lib \<Rightarrow> relay_env \<Rightarrow> relay_request \<Rightarrow> RelayInvite list \<Rightarrow> RelayInvite list \<Rightarrow> bool"
  for J env where
  same: "invite_move J env req is is"
| dropped: "invite_move J env (CreateInvite b) is (unexpired env is)"
| added: "env_random env = Some random \<Longrightarrow> ri_code_hash r = code_hash J (invite_code random) \<Longrightarrow>
    length (ri_invite r) \<le> 96 * 1024 \<Longrightarrow> ri_pairing_responses r = [] \<Longrightarrow>
    length (unexpired env is) < MAX_INVITES \<Longrightarrow>
    invite_move J env (CreateInvite b) is (unexpired env is @ [r])"
| redeemed: "request_code J b = Some c \<Longrightarrow>
    invite_move J env (ConsumeInvite b) is (consume_first J env c is)"
| answered: "List.find (consumed_invite J c (env_now env)) is = Some r \<Longrightarrow>
    length (ri_pairing_responses r) < MAX_PAIRING_RESPONSES \<Longrightarrow>
    invite_move J env (Pairing b) is (update_first (consumed_invite J c (env_now env))
      (\<lambda>x. x \<lparr> ri_pairing_responses := ri_pairing_responses x @ [value] \<rparr>) is)"

lemma invites_unchanged [simp]: "invite_move J env req is is" "invites_saved J is f f"
  by (simp_all add: same invites_saved_def)

lemma add_invite_move:
  assumes "add_invite J env i st d = (r, st', d')" "length i \<le> 96 * 1024"
  shows "invite_move J env (CreateInvite b) (invites st) (invites st')
    \<and> invites_saved J (invites st') (invites_file d) (invites_file d')"
proof (cases "env_random env")
  case None
  then show ?thesis using assms(1) by (auto simp: add_invite_def)
next
  case (Some random)
  let ?r = "\<lparr> ri_version = 1, ri_code_hash = code_hash J (invite_code random), ri_invite = i,
     ri_invite_digest = hex (sha256 J (as_bytes i)), ri_created_at = env_now env,
     ri_expires_at = env_now env + 600, ri_consumed_at = None, ri_pairing_responses = [] \<rparr>"
  have "length (unexpired env (invites st)) < MAX_INVITES \<Longrightarrow>
      invite_move J env (CreateInvite b) (invites st) (unexpired env (invites st) @ [?r])"
    by (rule added [OF Some]) (use assms(2) in auto)
  then show ?thesis
    using assms(1) Some dropped [of J env b "invites st"]
    by (auto simp: add_invite_def Let_def persist_invites_def invites_saved_def not_le
        split: option.splits if_splits)
qed

lemma create_invite_move:
  assumes "create_invite J env b st d = (r, st', d')"
  shows "invite_move J env (CreateInvite b) (invites st) (invites st')
    \<and> invites_saved J (invites st') (invites_file d) (invites_file d')"
  using assms unfolding create_invite_def
proof (cases rule: rate_gate_cases)
  case (2 w)
  then show ?thesis
    using add_invite_move [of J env _ "st \<lparr> rate_window := w \<rparr>" d r st' d' b]
    by (auto simp: not_less split: option.splits if_splits run.splits bool.splits)
qed auto

lemma consume_invite_move:
  assumes "consume_invite J env b st d = (r, st', d')"
  shows "invite_move J env (ConsumeInvite b) (invites st) (invites st')
    \<and> invites_saved J (invites st') (invites_file d) (invites_file d')"
  using assms unfolding consume_invite_def
proof (cases rule: rate_gate_cases)
  case (2 w)
  then show ?thesis
    using redeemed [of J b _ env "invites st"]
    by (auto simp: Let_def persist_invites_def invites_saved_def request_code_def
        split: option.splits if_splits)
qed auto

lemma pairing_move:
  assumes "pairing J env b st d = (r, st', d')"
  shows "invite_move J env (Pairing b) (invites st) (invites st')
    \<and> invites_saved J (invites st') (invites_file d) (invites_file d')"
  using assms unfolding pairing_def
proof (cases rule: rate_gate_cases)
  case (2 w)
  then show ?thesis
    using answered [of J _ env "invites st" _ b]
    by (auto simp: Let_def persist_invites_def invites_saved_def split: option.splits if_splits)
qed auto

lemma inbox_handlers_invites:
  "post_inbox J env c h b st d = (r, st', d') \<Longrightarrow> invites st' = invites st \<and> invites_file d' = invites_file d"
  "get_inbox J env c h st d = (r, st', d') \<Longrightarrow> invites st' = invites st \<and> invites_file d' = invites_file d"
  "ack_inbox J env c h b st d = (r, st', d') \<Longrightarrow> invites st' = invites st \<and> invites_file d' = invites_file d"
  unfolding post_inbox_def get_inbox_def ack_inbox_def
  by (erule rate_gate_cases, simp, auto simp: relay_handlers Let_def split: option.splits if_splits)+

lemma serve_invites:
  assumes "serve J env req st d = (r, st', d')"
  shows "invite_move J env req (invites st) (invites st')
    \<and> invites_saved J (invites st') (invites_file d) (invites_file d')"
proof -
  have "invite_move J env req (invites st) (invites st')
      \<and> invites_saved J (invites st') (invites_file d) (invites_file d')"
    if "handle J env req st d = (r, st', d')"
    using that
    by (cases "(J, env, req, st, d)" rule: handle.cases)
       (auto dest: create_invite_move consume_invite_move pairing_move inbox_handlers_invites blob_impl_keeps)
  then show ?thesis using assms by (auto simp: serve_def split: if_splits)
qed

section \<open>Limits of the state\<close>

definition inbox_ok :: "Item list \<Rightarrow> bool" where
  "inbox_ok is \<longleftrightarrow> length is \<le> MAX_INBOX_ITEMS \<and> distinct (map item_id is) \<and> list_all item_ok is"

definition invites_ok :: "RelayInvite list \<Rightarrow> bool" where
  "invites_ok is \<longleftrightarrow> length is \<le> MAX_INVITES \<and>
     list_all (\<lambda>r. length (ri_invite r) \<le> 96 * 1024 \<and> length (ri_pairing_responses r) \<le> MAX_PAIRING_RESPONSES) is"

definition dir_ok :: "relay_lib \<Rightarrow> relay_dir \<Rightarrow> bool" where
  "dir_ok J d \<longleftrightarrow>
     (\<forall>bs. inbox_file d = Some bs \<longrightarrow> (\<exists>is. items_of J bs = Some is \<and> inbox_ok is)) \<and>
     (\<forall>bs. invites_file d = Some bs \<longrightarrow> (\<exists>is. invites_of J bs = Some is \<and> invites_ok is))"

definition system_ok :: "relay_lib \<Rightarrow> relay_system \<Rightarrow> bool" where
  "system_ok J s \<longleftrightarrow> dir_ok J (snd s) \<and>
     (\<forall>st. fst s = Some st \<longrightarrow> inbox_ok (items st) \<and> invites_ok (invites st))"

text \<open>What the relay relies on: reading back the JSON it wrote, and the length of a digest.\<close>

definition lib_ok :: "relay_lib \<Rightarrow> bool" where
  "lib_ok J \<longleftrightarrow> sha_sized (sha256 J) \<and>
     (\<forall>is bs. items_to J is = Some bs \<longrightarrow> items_of J bs = Some is) \<and>
     (\<forall>is bs. invites_to J is = Some bs \<longrightarrow> invites_of J bs = Some is)"

lemma inbox_ok_filter: "inbox_ok is \<Longrightarrow> inbox_ok (filter P is)"
  by (auto simp: inbox_ok_def list_all_iff distinct_map_filter intro: order_trans [OF length_filter_le])

lemma inbox_move_ok:
  assumes "inbox_move J env req is is'" "inbox_ok is" "lib_ok J"
  shows "inbox_ok is'"
  using assms
  by (cases rule: inbox_move.cases)
     (auto simp: inbox_ok_filter, auto simp: inbox_ok_def item_ok_def envelope_id_def lib_ok_def sha_sized_def)

lemma set_update_first: "x \<in> set (update_first P f is) \<Longrightarrow> x \<in> set is \<or> (\<exists>y. List.find P is = Some y \<and> x = f y)"
  by (induction "is") (auto split: if_splits)

lemma length_update_first [simp]: "length (update_first P f is) = length is"
  by (induction "is") auto

lemma find_mem: "List.find P is = Some r \<Longrightarrow> r \<in> set is \<and> P r"
  by (auto simp: find_Some_iff)

lemma invites_ok_update:
  assumes "invites_ok is"
    "\<And>y. List.find P is = Some y \<Longrightarrow> ri_invite (f y) = ri_invite y
       \<and> length (ri_pairing_responses (f y)) \<le> MAX_PAIRING_RESPONSES"
  shows "invites_ok (update_first P f is)"
  using assms by (auto simp: invites_ok_def list_all_iff dest!: set_update_first dest: find_mem)

lemma invites_ok_filter: "invites_ok is \<Longrightarrow> invites_ok (filter P is)"
  by (auto simp: invites_ok_def list_all_iff intro: order_trans [OF length_filter_le])

lemma invite_move_ok:
  assumes "invite_move J env req is is'" "invites_ok is"
  shows "invites_ok is'"
  using assms
proof (cases rule: invite_move.cases)
  case (added random r b)
  then show ?thesis
    using invites_ok_filter [OF assms(2), of "\<lambda>r. env_now env < ri_expires_at r"]
    by (auto simp: invites_ok_def)
next
  case (redeemed b c)
  have "length (ri_pairing_responses y) \<le> MAX_PAIRING_RESPONSES"
    if "List.find (open_invite J c (env_now env)) is = Some y" for y
    using find_mem [OF that] assms(2) by (auto simp: invites_ok_def list_all_iff)
  then show ?thesis
    unfolding redeemed(2) by (intro invites_ok_update assms(2)) simp
next
  case (answered c r v b)
  then show ?thesis using assms(2) by (auto intro!: invites_ok_update)
qed (auto simp: invites_ok_filter)

lemma boot_capability_files:
  "boot_capability J io d = (r, d') \<Longrightarrow> inbox_file d' = inbox_file d \<and> invites_file d' = invites_file d"
  by (auto simp: boot_capability_def split: option.splits sum.splits if_splits prod.splits)

lemma boot_key_files:
  "boot_key io d = (r, d') \<Longrightarrow> inbox_file d' = inbox_file d \<and> invites_file d' = invites_file d"
  by (auto simp: boot_key_def Let_def split: option.splits if_splits prod.splits)

lemma load_cong:
  "inbox_file d' = inbox_file d \<Longrightarrow> load_store J io d' = load_store J io d"
  "invites_file d' = invites_file d \<Longrightarrow> load_invites J io d' = load_invites J io d"
  by (simp_all add: load_store_def load_invites_def)

lemma boot_files:
  assumes "boot J io d = (r, d')"
  shows "inbox_file d' = inbox_file d \<and> invites_file d' = invites_file d \<and>
    (\<forall>st. r = Ok st \<longrightarrow> load_store J io d = Ok (items st) \<and> load_invites J io d = Ok (invites st))"
proof -
  obtain c d1 where c: "boot_capability J io d = (c, d1)" by (cases "boot_capability J io d")
  obtain k d2 where k: "boot_key io d1 = (k, d2)" by (cases "boot_key io d1")
  note files = boot_capability_files [OF c] boot_key_files [OF k]
  show ?thesis
    using assms c k files load_cong [of d2 d J io] load_cong [of d1 d J io]
    by (auto simp: boot_def split: sum.splits)
qed

lemma load_ok:
  assumes "dir_ok J d"
  shows "load_store J io d = Ok is \<Longrightarrow> inbox_ok is" "load_invites J io d = Ok js \<Longrightarrow> invites_ok js"
  using assms
  by (auto simp: dir_ok_def load_store_def load_invites_def inbox_ok_def invites_ok_def
      split: option.splits if_splits)

lemma served_dir_ok:
  assumes "serve J env req st d = (r, st', d')" "dir_ok J d" "lib_ok J"
    "inbox_ok (items st')" "invites_ok (invites st')"
  shows "dir_ok J d'"
  using serve_inbox [OF assms(1)] serve_invites [OF assms(1)] assms(2-5)
  by (auto simp: dir_ok_def inbox_saved_def invites_saved_def lib_ok_def)

lemma relay_step_ok:
  assumes "system_ok J s" "lib_ok J"
  shows "system_ok J (snd (relay_step J s e))"
  using assms
proof (cases "(J, s, e)" rule: relay_step.cases)
  case (1 J' st d env req)
  obtain r st' d' where serve: "serve J env req st d = (r, st', d')" by (cases "serve J env req st d")
  have "inbox_ok (items st')" "invites_ok (invites st')"
    using serve_inbox [OF serve] serve_invites [OF serve] assms 1
    by (auto simp: system_ok_def intro: inbox_move_ok invite_move_ok)
  moreover have "dir_ok J d'"
    using served_dir_ok [OF serve _ assms(2)] calculation assms(1) 1 by (simp add: system_ok_def)
  ultimately show ?thesis using 1 serve by (simp add: system_ok_def)
next
  case (5 J' d io)
  obtain r d' where boot: "boot J io d = (r, d')" by (cases "boot J io d")
  have "dir_ok J d'" using boot_files [OF boot] assms(1) 5 by (simp add: system_ok_def dir_ok_def)
  then show ?thesis
    using 5 boot boot_files [OF boot] assms(1) load_ok [of J d io]
    by (auto simp: system_ok_def split: sum.splits)
qed (auto simp: system_ok_def)

lemma relay_run_ok: "system_ok J s \<Longrightarrow> lib_ok J \<Longrightarrow> system_ok J (relay_run J s es)"
  by (induction es arbitrary: s) (simp_all add: relay_step_ok)

lemma load_accepts:
  assumes "dir_ok J d" "bo_directory io"
  shows "bo_read_inbox io \<Longrightarrow> is_ok (load_store J io d)"
    "bo_read_invites io \<Longrightarrow> is_ok (load_invites J io d)"
  using assms
  by (fastforce simp: dir_ok_def load_store_def load_invites_def inbox_ok_def invites_ok_def item_ok_def
      list_all_iff list_ex_iff split: option.splits)+

definition empty_dir :: relay_dir where
  "empty_dir = \<lparr> inbox_file = None, invites_file = None, capability_file = None, key_file = None,
     blob_files = (\<lambda>_. None), meta_files = (\<lambda>_. None) \<rparr>"

lemma empty_dir_ok [simp]: "system_ok J (None, empty_dir)"
  by (simp add: system_ok_def dir_ok_def empty_dir_def)

section \<open>Redeeming a code\<close>

text \<open>The unredeemed records of a code, in memory or in the file, whichever has more: what the relay can
  still hand out.\<close>

definition open_count :: "string \<Rightarrow> RelayInvite list \<Rightarrow> nat" where
  "open_count h is = length (filter (\<lambda>r. ri_code_hash r = h \<and> ri_consumed_at r = None) is)"

definition file_open_count :: "relay_lib \<Rightarrow> string \<Rightarrow> bytes option \<Rightarrow> nat" where
  "file_open_count J h f =
     (case Option.bind f (invites_of J) of None \<Rightarrow> 0 | Some is \<Rightarrow> open_count h is)"

definition redeemable :: "relay_lib \<Rightarrow> string \<Rightarrow> relay_system \<Rightarrow> nat" where
  "redeemable J h s =
     max (case fst s of None \<Rightarrow> 0 | Some st \<Rightarrow> open_count h (invites st)) (file_open_count J h (invites_file (snd s)))"

fun discloses :: "relay_lib \<Rightarrow> string \<Rightarrow> relay_event \<times> reply option \<Rightarrow> bool" where
  "discloses J h (Request env (ConsumeInvite b), Some (Reply STATUS_OK v)) \<longleftrightarrow>
     map_option (code_hash J) (request_code J b) = Some h"
| "discloses J h _ \<longleftrightarrow> False"

fun draws :: "relay_lib \<Rightarrow> string \<Rightarrow> relay_event \<Rightarrow> bool" where
  "draws J h (Request env (CreateInvite b)) \<longleftrightarrow>
     map_option (\<lambda>random. code_hash J (invite_code random)) (env_random env) = Some h"
| "draws J h _ \<longleftrightarrow> False"

lemma open_count_update_le:
  assumes "\<And>x. ri_code_hash (f x) = ri_code_hash x" "\<And>x. ri_consumed_at (f x) = None \<Longrightarrow> ri_consumed_at x = None"
  shows "open_count h (update_first P f is) \<le> open_count h is"
  using assms by (induction "is") (auto simp: open_count_def)

lemma open_count_consume:
  assumes "List.find (open_invite J c t) is = Some r" "code_hash J c = h"
  shows "Suc (open_count h (update_first (open_invite J c t) (\<lambda>x. x \<lparr> ri_consumed_at := Some t' \<rparr>) is))
    = open_count h is"
  using assms by (induction "is") (auto simp: open_count_def open_invite_def split: if_splits)

lemma open_count_filter: "open_count h (filter P is) \<le> open_count h is"
  by (induction "is") (auto simp: open_count_def)

lemma invite_move_open_count:
  assumes "invite_move J env req is is'"
  shows "open_count h is' \<le> open_count h is + (if draws J h (Request env req) then 1 else 0)"
  using assms
proof (cases rule: invite_move.cases)
  case (added random r b)
  then show ?thesis
    using open_count_filter [of h "\<lambda>r. env_now env < ri_expires_at r" "is"]
    by (auto simp: open_count_def)
qed (auto intro: le_trans [OF open_count_update_le] le_trans [OF open_count_filter])

lemma consume_discloses:
  assumes "consume_invite J env b st d = (Reply STATUS_OK v, st', d')"
  obtains c r where "request_code J b = Some c" "List.find (open_invite J c (env_now env)) (invites st) = Some r"
    "invites st' = consume_first J env c (invites st)" "invites_file d' = invites_to J (invites st')"
    "invites_file d' \<noteq> None"
    "v = JObject [(''consumed'', JBool True), (''invite'', JString (ri_invite r)),
      (''inviteDigest'', JString (ri_invite_digest r)),
      (''receipt'', JString (receipt J (receipt_key st) (origin st) c (ri_invite r) (env_now env)))]"
  using assms unfolding consume_invite_def
proof (cases rule: rate_gate_cases)
  case (2 w)
  then show ?thesis
    using that
    by (auto simp: Let_def persist_invites_def request_code_def error_reply_def
        split: option.splits if_splits)
qed (simp add: error_reply_def)

lemma saved_file_open_count:
  assumes "invites_saved J is f f'" "lib_ok J"
  shows "file_open_count J h f' \<le> max (open_count h is) (file_open_count J h f)"
  using assms by (auto simp: invites_saved_def file_open_count_def lib_ok_def)

lemma discloses_cases:
  assumes "discloses J h (Request env req, Some r)"
  obtains b v c where "req = ConsumeInvite b" "r = Reply STATUS_OK v" "request_code J b = Some c" "code_hash J c = h"
  using assms by (cases "(J, h, Request env req, Some r)" rule: discloses.cases) auto

lemma served_redeemable:
  assumes "serve J env req st d = (r, st', d')" "lib_ok J"
  shows "(if discloses J h (Request env req, Some r) then 1 else 0) + redeemable J h (Some st', d')
    \<le> redeemable J h (Some st, d) + (if draws J h (Request env req) then 1 else 0)"
proof (cases "discloses J h (Request env req, Some r)")
  case True
  then obtain b v c where *: "req = ConsumeInvite b" "r = Reply STATUS_OK v" "request_code J b = Some c"
    "code_hash J c = h" by (rule discloses_cases)
  then have "consume_invite J env b st d = (Reply STATUS_OK v, st', d')"
    using assms(1) by (simp add: serve_def split: if_splits)
  then show ?thesis
  proof (rule consume_discloses)
    fix c' x assume c': "request_code J b = Some c'"
      and x: "List.find (open_invite J c' (env_now env)) (invites st) = Some x"
      and st': "invites st' = consume_first J env c' (invites st)"
      and f: "invites_file d' = invites_to J (invites st')" "invites_file d' \<noteq> None"
    have "Suc (open_count h (invites st')) = open_count h (invites st)"
      unfolding st' using c' * by (intro open_count_consume [OF x]) simp
    moreover have "file_open_count J h (invites_file d') = open_count h (invites st')"
      using f assms(2) by (auto simp: file_open_count_def lib_ok_def)
    ultimately show ?thesis using True by (simp add: redeemable_def)
  qed
next
  case False
  then show ?thesis
    using invite_move_open_count [of J env req "invites st" "invites st'" h]
      saved_file_open_count [of J "invites st'" "invites_file d" "invites_file d'" h]
      serve_invites [OF assms(1)] assms(2)
    by (auto simp: redeemable_def)
qed

lemma boot_redeemable:
  assumes "boot J io d = (r, d')"
  shows "redeemable J h (case r of Inl _ \<Rightarrow> None | Inr st \<Rightarrow> Some st, d') \<le> redeemable J h (None, d)"
proof -
  have "open_count h is \<le> file_open_count J h (invites_file d)" if "load_invites J io d = Ok is" for "is"
    using that by (auto simp: load_invites_def file_open_count_def open_count_def split: option.splits if_splits)
  then show ?thesis
    using boot_files [OF assms] by (auto simp: redeemable_def split: sum.splits)
qed

lemma relay_step_redeemable:
  assumes "lib_ok J"
  shows "(if discloses J h (e, fst (relay_step J s e)) then 1 else 0) + redeemable J h (snd (relay_step J s e))
    \<le> redeemable J h s + (if draws J h e then 1 else 0)"
proof (cases "(J, s, e)" rule: relay_step.cases)
  case (1 J' st d env req)
  obtain r st' d' where serve: "serve J env req st d = (r, st', d')" by (cases "serve J env req st d")
  have "redeemable J h (None, d') \<le> redeemable J h (Some st', d')" by (simp add: redeemable_def)
  then show ?thesis
    using served_redeemable [OF serve assms, of h] serve 1 by (auto split: if_splits)
next
  case (5 J' d io)
  obtain r d' where boot: "boot J io d = (r, d')" by (cases "boot J io d")
  then show ?thesis using 5 boot_redeemable [OF boot, of h] by simp
qed (auto simp: redeemable_def)

lemma relay_run_redeemable:
  assumes "lib_ok J"
  shows "length (filter (discloses J h) (relay_replies J s es)) + redeemable J h (relay_run J s es)
    \<le> redeemable J h s + length (filter (draws J h) es)"
proof (induction es arbitrary: s)
  case (Cons e es)
  show ?case
    using Cons.IH [of "snd (relay_step J s e)"] relay_step_redeemable [OF assms, of h e s]
    by (auto split: if_splits)
qed simp

text \<open>C3. A relay code is redeemed at most as often as it was drawn.  Over any life of the relay that starts with
  an empty data directory, with kills, aborts, failed writes and restarts in between, the number of replies
  that hand out an invite for a code is at most the number of creation requests whose random bytes gave that
  code; with codes that never repeat, an invite is handed out at most once.\<close>
theorem code_redeemed_at_most_once:
  assumes "lib_ok J"
  shows "length (filter (discloses J h) (relay_replies J (None, empty_dir) es)) \<le> length (filter (draws J h) es)"
  using relay_run_redeemable [OF assms, of h "(None, empty_dir)" es]
  by (simp add: redeemable_def file_open_count_def empty_dir_def)


text \<open>C38. The request limit.  However the window stands, the requests of any sixty seconds of the relay's clock, in
  the order of the clock, are admitted at most 240 times: the limit is 120 in one window, and such an
  interval meets at most two.\<close>
theorem requests_limited:
  assumes "sorted (map unat ts)" "\<forall>t \<in> set ts. a \<le> unat t \<and> unat t < a + 60"
  shows "admitted w ts \<le> 240"
  using admitted_interval [OF assms, of w] by linarith

section \<open>Accepted envelopes\<close>

text \<open>An event that neither acknowledges an envelope nor finds it too old.\<close>

fun spares :: "relay_lib \<Rightarrow> Item \<Rightarrow> relay_event \<Rightarrow> bool" where
  "spares J x (Request env (AckInbox c h b)) \<longleftrightarrow> item_id x \<notin> set (acked_ids J b)"
| "spares J x (Request env (GetInbox c h)) \<longleftrightarrow> unat (env_now env) \<le> unat (received_at x) + unat TTL_SECONDS"
| "spares J x _ \<longleftrightarrow> True"

definition holds :: "relay_lib \<Rightarrow> Item \<Rightarrow> relay_system \<Rightarrow> bool" where
  "holds J x s \<longleftrightarrow>
     (\<forall>st. fst s = Some st \<longrightarrow> x \<in> set (items st)) \<and>
     (\<exists>bs is. inbox_file (snd s) = Some bs \<and> items_of J bs = Some is \<and> x \<in> set is)"

lemma inbox_move_spares:
  assumes "inbox_move J env req is is'" "x \<in> set is" "spares J x (Request env req)"
  shows "x \<in> set is'"
  using assms
  by (cases rule: inbox_move.cases) (auto simp: word_le_nat_alt unat_sat_sub)

lemma relay_step_holds:
  assumes "holds J x s" "spares J x e" "lib_ok J"
  shows "holds J x (snd (relay_step J s e))"
proof (cases "(J, s, e)" rule: relay_step.cases)
  case (1 J' st d env req)
  obtain r st' d' where serve: "serve J env req st d = (r, st', d')" by (cases "serve J env req st d")
  have "x \<in> set (items st')"
    using serve_inbox [OF serve] assms 1 by (auto simp: holds_def intro: inbox_move_spares)
  then show ?thesis
    using serve_inbox [OF serve] serve assms 1 by (auto simp: holds_def inbox_saved_def lib_ok_def)
next
  case (5 J' d io)
  obtain r d' where boot: "boot J io d = (r, d')" by (cases "boot J io d")
  then show ?thesis
    using 5 boot_files [OF boot] assms(1)
    by (auto simp: holds_def load_store_def split: sum.splits if_splits)
qed (use assms in \<open>auto simp: holds_def\<close>)

lemma relay_run_holds:
  "holds J x s \<Longrightarrow> list_all (spares J x) es \<Longrightarrow> lib_ok J \<Longrightarrow> holds J x (relay_run J s es)"
  by (induction es arbitrary: s) (simp_all add: relay_step_holds)

abbreviation accepted_reply :: "string \<Rightarrow> reply" where
  "accepted_reply i \<equiv> Reply ACCEPTED (JObject [(''accepted'', JBool True), (''id'', JString i)])"

lemma post_inbox_accepted:
  assumes "post_inbox J env c h b st d = (accepted_reply i, st', d')" "lib_ok J"
    "Option.bind (parse_value J b) (\<lambda>v. get_str v ''envelope'') = Some e"
  shows "holds J \<lparr> item_id = envelope_id J e, envelope = e, received_at = env_now env \<rparr> (Some st', d')"
  using assms(1) unfolding post_inbox_def
proof (cases rule: rate_gate_cases)
  case (2 w)
  then show ?thesis
    using assms(2,3)
    by (auto simp: relay_handlers error_reply_def Let_def holds_def lib_ok_def split: option.splits if_splits)
qed (simp add: error_reply_def)

lemma get_inbox_reply:
  assumes "get_inbox J env c h st d = (Reply STATUS_OK v, st', d')"
  shows "v = JObject [(''protocol'', json_u64 1), (''items'', JArray (map item_value (items st')))]"
  using assms unfolding get_inbox_def
  by (cases rule: rate_gate_cases)
     (auto simp: relay_handlers error_reply_def Let_def split: option.splits if_splits)

text \<open>C2. An accepted envelope is delivered.  Once the relay has answered a post with a fresh acceptance, every
  later successful read of the inbox lists the envelope, through any requests, kills, aborts and restarts in
  between, as long as no request acknowledges its identifier and no read happens more than seven days after
  it was received.\<close>
theorem accepted_envelope_delivered:
  assumes "lib_ok J"
    "relay_step J (Some st, d) (Request env (PostInbox c h b)) = (Some (accepted_reply i), s)"
    "Option.bind (parse_value J b) (\<lambda>v. get_str v ''envelope'') = Some e"
    "x = \<lparr> item_id = envelope_id J e, envelope = e, received_at = env_now env \<rparr>"
    "list_all (spares J x) (es @ [Request env' (GetInbox c' h')])"
    "relay_step J (relay_run J s es) (Request env' (GetInbox c' h')) = (Some (Reply STATUS_OK v), s')"
  shows "\<exists>vs. value_get v ''items'' = Some (JArray vs) \<and> item_value x \<in> set vs"
proof -
  have "holds J x s"
    using assms(2) post_inbox_accepted [of J env c h b st d i _ _ e] assms(1,3,4)
    by (auto simp: serve_def split: if_splits prod.splits)
  then have held: "holds J x (relay_run J s es)"
    using assms(1,5) by (intro relay_run_holds) simp_all
  obtain st1 d1 where s1: "relay_run J s es = (Some st1, d1)"
    using assms(6) by (cases "relay_run J s es"; cases "fst (relay_run J s es)") auto
  obtain st2 d2 where get: "get_inbox J env' c' h' st1 d1 = (Reply STATUS_OK v, st2, d2)" and s': "s' = (Some st2, d2)"
    using assms(6) s1 by (auto simp: serve_def split: if_splits prod.splits)
  have "holds J x s'"
    using relay_step_holds [OF held, of "Request env' (GetInbox c' h')"] assms(1,5,6) by simp
  then have "x \<in> set (items st2)" by (simp add: s' holds_def)
  then show ?thesis by (simp add: get_inbox_reply [OF get])
qed

section \<open>Uploads\<close>

lemma write_at_end [simp]: "write_at (length content) body content = content @ body"
  by (simp add: write_at_def)

lemma blob_check_passed:
  assumes "blob_check io now i offset full body d = (None, d')"
  obtains content where "blob_files d' i = Some content" "length content = offset"
    "blob_files d i = Some content \<or> (blob_files d i = None \<and> content = [])" "offset + length body \<le> full"
  using assms
  by (auto simp: blob_check_def fs_read_blob_def Let_def split: if_splits option.splits)

lemma blob_check_refused:
  assumes "blob_check io now i offset full body d = (Some r, d')"
  shows "blob_files d' i = blob_files d i \<or> (blob_files d i = None \<and> blob_files d' i = Some [])"
    and "r = Reply CREATED v \<Longrightarrow> \<exists>bs. blob_files d' i = Some bs \<and> length bs = full"
  using assms
  by (auto simp: blob_check_def fs_read_blob_def Let_def error_reply_def blob_status_def
      split: if_splits option.splits)

lemma blob_write_result:
  assumes "blob_write J io now i offset full body d = (r, d')" "blob_files d i = Some content" "length content = offset"
  shows "\<exists>n. blob_files d' i = Some (content @ take n body)"
    and "r = Reply CREATED v \<Longrightarrow> blob_files d' i = Some (content @ body) \<and> offset + length body = full"
proof -
  have "\<exists>n. content = content @ take n body" "\<exists>n. content @ body = content @ take n body"
    by (rule exI [of _ 0], simp) (rule exI [of _ "length body"], simp)
  then show "\<exists>n. blob_files d' i = Some (content @ take n body)"
    using assms by (auto simp: blob_write_def Let_def split: if_splits option.splits prod.splits)
  show "r = Reply CREATED v \<Longrightarrow> blob_files d' i = Some (content @ body) \<and> offset + length body = full"
    using assms
    by (auto simp: blob_write_def Let_def error_reply_def blob_status_def split: if_splits option.splits prod.splits)
qed

text \<open>A piece of some data: its offset and total length in the headers, its bytes the body.\<close>

definition slice_of :: "bytes \<Rightarrow> blob_headers \<Rightarrow> bytes \<Rightarrow> bool" where
  "slice_of data h body \<longleftrightarrow> header_usize (h_total h) 0 = Some (length data) \<and>
     (case header_usize (h_offset h) 0 of
        None \<Rightarrow> False
      | Some offset \<Rightarrow> body = take (length body) (drop offset data))"

definition stored_prefix :: "bytes \<Rightarrow> string \<Rightarrow> relay_dir \<Rightarrow> bool" where
  "stored_prefix data i d \<longleftrightarrow> (case blob_files d i of None \<Rightarrow> True | Some bs \<Rightarrow> bs = take (length bs) data)"

lemma prefix_slice:
  assumes "bs = take (length bs) data" "body = take (length body) (drop (length bs) data)"
  shows "bs @ take n body = take (length (bs @ take n body)) data"
proof -
  have "take n body = take (length (take n body)) (drop (length bs) data)"
    by (subst assms(2)) (simp add: min.commute min.left_commute)
  then show ?thesis
    using assms(1) by (metis (no_types) length_append take_add)
qed

lemma blob_upload_prefix:
  assumes "stored_prefix data i d" "slice_of data h body" "blob_upload J io now h i body d = (r, d')"
  shows "stored_prefix data i d' \<and> (\<forall>v. r = Reply CREATED v \<longrightarrow> blob_files d' i = Some data)"
proof -
  obtain offset where o: "header_usize (h_offset h) 0 = Some offset" "header_usize (h_total h) 0 = Some (length data)"
    "body = take (length body) (drop offset data)"
    using assms(2) by (auto simp: slice_of_def split: option.splits)
  show ?thesis
  proof (cases "length data = 0 \<or> MAX_BLOB_BYTES < length data")
    case True
    then show ?thesis using assms(1,3) o by (auto simp: blob_upload_def error_reply_def)
  next
    case False
    obtain q d1 where check: "blob_check io now i offset (length data) body d = (q, d1)"
      by (cases "blob_check io now i offset (length data) body d")
    show ?thesis
    proof (cases q)
      case None
      then obtain content where c: "blob_files d1 i = Some content" "length content = offset"
        "blob_files d i = Some content \<or> (blob_files d i = None \<and> content = [])"
        using blob_check_passed check by blast
      have pre: "content = take (length content) data"
        using c assms(1) by (auto simp: stored_prefix_def)
      have w: "blob_write J io now i offset (length data) body d1 = (r, d')"
        using assms(3) o False check None by (simp add: blob_upload_def)
      have ext: "content @ take n body = take (length (content @ take n body)) data" for n
        by (rule prefix_slice [OF pre]) (use o(3) c(2) in simp)
      show ?thesis
        using blob_write_result [OF w c(1,2)] ext ext [of "length body"] c(2)
        by (fastforce simp: stored_prefix_def)
    next
      case (Some r')
      then show ?thesis
        using assms(1,3) o False check blob_check_refused [of io now i offset "length data" body d r' d1]
        by (fastforce simp: blob_upload_def stored_prefix_def)
    qed
  qed
qed

fun upload_run :: "relay_lib \<Rightarrow> string \<Rightarrow> (blob_io \<times> u64 \<times> blob_headers \<times> bytes) list \<Rightarrow> relay_dir \<Rightarrow> relay_dir" where
  "upload_run J i [] d = d"
| "upload_run J i ((io, now, h, body) # us) d = upload_run J i us (snd (blob_upload J io now h i body d))"

lemma upload_run_prefix:
  "stored_prefix data i d \<Longrightarrow> list_all (\<lambda>(io, now, h, body). slice_of data h body) us \<Longrightarrow>
     stored_prefix data i (upload_run J i us d)"
proof (induction us arbitrary: d)
  case (Cons u us)
  obtain io now h body where u: "u = (io, now, h, body)" by (cases u)
  then show ?case
    using Cons blob_upload_prefix [of data i d h body J io now] by (cases "blob_upload J io now h i body d") auto
qed simp

text \<open>C39. An upload in pieces is read back unchanged.  Starting without the blob, after any sequence of uploads of
  pieces of the data, in any order and with repetitions and writes that fail half-way, the reply that
  reports completion to the sender of a piece is given only when the stored blob is the data, and reading
  the blob then returns it.\<close>
theorem upload_read_back:
  assumes "blob_files d i = None" "list_all (\<lambda>(io, now, h, body). slice_of data h body) us" "slice_of data h body"
    "blob_upload J io now h i body (upload_run J i us d) = (Reply CREATED v, d')"
    "bio_read io'" "h_offset h' = None" "h_length h' = None"
  shows "read_blob_range io' h' i d' = BlobReply 0 (length data) data"
proof -
  have "blob_files d' i = Some data"
    using blob_upload_prefix [OF upload_run_prefix [OF _ assms(2)] assms(3,4)] assms(1)
    by (simp add: stored_prefix_def)
  then show ?thesis
    using assms(5-7) by (simp add: read_blob_range_def fs_read_blob_def header_usize_def)
qed

section \<open>Limits of these guarantees\<close>

text \<open>A slice that cuts a two-byte character of the invite makes the check panic, and the release profile aborts
  on a panic: one unauthenticated request stops the relay.\<close>

definition split_character_invite :: string where
  "split_character_invite = ''ADDAINV1.a'' @ [CHR 0xC3, CHR 0xA9] @ ''a.''"

lemma split_character_aborts:
  assumes "Option.bind (parse_value J b) (\<lambda>v. get_str v ''invite'') = Some split_character_invite"
    "fst (rate_limited (env_rate env) (rate_window st)) = False" "length b \<le> MAX_RELAY_BODY_BYTES"
  shows "relay_step J (Some st, d) (Request env (CreateInvite b)) = (None, None, d)"
proof -
  have "validate_invite J t split_character_invite o' = Panics" for t o'
    by (simp add: validate_invite_def split_character_invite_def with_hex_def relay_hex_decode_def utf8_cont_def)
  moreover have "length split_character_invite \<le> 96 * 1024" by (simp add: split_character_invite_def)
  ultimately show ?thesis
    using assms
    by (auto simp: serve_def create_invite_def rate_gate_def Let_def split: prod.splits option.splits Option.bind_splits)
qed

text \<open>When the write of a post fails the envelope stays in memory, so the sender's retry is answered as a
  duplicate; the envelope is not in the file and a restart loses it.\<close>

lemma duplicate_not_durable:
  assumes "env_write env = False" "list_ex (\<lambda>x. item_id x = envelope_id J e) (items st) = False"
    "length (items st) < MAX_INBOX_ITEMS" "accept_envelope J env e st d = (r, st1, d1)"
  shows "r = error_reply INTERNAL_SERVER_ERROR ''storage_error'' \<and> d1 = d \<and>
    (\<exists>v. accept_envelope J env' e st1 d1 = (Reply ACCEPTED v, st1, d))"
  using assms by (auto simp: accept_envelope_def Let_def persist_def split: option.splits)

text \<open>An upload whose write stopped inside the piece cannot be continued: the retry of the piece is refused.\<close>

lemma torn_upload_refused:
  assumes "blob_files d i = Some bs" "offset < length bs" "length bs < offset + length body"
    "offset + length body \<le> full" "bio_read io"
  shows "blob_check io now i offset full body d = (Some (error_reply CONFLICT ''blob_chunk_conflict''), d)"
  using assms by (simp add: blob_check_def fs_read_blob_def)

text \<open>Two uploads that both passed the check before either wrote: the second write replaces the bytes of the
  first, although both are reported as accepted.\<close>

definition good_blob_io :: blob_io where
  "good_blob_io = \<lparr> bio_read = True, bio_open = True, bio_len = True, bio_seek = True, bio_write = None, bio_meta = Written \<rparr>"

lemma concurrent_uploads_overwrite:
  assumes "blob_check good_blob_io t ''x'' 0 2 [1, 1] empty_dir = (q1, d1)"
    "blob_check good_blob_io t ''x'' 0 2 [2, 2] d1 = (q2, d2)"
    "blob_write J good_blob_io t ''x'' 0 2 [1, 1] d2 = (r1, d3)"
    "blob_write J good_blob_io t ''x'' 0 2 [2, 2] d3 = (r2, d4)"
  shows "q1 = None \<and> q2 = None \<and> (\<exists>v. r1 = Reply CREATED v) \<and> (\<exists>v. r2 = Reply CREATED v) \<and>
    blob_files d3 ''x'' = Some [1, 1] \<and> blob_files d4 ''x'' = Some [2, 2]"
  using assms
  by (auto simp: blob_check_def fs_read_blob_def good_blob_io_def empty_dir_def blob_write_def write_at_def
      blob_status_def)

section \<open>Concrete runs\<close>

text \<open>A stand-in for the libraries: every body is an object whose fields are its text.\<close>

definition demo_wire :: string where "demo_wire = ''ADENV1.x''"

definition demo_item :: Item where
  "demo_item = \<lparr> item_id = hex (fit 32 (as_bytes demo_wire)), envelope = demo_wire, received_at = 5 \<rparr>"

definition demo_lib :: relay_lib where
  "demo_lib = \<lparr>
     parse_value = (\<lambda>b. Some (JObject [(''envelope'', JString (bytes_to_string b)), (''code'', JString (bytes_to_string b)),
        (''invite'', JString (bytes_to_string b))])),
     value_bytes = (\<lambda>_. Some []), value_text = (\<lambda>_. []),
     items_to = (\<lambda>is. if is = [demo_item] then Some [1] else None), items_of = (\<lambda>_. Some [demo_item]),
     invites_to = (\<lambda>is. if is = [] then Some [] else None), invites_of = (\<lambda>_. Some []),
     sha256 = fit 32, upper_table = (\<lambda>n. [n]), relay_ed = demo_ed, base64url = (\<lambda>_. replicate 43 CHR ''a'') \<rparr>"

definition demo_boot :: boot_io where
  "demo_boot = \<lparr> bo_read_capability = True, bo_write_capability = Written, bo_random_capability = Some [],
     bo_read_invites = True, bo_read_key = True, bo_random_key = Some (replicate 32 7), bo_write_key = Written,
     bo_permissions = True, bo_directory = True, bo_read_inbox = True, bo_origin = ''http://127.0.0.1:1422'', bo_now = 0 \<rparr>"

definition demo_env :: relay_env where
  "demo_env = \<lparr> env_rate = 1, env_check = 1, env_now = 5, env_random = Some (replicate 32 0), env_write = True \<rparr>"

definition demo_cap :: string where "demo_cap = replicate 43 CHR ''a''"

definition demo_app :: AppState where
  "demo_app = \<lparr> items = [], invites = [], capability = demo_cap, origin = ''http://127.0.0.1:1422'',
     receipt_key = replicate 32 7, rate_window = \<lparr> started_at = 0, requests = 0 \<rparr> \<rparr>"

lemma demo_lib_ok: "lib_ok demo_lib"
  by (auto simp: lib_ok_def demo_lib_def demo_sha_sized split: if_splits)

theorem code_redeemed_at_most_once_witness:
  "lib_ok demo_lib \<and>
   length (filter (discloses demo_lib []) (relay_replies demo_lib (None, empty_dir)
       [Boot demo_boot, Request demo_env (ConsumeInvite []), Kill]))
     \<le> length (filter (draws demo_lib []) [Boot demo_boot, Request demo_env (ConsumeInvite []), Kill])"
  using code_redeemed_at_most_once [OF demo_lib_ok] demo_lib_ok by blast

theorem requests_limited_witness:
  "admitted \<lparr> started_at = 0, requests = 119 \<rparr> [70, 71, 72] \<le> 240"
  by (rule requests_limited [where a = 70]) simp_all

lemma demo_lib_fields [simp]:
  "parse_value demo_lib b = Some (JObject [(''envelope'', JString (bytes_to_string b)),
     (''code'', JString (bytes_to_string b)), (''invite'', JString (bytes_to_string b))])"
  "items_to demo_lib is = (if is = [demo_item] then Some [1] else None)" "items_of demo_lib b = Some [demo_item]"
  "invites_of demo_lib b = Some []" "base64url demo_lib b = demo_cap"
  "envelope_id demo_lib demo_wire = item_id demo_item"
  by (simp_all add: demo_lib_def envelope_id_def demo_item_def demo_cap_def)

lemma demo_wire_facts [simp]:
  "starts_with demo_wire ''ADENV1.''" "\<not> MAX_ENVELOPE_BYTES < length demo_wire"
  "\<not> MAX_RELAY_BODY_BYTES < length demo_wire"
  "\<lparr> item_id = item_id demo_item, envelope = demo_wire, received_at = 5 \<rparr> = demo_item"
  by (simp_all add: demo_wire_def starts_with_def MAX_ENVELOPE_BYTES_def MAX_RELAY_BODY_BYTES_def demo_item_def)

lemma demo_rate [simp]: "rate_limited 1 \<lparr> started_at = 0, requests = 0 \<rparr> = (False, \<lparr> started_at = 0, requests = 1 \<rparr>)"
  by (simp add: rate_limited_same sat_add_def)

definition demo_dir :: relay_dir where
  "demo_dir = empty_dir \<lparr> inbox_file := Some [1] \<rparr>"

lemma demo_post:
  "relay_step demo_lib (Some demo_app, empty_dir) (Request demo_env (PostInbox demo_cap (Some demo_cap) (as_bytes demo_wire)))
   = (Some (accepted_reply (item_id demo_item)),
      Some (demo_app \<lparr> items := [demo_item], rate_window := \<lparr> started_at = 0, requests = 1 \<rparr> \<rparr>), demo_dir)"
  by (simp add: serve_def post_inbox_def rate_gate_def demo_env_def demo_app_def inbox_refusal_def
      accept_envelope_def persist_def MAX_INBOX_ITEMS_def demo_dir_def Let_def)

definition demo_booted :: relay_dir where
  "demo_booted = empty_dir \<lparr> capability_file := Some (as_bytes (demo_cap @ [CHR 0x0A])), key_file := Some (replicate 32 7) \<rparr>"

lemma demo_first_start: "relay_run demo_lib (None, empty_dir) [Boot demo_boot] = (Some demo_app, demo_booted)"
  by (simp add: boot_def boot_capability_def stored_capability_def new_capability_def demo_boot_def demo_booted_def
      empty_dir_def load_invites_def boot_key_def load_store_def demo_app_def Let_def)


lemma demo_restart:
  "relay_run demo_lib (p, demo_dir) [Kill, Boot demo_boot] =
     (Some (demo_app \<lparr> items := [demo_item] \<rparr>),
      demo_dir \<lparr> capability_file := Some (as_bytes (demo_cap @ [CHR 0x0A])), key_file := Some (replicate 32 7) \<rparr>)"
  by (simp add: boot_def boot_capability_def stored_capability_def new_capability_def demo_boot_def demo_dir_def
      empty_dir_def load_invites_def boot_key_def load_store_def MAX_INBOX_ITEMS_def demo_app_def Let_def)
     (simp add: demo_item_def)

lemma demo_get:
  "relay_step demo_lib (Some (demo_app \<lparr> items := [demo_item] \<rparr>), d) (Request demo_env (GetInbox demo_cap (Some demo_cap)))
   = (Some (Reply STATUS_OK (JObject [(''protocol'', json_u64 1), (''items'', JArray [item_value demo_item])])),
      Some (demo_app \<lparr> items := [demo_item], rate_window := \<lparr> started_at = 0, requests = 1 \<rparr> \<rparr>),
      d \<lparr> inbox_file := Some [1] \<rparr>)"
proof -
  have "sat_sub 5 TTL_SECONDS \<le> received_at demo_item"
    by (simp add: word_le_nat_alt unat_sat_sub demo_item_def TTL_SECONDS_def)
  then show ?thesis
    by (simp add: serve_def get_inbox_def rate_gate_def demo_env_def demo_app_def inbox_refusal_def
        persist_def Let_def)
qed

theorem accepted_envelope_delivered_witness:
  "\<exists>vs. value_get (JObject [(''protocol'', json_u64 1), (''items'', JArray [item_value demo_item])]) ''items''
     = Some (JArray vs) \<and> item_value demo_item \<in> set vs"
  by (rule accepted_envelope_delivered [OF demo_lib_ok demo_post, where es = "[Kill, Boot demo_boot]"
        and env' = demo_env and c' = demo_cap and h' = "Some demo_cap" and e = demo_wire])
     (simp_all only: demo_restart demo_get, simp_all add: demo_env_def TTL_SECONDS_def)

text \<open>The headers of a piece of two bytes.\<close>

definition demo_headers :: "string \<Rightarrow> blob_headers" where
  "demo_headers offset = \<lparr> h_capability = None, h_offset = Some offset, h_length = None, h_total = Some ''2'' \<rparr>"

lemma demo_headers_facts [simp]:
  "header_usize (h_offset (demo_headers ''0'')) 0 = Some 0" "header_usize (h_offset (demo_headers ''1'')) 0 = Some 1"
  "header_usize (h_total (demo_headers s)) 0 = Some 2"
  by (simp_all add: header_usize_def demo_headers_def parse_u64_def parse_digits_def dec_value_def)

lemmas upload_defs = blob_upload_def blob_check_def fs_read_blob_def blob_write_def good_blob_io_def
  empty_dir_def MAX_BLOB_BYTES_def write_at_def blob_status_def

theorem upload_read_back_witness:
  "read_blob_range good_blob_io \<lparr> h_capability = None, h_offset = None, h_length = None, h_total = None \<rparr> ''x''
     (snd (blob_upload demo_lib good_blob_io 0 (demo_headers ''1'') ''x'' [4]
        (upload_run demo_lib ''x'' [(good_blob_io, 0, demo_headers ''0'', [3])] empty_dir)))
   = BlobReply 0 (length [3, 4 :: byte]) [3, 4]"
proof -
  let ?up = "blob_upload demo_lib good_blob_io 0 (demo_headers ''1'') ''x'' [4]
        (upload_run demo_lib ''x'' [(good_blob_io, 0, demo_headers ''0'', [3])] empty_dir)"
  obtain v d' where "?up = (Reply CREATED v, d')" by (simp add: upload_defs)
  then show ?thesis
    using upload_read_back [of empty_dir "''x''" "[3, 4]" "[(good_blob_io, 0, demo_headers ''0'', [3])]"
      "demo_headers ''1''" "[4]" demo_lib good_blob_io 0 v d' good_blob_io
      "\<lparr> h_capability = None, h_offset = None, h_length = None, h_total = None \<rparr>"]
    by (simp add: slice_of_def) (simp add: empty_dir_def good_blob_io_def)
qed

end
