(* ===== verification/Relay_Invites.thy ===== *)
theory Relay_Invites
  imports Relay_Runs Invite
begin

text \<open>
  The relay and the daemons on the same invite: the relay's own check accepts what a daemon signs, and the
  receipt the relay signs is one a daemon accepts.
\<close>

section \<open>The relay's check of an invite\<close>

lemma with_hex_hex [simp]: "with_hex (hex bs) k = k bs"
  by (simp add: with_hex_def relay_hex_decode_def hex_pairs_hex)

lemma payload_lines:
  assumes "invite_lines_ok v" "newline \<notin> set h"
  shows "split_on newline (invite_payload h v) =
      [''another-dimension/invite/v1'', inv_account_id v, inv_device_id v, h,
       u64_to_string (inv_expires_at v), inv_relay_origin v,
       case inv_inbox_url v of None \<Rightarrow> [] | Some i \<Rightarrow> i,
       case inv_conversation_id v of None \<Rightarrow> [] | Some c \<Rightarrow> c]"
  unfolding invite_payload_def using assms
  by (intro split_join) (auto simp: invite_lines_ok_def split: option.splits)

lemma relay_accepts_signed:
  assumes E: "ed_correct (relay_ed J)" and v: "inv_account_id v = root_account_id (relay_ed J) root" "invite_lines_ok v"
    and p: "payload = invite_payload (hex h) v" "utf8_valid payload" and t: "now < inv_expires_at v"
  shows "validate_invite J now (signed_invite_text (relay_ed J) root payload) (inv_relay_origin v) = Returns True"
proof -
  have k: "length (ed_public (relay_ed J) root) = 32" "ed_key_ok (relay_ed J) (ed_public (relay_ed J) root)"
    "length (ed_sign (relay_ed J) root m) = 64"
    "ed_verify (relay_ed J) (ed_public (relay_ed J) root) m (ed_sign (relay_ed J) root m)" for m
    using E by (auto simp: ed_correct_def)
  have "split_on newline payload ! 1 = ''ad1pk'' @ hex (ed_public (relay_ed J) root)"
    "split_on newline payload ! 0 = ''another-dimension/invite/v1''" "length (split_on newline payload) = 8"
    "split_on newline payload ! 3 = hex h" "split_on newline payload ! 4 = u64_to_string (inv_expires_at v)"
    "split_on newline payload ! 5 = inv_relay_origin v"
    using v by (simp_all add: p(1) payload_lines root_account_id_def account_id_from_public_def)
  then have "check_invite_lines J now (inv_relay_origin v) (as_bytes payload)
      (ed_sign (relay_ed J) root (as_bytes payload)) (split_on newline payload) = Returns True"
    unfolding check_invite_lines_def using k t
    by (simp only: strip_prefix_append with_hex_hex) simp
  then show ?thesis
    unfolding validate_invite_def signed_invite_parts using p(2) by simp
qed

section \<open>The relay's receipt\<close>

lemma receipt_parts:
  "split_on CHR ''.'' (receipt J key relay_origin entered invite t) =
     [''ADRECEIPT1'', hex (sha256 J (ed_public (relay_ed J) key)), hex (as_bytes relay_origin), code_hash J entered,
      hex (sha256 J (as_bytes invite)), u64_to_string t,
      hex (ed_sign (relay_ed J) key (as_bytes (receipt_body J key relay_origin entered invite t)))]"
proof -
  have "receipt J key relay_origin entered invite t = join_with CHR ''.''
     [''ADRECEIPT1'', hex (sha256 J (ed_public (relay_ed J) key)), hex (as_bytes relay_origin), code_hash J entered,
      hex (sha256 J (as_bytes invite)), u64_to_string t,
      hex (ed_sign (relay_ed J) key (as_bytes (receipt_body J key relay_origin entered invite t)))]"
    by (simp add: receipt_def receipt_body_def)
  then show ?thesis by (simp only:) (rule split_join, auto simp: code_hash_def)
qed

lemma receipt_accepted:
  assumes "ed_correct (relay_ed J)" "inv_relay_origin v = relay_origin" "utf8_valid relay_origin"
    "normalize_code (upper_table J) entered = normalize_code (upper_table J) typed"
    "unat t \<le> unat now + 300" "\<forall>tr. trust = Some tr \<longrightarrow> allows (sha256 J) tr (ed_public (relay_ed J) key)"
  shows "verify_relay_receipt (sha256 J) (relay_ed J) (upper_table J) typed invite
    (receipt J key relay_origin entered invite t) v (Some (ed_public (relay_ed J) key)) trust now"
proof -
  have k: "ed_key_ok (relay_ed J) (ed_public (relay_ed J) key)" "length (ed_sign (relay_ed J) key m) = 64"
    "ed_verify_strict (relay_ed J) (ed_public (relay_ed J) key) m (ed_sign (relay_ed J) key m)" for m
    using assms(1) by (auto simp: ed_correct_def)
  have ne: "ed_sign (relay_ed J) key m \<noteq> []" for m using k(2) [of m] by auto
  have o': "bytes_to_string (case hex_decode (hex (as_bytes relay_origin)) of None \<Rightarrow> [] | Some b \<Rightarrow> b) = relay_origin"
    by (cases "relay_origin = []") (simp_all, simp add: bytes_to_string_def hex_decode_def)
  have "t \<le> sat_add now 300" using assms(5) unsigned_less [of t, where 'a = nat]
    by (simp add: word_le_nat_alt unat_sat_add)
  then show ?thesis
    unfolding verify_relay_receipt_def receipt_parts
    using assms k ne o' by (simp add: Let_def code_hash_def receipt_body_def split: option.splits)
qed

section \<open>From one daemon to the other\<close>

lemma rate_gate_passed:
  "\<not> fst (rate_limited (env_rate env) (rate_window st)) \<Longrightarrow>
     rate_gate env k st d = k (st \<lparr> rate_window := snd (rate_limited (env_rate env) (rate_window st)) \<rparr>) d"
  by (cases "rate_limited (env_rate env) (rate_window st)") (simp add: rate_gate_def)

lemma create_invite_succeeds:
  assumes "\<not> fst (rate_limited (env_rate env) (rate_window st))"
    "Option.bind (parse_value J b) (\<lambda>v. get_str v ''invite'') = Some i" "length i \<le> 96 * 1024"
    "validate_invite J (env_check env) i (origin st) = Returns True" "env_random env = Some random"
    "length (unexpired env (invites st)) < MAX_INVITES" "\<And>is. invites_to J is = Some (ser is)" "env_write env"
  shows "\<exists>w st1 d1 r. create_invite J env b st d = (Reply CREATED w, st1, d1)
    \<and> get_str w ''code'' = Some (Relay.invite_code random)
    \<and> invites st1 = unexpired env (invites st) @ [r] \<and> ri_code_hash r = code_hash J (Relay.invite_code random)
    \<and> ri_invite r = i \<and> ri_expires_at r = env_now env + 600 \<and> ri_consumed_at r = None
    \<and> origin st1 = origin st \<and> receipt_key st1 = receipt_key st
    \<and> rate_window st1 = snd (rate_limited (env_rate env) (rate_window st))"
  using assms
  by (auto simp: create_invite_def rate_gate_passed add_invite_def Let_def persist_invites_def
      Option.bind_eq_Some_conv)

lemma consume_invite_succeeds:
  assumes "\<not> fst (rate_limited (env_rate env) (rate_window st))"
    "request_code J b = Some c" "List.find (open_invite J c (env_now env)) (invites st) = Some r"
    "\<And>is. invites_to J is = Some (ser is)" "env_write env"
  shows "\<exists>w st1 d1. consume_invite J env b st d = (Reply STATUS_OK w, st1, d1)
    \<and> get_str w ''invite'' = Some (ri_invite r)
    \<and> get_str w ''receipt'' = Some (receipt J (receipt_key st) (origin st) c (ri_invite r) (env_now env))"
  using assms
  by (auto simp: consume_invite_def rate_gate_passed Let_def persist_invites_def request_code_def
      Option.bind_eq_Some_conv)

lemma find_last: "\<forall>x \<in> set xs. \<not> P x \<Longrightarrow> P y \<Longrightarrow> List.find P (xs @ [y]) = Some y"
  by (induction xs) auto

lemma fresh_invite_open:
  assumes "\<forall>r \<in> set is. ri_code_hash r \<noteq> ri_code_hash x" "code_hash J c = ri_code_hash x"
    "ri_consumed_at x = None" "ri_expires_at x = t + 600" "unat t' < unat t + 600" "unat t + 600 < 2 ^ 64"
  shows "List.find (open_invite J c t') (is @ [x]) = Some x"
proof (rule find_last)
  have "unat (t + 600) = unat t + 600" using assms(6) by (subst unat_plus_if') simp
  then show "open_invite J c t' x" using assms by (simp add: open_invite_def word_less_nat_alt)
qed (use assms in \<open>auto simp: open_invite_def\<close>)

end
