(* ===== verification/Attachment.thy ===== *)
theory Attachment
  imports Encrypted_Store
begin

text \<open>
  Chunked attachment encryption (\<^verbatim>\<open>attachment.rs\<close>): encrypting a file in chunks of 64 KiB, the streaming job that
  does the same from pieces the interface sends, the descriptor that travels inside a message, and
  decrypting a downloaded blob as a whole or chunk by chunk.

  AES-256-GCM and the random nonces are arguments; a nonce is drawn per chunk.
\<close>

section \<open>Definitions\<close>

definition ATTACHMENT_VERSION :: byte where "ATTACHMENT_VERSION = 1"
definition CHUNK_SIZE :: nat where "CHUNK_SIZE = 64 * 1024"
definition MAX_ATTACHMENT_BYTES :: nat where "MAX_ATTACHMENT_BYTES = 32 * 1024 * 1024"

record AttachmentChunk =
  ac_index :: u32
  ac_nonce :: string
  ac_ciphertext :: string

record AttachmentManifest =
  am_version :: byte
  am_chunk_size :: u32
  am_original_size :: u64
  am_chunks :: "AttachmentChunk list"

record AttachmentChunkDescriptor =
  cd_index :: u32
  cd_nonce :: string
  cd_ciphertext_size :: u32

record AttachmentDescriptor =
  ad_version :: byte
  ad_blob_id :: string
  ad_key :: bytes
  ad_chunk_size :: u32
  ad_original_size :: u64
  ad_chunks :: "AttachmentChunkDescriptor list"
  ad_file_name :: "string option"
  ad_media_type :: "string option"

record EncryptedAttachment =
  ea_descriptor :: AttachmentDescriptor
  ea_blob :: bytes

record AttachmentJob =
  job_blob_id :: string
  job_key :: bytes
  job_total :: nat
  job_next_index :: u32
  job_received :: nat
  job_chunks :: "AttachmentChunkDescriptor list"
  job_blob :: bytes
  job_file_name :: "string option"
  job_media_type :: "string option"

datatype AttachmentError =
    Empty | TooLarge | InvalidKey | InvalidManifest | InvalidChunk | AuthenticationFailed
  | RandomnessUnavailable | Serialization

definition aad :: "u32 \<Rightarrow> u64 \<Rightarrow> bytes" where
  "aad index original_size =
     as_bytes ''another-dimension/attachment/v1'' @ be_bytes 4 (unat index) @ u64_be original_size"

definition attachment_hex :: "string \<Rightarrow> bytes option" where
  "attachment_hex s =
     (if s = [] \<or> odd (length s) \<or> \<not> list_all is_ascii_hexdigit s then None else decode_pairs s)"

definition valid_blob_id :: "string \<Rightarrow> bool" where
  "valid_blob_id s \<longleftrightarrow> 32 \<le> length s \<and> length s \<le> 128 \<and>
     list_all (\<lambda>b. is_ascii_alphanumeric b \<or> b = CHR ''_'' \<or> b = CHR ''-'') s"

definition sanitize_file_name :: "string option \<Rightarrow> AttachmentError + string option" where
  "sanitize_file_name v =
     (case v of
        None \<Rightarrow> Ok None
      | Some s \<Rightarrow>
          if s = [] then Ok None
          else if 255 < length s \<or> CHR ''/'' \<in> set s \<or> CHR 0x5C \<in> set s \<or> CHR 0x00 \<in> set s
          then Err InvalidManifest
          else Ok (Some s))"

definition sanitize_media_type :: "string option \<Rightarrow> AttachmentError + string option" where
  "sanitize_media_type v =
     (case v of
        None \<Rightarrow> Ok None
      | Some s \<Rightarrow>
          if s = [] then Ok None
          else if 128 < length s \<or> \<not> list_all is_ascii s \<or> CHR 0x0D \<in> set s \<or> CHR 0x0A \<in> set s
          then Err InvalidManifest
          else Ok (Some s))"

definition generate_key :: "bytes option \<Rightarrow> AttachmentError + bytes" where
  "generate_key random = ok_or random RandomnessUnavailable"

subsection \<open>The streaming job\<close>

definition start_with_metadata ::
    "bytes option \<Rightarrow> string \<Rightarrow> nat \<Rightarrow> string option \<Rightarrow> string option \<Rightarrow> AttachmentError + AttachmentJob" where
  "start_with_metadata random blob_id full file_name media_type =
     (if \<not> valid_blob_id blob_id then Err InvalidManifest
      else if full = 0 then Err Empty
      else if MAX_ATTACHMENT_BYTES < full then Err TooLarge
      else res_bind (sanitize_file_name file_name) (\<lambda>file_name.
           res_bind (sanitize_media_type media_type) (\<lambda>media_type.
           res_bind (generate_key random) (\<lambda>k.
             Ok \<lparr> job_blob_id = blob_id, job_key = k, job_total = full, job_next_index = 0,
                  job_received = 0, job_chunks = [], job_blob = [],
                  job_file_name = file_name, job_media_type = media_type \<rparr>))))"

definition start :: "bytes option \<Rightarrow> string \<Rightarrow> nat \<Rightarrow> AttachmentError + AttachmentJob" where
  "start random blob_id full = start_with_metadata random blob_id full None None"

text \<open>Drawing a nonce and encrypting one chunk.\<close>

definition seal_chunk ::
    "store_crypto \<Rightarrow> bytes \<Rightarrow> bytes option \<Rightarrow> u32 \<Rightarrow> u64 \<Rightarrow> bytes \<Rightarrow> AttachmentError + bytes \<times> bytes" where
  "seal_chunk C k random index sz plaintext =
     res_bind (ok_or random RandomnessUnavailable) (\<lambda>nonce.
     res_bind (ok_or (aes_encrypt C k nonce (aad index sz) plaintext) AuthenticationFailed) (\<lambda>ciphertext.
       Ok (nonce, ciphertext)))"

definition append_chunk ::
    "store_crypto \<Rightarrow> bytes option \<Rightarrow> u32 \<Rightarrow> bytes \<Rightarrow> AttachmentJob \<Rightarrow> (AttachmentError + unit) \<times> AttachmentJob" where
  "append_chunk C random index plaintext job =
     (if index \<noteq> job_next_index job \<or> plaintext = [] \<or> CHUNK_SIZE < length plaintext
      then (Err InvalidChunk, job)
      else
        (let offset = job_received job in
         if job_total job < offset + length plaintext
            \<or> (offset + length plaintext < job_total job \<and> length plaintext \<noteq> CHUNK_SIZE)
         then (Err InvalidChunk, job)
         else if length (job_key job) \<noteq> 32 then (Err InvalidKey, job)
         else case seal_chunk C (job_key job) random index (of_nat (job_total job)) plaintext of
           Inl e \<Rightarrow> (Err e, job)
         | Inr (nonce, ciphertext) \<Rightarrow>
             (Ok (), job \<lparr> job_blob := job_blob job @ ciphertext,
                job_chunks := job_chunks job @ [\<lparr> cd_index = index, cd_nonce = hex nonce,
                   cd_ciphertext_size = of_nat (length ciphertext) \<rparr>],
                job_received := job_received job + length plaintext,
                job_next_index := sat_add (job_next_index job) 1 \<rparr>)))"

definition finish :: "AttachmentJob \<Rightarrow> AttachmentError + EncryptedAttachment" where
  "finish job =
     (if job_received job \<noteq> job_total job \<or> job_blob job = [] then Err InvalidManifest
      else Ok \<lparr> ea_descriptor = \<lparr> ad_version = ATTACHMENT_VERSION, ad_blob_id = job_blob_id job,
                  ad_key = job_key job, ad_chunk_size = of_nat CHUNK_SIZE,
                  ad_original_size = of_nat (job_total job), ad_chunks = job_chunks job,
                  ad_file_name = job_file_name job, ad_media_type = job_media_type job \<rparr>,
                ea_blob = job_blob job \<rparr>)"

subsection \<open>Whole files\<close>

fun chunks_of :: "nat \<Rightarrow> 'a list \<Rightarrow> 'a list list" where
  "chunks_of n [] = []"
| "chunks_of n (x # xs) = take (Suc n) (x # xs) # chunks_of n (drop n xs)"

fun encrypt_chunks ::
    "store_crypto \<Rightarrow> (nat \<Rightarrow> bytes option) \<Rightarrow> bytes \<Rightarrow> u64 \<Rightarrow> nat \<Rightarrow> bytes list \<Rightarrow> AttachmentError + AttachmentChunk list" where
  "encrypt_chunks C random k sz index [] = Ok []"
| "encrypt_chunks C random k sz index (c # cs) =
     res_bind (seal_chunk C k (random index) (of_nat index) sz c) (\<lambda>(nonce, ciphertext).
     res_bind (encrypt_chunks C random k sz (Suc index) cs) (\<lambda>rest.
       Ok (\<lparr> ac_index = of_nat index, ac_nonce = hex nonce, ac_ciphertext = hex ciphertext \<rparr> # rest)))"

definition encrypt ::
    "store_crypto \<Rightarrow> (nat \<Rightarrow> bytes option) \<Rightarrow> bytes \<Rightarrow> bytes \<Rightarrow> AttachmentError + AttachmentManifest" where
  "encrypt C random plaintext k =
     (if plaintext = [] then Err Empty
      else if MAX_ATTACHMENT_BYTES < length plaintext then Err TooLarge
      else if length k \<noteq> 32 then Err InvalidKey
      else res_bind (encrypt_chunks C random k (of_nat (length plaintext)) 0 (chunks_of (CHUNK_SIZE - 1) plaintext)) (\<lambda>cs.
        Ok \<lparr> am_version = ATTACHMENT_VERSION, am_chunk_size = of_nat CHUNK_SIZE,
             am_original_size = of_nat (length plaintext), am_chunks = cs \<rparr>))"

fun decrypt_chunks ::
    "store_crypto \<Rightarrow> bytes \<Rightarrow> u64 \<Rightarrow> nat \<Rightarrow> AttachmentChunk list \<Rightarrow> AttachmentError + bytes" where
  "decrypt_chunks C k sz expected [] = Ok []"
| "decrypt_chunks C k sz expected (c # cs) =
     (if ac_index c \<noteq> of_nat expected then Err InvalidChunk
      else res_bind (ok_or (attachment_hex (ac_nonce c)) InvalidChunk) (\<lambda>nonce.
           res_bind (ok_or (attachment_hex (ac_ciphertext c)) InvalidChunk) (\<lambda>ciphertext.
             if length nonce \<noteq> 12 \<or> length ciphertext < 16 \<or> CHUNK_SIZE + 16 < length ciphertext
             then Err InvalidChunk
             else res_bind (ok_or (aes_decrypt C k nonce (aad (ac_index c) sz) ciphertext) AuthenticationFailed) (\<lambda>p.
               if CHUNK_SIZE < length p \<or> (cs \<noteq> [] \<and> length p \<noteq> CHUNK_SIZE) then Err InvalidChunk
               else res_bind (decrypt_chunks C k sz (Suc expected) cs) (\<lambda>rest. Ok (p @ rest))))))"

definition decrypt ::
    "store_crypto \<Rightarrow> AttachmentManifest \<Rightarrow> bytes \<Rightarrow> AttachmentError + bytes" where
  "decrypt C m k =
     (if am_version m \<noteq> ATTACHMENT_VERSION \<or> unat (am_chunk_size m) \<noteq> CHUNK_SIZE \<or> am_original_size m = 0
         \<or> MAX_ATTACHMENT_BYTES < unat (am_original_size m) \<or> am_chunks m = []
      then Err InvalidManifest
      else if div_ceil MAX_ATTACHMENT_BYTES CHUNK_SIZE < length (am_chunks m) then Err TooLarge
      else if length k \<noteq> 32 then Err InvalidKey
      else res_bind (decrypt_chunks C k (am_original_size m) 0 (am_chunks m)) (\<lambda>p.
        if length p \<noteq> unat (am_original_size m) then Err InvalidManifest else Ok p))"

subsection \<open>Blobs and descriptors\<close>

fun blob_chunks :: "AttachmentChunk list \<Rightarrow> AttachmentError + AttachmentChunkDescriptor list \<times> bytes" where
  "blob_chunks [] = Ok ([], [])"
| "blob_chunks (c # cs) =
     res_bind (ok_or (attachment_hex (ac_ciphertext c)) InvalidChunk) (\<lambda>ciphertext.
     res_bind (blob_chunks cs) (\<lambda>(ds, blob).
       Ok (\<lparr> cd_index = ac_index c, cd_nonce = ac_nonce c, cd_ciphertext_size = of_nat (length ciphertext) \<rparr> # ds,
           ciphertext @ blob)))"

definition encrypt_for_blob ::
    "store_crypto \<Rightarrow> (nat \<Rightarrow> bytes option) \<Rightarrow> bytes \<Rightarrow> bytes \<Rightarrow> string \<Rightarrow> AttachmentError + EncryptedAttachment" where
  "encrypt_for_blob C random plaintext k blob_id =
     (if \<not> valid_blob_id blob_id then Err InvalidManifest
      else res_bind (encrypt C random plaintext k) (\<lambda>m.
           res_bind (blob_chunks (am_chunks m)) (\<lambda>(ds, blob).
             Ok \<lparr> ea_descriptor = \<lparr> ad_version = am_version m, ad_blob_id = blob_id, ad_key = k,
                    ad_chunk_size = am_chunk_size m, ad_original_size = am_original_size m, ad_chunks = ds,
                    ad_file_name = None, ad_media_type = None \<rparr>,
                  ea_blob = blob \<rparr>)))"

definition chunk_shape_ok :: "nat \<Rightarrow> AttachmentChunkDescriptor \<Rightarrow> bool" where
  "chunk_shape_ok expected c \<longleftrightarrow> cd_index c = of_nat expected \<and> 16 \<le> unat (cd_ciphertext_size c)
     \<and> unat (cd_ciphertext_size c) \<le> CHUNK_SIZE + 16"

fun validate_chunks ::
    "nat \<Rightarrow> u64 \<Rightarrow> AttachmentChunkDescriptor list \<Rightarrow> AttachmentError + u64" where
  "validate_chunks expected plaintext_size [] = Ok plaintext_size"
| "validate_chunks expected plaintext_size (c # cs) =
     (if \<not> chunk_shape_ok expected c
         \<or> (case attachment_hex (cd_nonce c) of None \<Rightarrow> True | Some n \<Rightarrow> length n \<noteq> 12)
      then Err InvalidChunk
      else res_bind (ok_or (checked_add plaintext_size (of_nat (unat (cd_ciphertext_size c) - 16))) TooLarge) (\<lambda>n.
        if cs \<noteq> [] \<and> unat (cd_ciphertext_size c) \<noteq> CHUNK_SIZE + 16 then Err InvalidChunk
        else validate_chunks (Suc expected) n cs))"

definition validate_descriptor :: "AttachmentDescriptor \<Rightarrow> AttachmentError + unit" where
  "validate_descriptor d =
     (if \<not> valid_blob_id (ad_blob_id d) \<or> ad_version d \<noteq> ATTACHMENT_VERSION
         \<or> unat (ad_chunk_size d) \<noteq> CHUNK_SIZE \<or> ad_original_size d = 0
         \<or> MAX_ATTACHMENT_BYTES < unat (ad_original_size d) \<or> ad_chunks d = []
         \<or> div_ceil MAX_ATTACHMENT_BYTES CHUNK_SIZE < length (ad_chunks d)
      then Err InvalidManifest
      else res_bind (sanitize_file_name (ad_file_name d)) (\<lambda>_.
           res_bind (sanitize_media_type (ad_media_type d)) (\<lambda>_.
           res_bind (validate_chunks 0 0 (ad_chunks d)) (\<lambda>n.
             if n \<noteq> ad_original_size d then Err InvalidManifest else Ok ()))))"

text \<open>Cutting a blob into its chunks; the second argument is what is left of it.\<close>

fun split_blob ::
    "nat \<Rightarrow> bytes \<Rightarrow> AttachmentChunkDescriptor list \<Rightarrow> AttachmentError + AttachmentChunk list \<times> bytes" where
  "split_blob expected blob [] = Ok ([], blob)"
| "split_blob expected blob (c # cs) =
     (if \<not> chunk_shape_ok expected c then Err InvalidChunk
      else if length blob < unat (cd_ciphertext_size c) then Err InvalidChunk
      else res_bind (split_blob (Suc expected) (drop (unat (cd_ciphertext_size c)) blob) cs) (\<lambda>(rest, left).
        Ok (\<lparr> ac_index = cd_index c, ac_nonce = cd_nonce c,
              ac_ciphertext = hex (take (unat (cd_ciphertext_size c)) blob) \<rparr> # rest, left)))"

definition decrypt_blob ::
    "store_crypto \<Rightarrow> AttachmentDescriptor \<Rightarrow> bytes \<Rightarrow> AttachmentError + bytes" where
  "decrypt_blob C d blob =
     res_bind (validate_descriptor d) (\<lambda>_.
     res_bind (split_blob 0 blob (ad_chunks d)) (\<lambda>(cs, left).
       if left \<noteq> [] then Err InvalidManifest
       else decrypt C \<lparr> am_version = ad_version d, am_chunk_size = ad_chunk_size d,
                        am_original_size = ad_original_size d, am_chunks = cs \<rparr> (ad_key d)))"

definition decrypt_blob_chunk ::
    "store_crypto \<Rightarrow> AttachmentDescriptor \<Rightarrow> u32 \<Rightarrow> bytes \<Rightarrow> AttachmentError + bytes" where
  "decrypt_blob_chunk C d index ciphertext =
     res_bind (validate_descriptor d) (\<lambda>_.
       if length (ad_chunks d) \<le> unat index then Err InvalidChunk
       else
         (let c = ad_chunks d ! unat index in
          if cd_index c \<noteq> index \<or> unat (cd_ciphertext_size c) \<noteq> length ciphertext
             \<or> length ciphertext < 16 \<or> CHUNK_SIZE + 16 < length ciphertext
          then Err InvalidChunk
          else res_bind (ok_or (attachment_hex (cd_nonce c)) InvalidChunk) (\<lambda>nonce.
            if length nonce \<noteq> 12 then Err InvalidChunk
            else if length (ad_key d) \<noteq> 32 then Err InvalidKey
            else ok_or (aes_decrypt C (ad_key d) nonce (aad index (ad_original_size d)) ciphertext) AuthenticationFailed)))"

subsection \<open>Serialized manifests\<close>

definition serialize :: "(AttachmentManifest \<Rightarrow> string option) \<Rightarrow> AttachmentManifest \<Rightarrow> AttachmentError + string" where
  "serialize to_json m = ok_or (to_json m) Serialization"

definition deserialize :: "(string \<Rightarrow> AttachmentManifest option) \<Rightarrow> string \<Rightarrow> AttachmentError + AttachmentManifest" where
  "deserialize of_json s = ok_or (of_json s) InvalidManifest"

section \<open>Chunks and their ciphertexts\<close>

text \<open>The descriptors and the blob are those of the pieces, encrypted in order from an index on.\<close>

fun sealed_as ::
    "store_crypto \<Rightarrow> bytes \<Rightarrow> u64 \<Rightarrow> nat \<Rightarrow> bytes list \<Rightarrow> AttachmentChunkDescriptor list \<Rightarrow> bytes \<Rightarrow> bool" where
  "sealed_as C k sz index [] ds blob \<longleftrightarrow> ds = [] \<and> blob = []"
| "sealed_as C k sz index (p # ps) ds blob \<longleftrightarrow>
     (\<exists>nonce ct ds' rest. length nonce = 12 \<and> aes_encrypt C k nonce (aad (of_nat index) sz) p = Some ct
        \<and> ds = \<lparr> cd_index = of_nat index, cd_nonce = hex nonce, cd_ciphertext_size = of_nat (length ct) \<rparr> # ds'
        \<and> blob = ct @ rest \<and> sealed_as C k sz (Suc index) ps ds' rest)"

text \<open>Every piece but the last is a full chunk.\<close>

fun full_chunks :: "bytes list \<Rightarrow> bool" where
  "full_chunks [] \<longleftrightarrow> True"
| "full_chunks [p] \<longleftrightarrow> p \<noteq> [] \<and> length p \<le> CHUNK_SIZE"
| "full_chunks (p # ps) \<longleftrightarrow> length p = CHUNK_SIZE \<and> full_chunks ps"

lemma full_chunks_Cons: "full_chunks (p # ps) \<longleftrightarrow>
    p \<noteq> [] \<and> length p \<le> CHUNK_SIZE \<and> (ps \<noteq> [] \<longrightarrow> length p = CHUNK_SIZE) \<and> full_chunks ps"
  by (cases ps) (auto simp: CHUNK_SIZE_def)

lemma full_chunks_snoc: "full_chunks (ps @ [p]) \<longleftrightarrow>
    (\<forall>q \<in> set ps. length q = CHUNK_SIZE) \<and> p \<noteq> [] \<and> length p \<le> CHUNK_SIZE"
  by (induction ps) (auto simp: full_chunks_Cons CHUNK_SIZE_def)

lemma full_chunks_count: "full_chunks ps \<Longrightarrow> (length ps - 1) * CHUNK_SIZE < length (concat ps) \<or> ps = []"
  by (induction ps rule: full_chunks.induct) (auto simp: CHUNK_SIZE_def)

lemma sealed_as_snoc:
  assumes "sealed_as C k sz index ps ds blob" "length nonce = 12"
    "aes_encrypt C k nonce (aad (of_nat (index + length ps)) sz) p = Some ct"
  shows "sealed_as C k sz index (ps @ [p])
    (ds @ [\<lparr> cd_index = of_nat (index + length ps), cd_nonce = hex nonce, cd_ciphertext_size = of_nat (length ct) \<rparr>])
    (blob @ ct)"
  using assms
proof (induction ps arbitrary: index ds blob)
  case (Cons q ps)
  have eq: "index + length (q # ps) = Suc index + length ps" by simp
  obtain nonce' ct' ds' rest where h: "length nonce' = 12" "aes_encrypt C k nonce' (aad (of_nat index) sz) q = Some ct'"
    "ds = \<lparr> cd_index = of_nat index, cd_nonce = hex nonce', cd_ciphertext_size = of_nat (length ct') \<rparr> # ds'"
    "blob = ct' @ rest" "sealed_as C k sz (Suc index) ps ds' rest" using Cons.prems(1) by auto
  have ih: "sealed_as C k sz (Suc index) (ps @ [p])
    (ds' @ [\<lparr> cd_index = of_nat (Suc index + length ps), cd_nonce = hex nonce, cd_ciphertext_size = of_nat (length ct) \<rparr>])
    (rest @ ct)"
    by (rule Cons.IH [OF h(5) assms(2) Cons.prems(3) [unfolded eq]])
  show ?case
    unfolding eq append_Cons sealed_as.simps(2)
    by (intro exI conjI) (rule h(1), rule h(2), simp add: h(3), simp add: h(4), rule ih [simplified])
qed auto

lemma attachment_hex_hex [simp]: "bs \<noteq> [] \<Longrightarrow> attachment_hex (hex bs) = Some bs"
proof -
  assume "bs \<noteq> []"
  then have "hex bs \<noteq> []" by (cases bs) simp_all
  then show ?thesis by (simp add: attachment_hex_def)
qed

lemma chunk_bounds:
  assumes "aead_correct C" "aes_encrypt C k nonce a p = Some ct" "length p \<le> CHUNK_SIZE"
  obtains n :: u32 where "of_nat (length ct) = n" "unat n = length p + 16" "length ct = length p + 16"
    "aes_decrypt C k nonce a ct = Some p" "ct \<noteq> []"
proof
  show ct: "length ct = length p + 16" "aes_decrypt C k nonce a ct = Some p"
    using assms by (auto simp: aead_correct_def)
  have "unat (of_nat n :: u32) = n" if "n < 2 ^ 32" for n
    using that by (simp add: unsigned_of_nat take_bit_nat_eq_self)
  moreover have "length ct < 2 ^ 32" using ct(1) assms(3) by (simp add: CHUNK_SIZE_def)
  ultimately show "unat (of_nat (length ct) :: u32) = length p + 16"
    unfolding ct(1) [symmetric] by blast
  show "ct \<noteq> []" using ct(1) by auto
qed (rule refl)

lemma sealed_as_Cons:
  assumes "aead_correct C" "sealed_as C k sz index (p # ps) ds blob" "full_chunks (p # ps)"
  obtains nonce n ct ds' rest where "length nonce = 12" "nonce \<noteq> []" "unat n = length p + 16" "length ct = length p + 16"
    "aes_decrypt C k nonce (aad (of_nat index) sz) ct = Some p" "ct \<noteq> []"
    "ds = \<lparr> cd_index = of_nat index, cd_nonce = hex nonce, cd_ciphertext_size = n \<rparr> # ds'"
    "blob = ct @ rest" "sealed_as C k sz (Suc index) ps ds' rest" "ds' = [] \<longleftrightarrow> ps = []"
    "length p \<le> CHUNK_SIZE" "ps \<noteq> [] \<Longrightarrow> length p = CHUNK_SIZE" "full_chunks ps"
proof -
  obtain nonce ct ds' rest where h: "length nonce = 12" "aes_encrypt C k nonce (aad (of_nat index) sz) p = Some ct"
    "ds = \<lparr> cd_index = of_nat index, cd_nonce = hex nonce, cd_ciphertext_size = of_nat (length ct) \<rparr> # ds'"
    "blob = ct @ rest" "sealed_as C k sz (Suc index) ps ds' rest" using assms(2) by auto
  have p: "length p \<le> CHUNK_SIZE" "ps \<noteq> [] \<Longrightarrow> length p = CHUNK_SIZE" "full_chunks ps"
    using assms(3) by (auto simp: full_chunks_Cons)
  obtain n :: u32 where n: "of_nat (length ct) = n" "unat n = length p + 16" "length ct = length p + 16"
    "aes_decrypt C k nonce (aad (of_nat index) sz) ct = Some p" "ct \<noteq> []"
    by (rule chunk_bounds [OF assms(1) h(2) p(1)])
  have "nonce \<noteq> []" using h(1) by auto
  moreover have "ds' = [] \<longleftrightarrow> ps = []" using h(5) by (cases ps) auto
  ultimately show thesis
    by (intro that [OF h(1) _ n(2-5) h(3) [unfolded n(1)] h(4,5) _ p]) assumption+
qed

lemma validate_sealed:
  assumes "aead_correct C" "sealed_as C k sz index ps ds blob" "full_chunks ps"
    "unat n + length (concat ps) < 2 ^ 64"
  shows "validate_chunks index n ds = Ok (n + of_nat (length (concat ps)))"
  using assms(2-4)
proof (induction ps arbitrary: index n ds blob)
  case (Cons p ps)
  show ?case
  proof (rule sealed_as_Cons [OF assms(1) Cons.prems(1,2)])
    fix nonce m ct ds' rest
    assume h: "length nonce = 12" "nonce \<noteq> []" "unat m = length p + 16"
      "ds = \<lparr> cd_index = of_nat index, cd_nonce = hex nonce, cd_ciphertext_size = m \<rparr> # ds'"
      "sealed_as C k sz (Suc index) ps ds' rest" "ds' = [] \<longleftrightarrow> ps = []"
      "length p \<le> CHUNK_SIZE" "ps \<noteq> [] \<Longrightarrow> length p = CHUNK_SIZE" "full_chunks ps"
    have add: "checked_add n (of_nat (length p)) = Some (n + of_nat (length p))"
      "unat (n + of_nat (length p)) = unat n + length p"
      using Cons.prems(3) by (simp_all add: checked_add_def unat_of_nat unat_word_ariths)
    have "validate_chunks (Suc index) (n + of_nat (length p)) ds'
        = Ok (n + of_nat (length p) + of_nat (length (concat ps)))"
      using Cons.IH [OF h(5,9)] Cons.prems(3) add(2) by simp
    moreover have "chunk_shape_ok index \<lparr> cd_index = of_nat index, cd_nonce = hex nonce, cd_ciphertext_size = m \<rparr>"
      using h(3,7) by (simp add: chunk_shape_ok_def)
    ultimately show ?thesis
      using h(1-4,6) h(8) add(1) by (cases "ps = []") (simp_all add: add.assoc)
  qed
qed simp

lemma decrypt_sealed:
  assumes "aead_correct C" "sealed_as C k sz index ps ds blob" "full_chunks ps"
  shows "\<exists>cs. split_blob index (blob @ left) ds = Ok (cs, left) \<and> decrypt_chunks C k sz index cs = Ok (concat ps)
    \<and> length cs = length ps \<and> length ds = length ps"
  using assms(2,3)
proof (induction ps arbitrary: index ds blob)
  case (Cons p ps)
  show ?case
  proof (rule sealed_as_Cons [OF assms(1) Cons.prems])
    fix nonce m ct ds' rest
    assume h: "length nonce = 12" "nonce \<noteq> []" "unat m = length p + 16" "length ct = length p + 16"
      "aes_decrypt C k nonce (aad (of_nat index) sz) ct = Some p" "ct \<noteq> []"
      "ds = \<lparr> cd_index = of_nat index, cd_nonce = hex nonce, cd_ciphertext_size = m \<rparr> # ds'" "blob = ct @ rest"
      "sealed_as C k sz (Suc index) ps ds' rest" "length p \<le> CHUNK_SIZE"
      "ps \<noteq> [] \<Longrightarrow> length p = CHUNK_SIZE" "full_chunks ps"
    obtain cs where cs: "split_blob (Suc index) (rest @ left) ds' = Ok (cs, left)"
      "decrypt_chunks C k sz (Suc index) cs = Ok (concat ps)" "length cs = length ps" "length ds' = length ps"
      using Cons.IH [OF h(9,12)] by blast
    let ?c = "\<lparr> ac_index = of_nat index, ac_nonce = hex nonce, ac_ciphertext = hex ct \<rparr>"
    have shape: "chunk_shape_ok index \<lparr> cd_index = of_nat index, cd_nonce = hex nonce, cd_ciphertext_size = m \<rparr>"
      using h(3,10) by (simp add: chunk_shape_ok_def)
    have "take (length p + 16) ct = ct" "drop (length p + 16) ct = []" using h(4) by simp_all
    then have "split_blob index (blob @ left) ds = Ok (?c # cs, left)"
      unfolding h(7,8) using cs(1) shape h(3,4) by simp
    moreover have "cs = [] \<longleftrightarrow> ps = []" using cs(3) by auto
    then have "decrypt_chunks C k sz index (?c # cs) = Ok (concat (p # ps))"
      using h(1,2,4,5,6,10) h(11) cs(2) by (cases "ps = []") simp_all
    ultimately show ?thesis using cs(3,4) h(7) by auto
  qed
qed auto

text \<open>A descriptor and blob that belong to the pieces decrypt to them.\<close>

lemma decrypt_blob_sealed:
  assumes C: "aead_correct C" and s: "sealed_as C (ad_key d) (ad_original_size d) 0 ps (ad_chunks d) blob"
    and f: "full_chunks ps" "ps \<noteq> []" "ad_original_size d = of_nat (length (concat ps))"
      "length (concat ps) \<le> MAX_ATTACHMENT_BYTES"
    and d: "valid_blob_id (ad_blob_id d)" "ad_version d = ATTACHMENT_VERSION" "ad_chunk_size d = of_nat CHUNK_SIZE"
      "length (ad_key d) = 32" "is_ok (sanitize_file_name (ad_file_name d))" "is_ok (sanitize_media_type (ad_media_type d))"
  shows "decrypt_blob C d blob = Ok (concat ps)"
proof -
  obtain p ps' where ps: "ps = p # ps'" "p \<noteq> []" using f(1,2) by (cases ps) (auto simp: full_chunks_Cons)
  have n: "unat (ad_original_size d) = length (concat ps)"
    using f(3,4) by (simp add: unsigned_of_nat take_bit_nat_eq_self MAX_ATTACHMENT_BYTES_def)
  then have n0: "ad_original_size d \<noteq> 0" using ps by auto
  have count: "length ps \<le> div_ceil MAX_ATTACHMENT_BYTES CHUNK_SIZE"
    using full_chunks_count [OF f(1)] f(2,4) by (auto simp: div_ceil_def MAX_ATTACHMENT_BYTES_def CHUNK_SIZE_def)
  have v: "validate_chunks 0 0 (ad_chunks d) = Ok (ad_original_size d)"
    using validate_sealed [OF C s f(1), of 0] f(3,4) by (simp add: MAX_ATTACHMENT_BYTES_def)
  obtain cs where cs: "split_blob 0 blob (ad_chunks d) = Ok (cs, [])"
    "decrypt_chunks C (ad_key d) (ad_original_size d) 0 cs = Ok (concat ps)" "length cs = length ps"
    "length (ad_chunks d) = length ps"
    using decrypt_sealed [OF C s f(1), of "[]"] by auto
  have c: "unat (of_nat CHUNK_SIZE :: u32) = CHUNK_SIZE" by (simp add: CHUNK_SIZE_def)
  have ne: "ad_chunks d \<noteq> []" "cs \<noteq> []" using cs(3,4) f(2) by auto
  have "validate_descriptor d = Ok ()"
    using d c n n0 f(4) count v cs(4) ne by (auto simp: validate_descriptor_def is_ok_iff)
  moreover have "decrypt C \<lparr> am_version = ad_version d, am_chunk_size = ad_chunk_size d,
      am_original_size = ad_original_size d, am_chunks = cs \<rparr> (ad_key d) = Ok (concat ps)"
    using d c n n0 f(4) count cs ne by (simp add: decrypt_def)
  ultimately show ?thesis using cs(1) by (simp add: decrypt_blob_def)
qed

section \<open>The streaming job\<close>

text \<open>A sequence of attempts to append, each with its nonce, index and piece: the pieces that were taken, and
  the job after them.\<close>

fun feed ::
    "store_crypto \<Rightarrow> AttachmentJob \<Rightarrow> (bytes option \<times> u32 \<times> bytes) list \<Rightarrow> bytes list \<times> AttachmentJob" where
  "feed C job [] = ([], job)"
| "feed C job ((random, index, p) # as) =
     (let (r, job1) = append_chunk C random index p job;
          (ps, job2) = feed C job1 as
      in (if is_ok r then p # ps else ps, job2))"

definition job_inv :: "store_crypto \<Rightarrow> AttachmentJob \<Rightarrow> bytes list \<Rightarrow> bool" where
  "job_inv C job ps \<longleftrightarrow>
     sealed_as C (job_key job) (of_nat (job_total job)) 0 ps (job_chunks job) (job_blob job) \<and>
     job_received job = length (concat ps) \<and> length (concat ps) \<le> job_total job \<and>
     job_total job \<le> MAX_ATTACHMENT_BYTES \<and> job_next_index job = of_nat (length ps) \<and> full_chunks ps \<and>
     (length (concat ps) < job_total job \<longrightarrow> (\<forall>q \<in> set ps. length q = CHUNK_SIZE))"

definition job_meta :: "AttachmentJob \<Rightarrow> string \<times> bytes \<times> nat \<times> string option \<times> string option" where
  "job_meta job = (job_blob_id job, job_key job, job_total job, job_file_name job, job_media_type job)"

lemma append_chunk_Err: "append_chunk C random index p job = (Err e, job') \<Longrightarrow> job' = job"
  by (auto simp: append_chunk_def Let_def split: if_splits sum.splits)

lemma append_chunk_Ok:
  assumes "append_chunk C random index p job = (Ok (), job')"
  obtains nonce ct where "random = Some nonce" "index = job_next_index job" "p \<noteq> []" "length p \<le> CHUNK_SIZE"
    "job_received job + length p \<le> job_total job"
    "job_received job + length p < job_total job \<longrightarrow> length p = CHUNK_SIZE"
    "aes_encrypt C (job_key job) nonce (aad index (of_nat (job_total job))) p = Some ct"
    "job' = job \<lparr> job_blob := job_blob job @ ct,
        job_chunks := job_chunks job @ [\<lparr> cd_index = index, cd_nonce = hex nonce, cd_ciphertext_size = of_nat (length ct) \<rparr>],
        job_received := job_received job + length p, job_next_index := sat_add (job_next_index job) 1 \<rparr>"
proof -
  show thesis
    using assms that
    by (cases random; cases "aes_encrypt C (job_key job) (the random) (aad index (of_nat (job_total job))) p")
       (auto simp: append_chunk_def seal_chunk_def Let_def not_less split: if_splits)
qed

lemma concat_full: "\<forall>q \<in> set ps. length q = CHUNK_SIZE \<Longrightarrow> length (concat ps) = length ps * CHUNK_SIZE"
  by (induction ps) auto

lemma append_chunk_inv:
  assumes "append_chunk C random index p job = (Ok (), job')" "job_inv C job ps"
    "\<forall>n. random = Some n \<longrightarrow> length n = 12"
  shows "job_inv C job' (ps @ [p]) \<and> job_meta job' = job_meta job"
proof -
  from assms(1) obtain nonce ct where h: "random = Some nonce" "index = job_next_index job" "p \<noteq> []" "length p \<le> CHUNK_SIZE"
    "job_received job + length p \<le> job_total job"
    "job_received job + length p < job_total job \<longrightarrow> length p = CHUNK_SIZE"
    "aes_encrypt C (job_key job) nonce (aad index (of_nat (job_total job))) p = Some ct"
    "job' = job \<lparr> job_blob := job_blob job @ ct,
        job_chunks := job_chunks job @ [\<lparr> cd_index = index, cd_nonce = hex nonce, cd_ciphertext_size = of_nat (length ct) \<rparr>],
        job_received := job_received job + length p, job_next_index := sat_add (job_next_index job) 1 \<rparr>"
    by (rule append_chunk_Ok)
  have i: "job_received job = length (concat ps)" "job_total job \<le> MAX_ATTACHMENT_BYTES" "index = of_nat (0 + length ps)"
    and s: "sealed_as C (job_key job) (of_nat (job_total job)) 0 ps (job_chunks job) (job_blob job)"
    using assms(2) h(2) by (simp_all add: job_inv_def)
  have "length (concat ps) < job_total job" using h(3,5) i(1) by (cases p) auto
  then have full: "\<forall>q \<in> set ps. length q = CHUNK_SIZE" using assms(2) by (simp add: job_inv_def)
  then have "length ps * CHUNK_SIZE < 32 * 1024 * 1024"
    using concat_full [OF full] \<open>length (concat ps) < job_total job\<close> i(2)
    by (simp only: MAX_ATTACHMENT_BYTES_def)
  then have "length ps < 2 ^ 16" by (simp add: CHUNK_SIZE_def)
  then have next_index: "sat_add (of_nat (length ps) :: u32) 1 = of_nat (Suc (length ps))"
    by (simp add: sat_add_def unsigned_of_nat take_bit_nat_eq_self)
  have "sealed_as C (job_key job) (of_nat (job_total job)) 0 (ps @ [p]) (job_chunks job') (job_blob job')"
    unfolding h(8) using sealed_as_snoc [OF s _ h(7) [unfolded i(3)]] assms(3) h(1) i(3) by simp
  moreover have "full_chunks (ps @ [p])" using full h(3,4) by (simp add: full_chunks_snoc)
  ultimately show ?thesis
    using h i full next_index by (auto simp: job_inv_def job_meta_def)
qed

lemma feed_inv:
  assumes "job_inv C job ps" "feed C job as = (qs, job')" "\<forall>(random, i, p) \<in> set as. \<forall>n. random = Some n \<longrightarrow> length n = 12"
  shows "job_inv C job' (ps @ qs) \<and> job_meta job' = job_meta job"
  using assms
proof (induction as arbitrary: job ps qs)
  case (Cons a as)
  obtain random i p where a: "a = (random, i, p)" by (cases a)
  obtain r job1 where r: "append_chunk C random i p job = (r, job1)" by (cases "append_chunk C random i p job")
  obtain qs' where qs': "feed C job1 as = (qs', job')" "qs = (if is_ok r then p # qs' else qs')"
    using Cons.prems(2) a r by (auto split: prod.splits)
  have n: "\<forall>n. random = Some n \<longrightarrow> length n = 12"
    "\<forall>(random, i, p) \<in> set as. \<forall>n. random = Some n \<longrightarrow> length n = 12"
    using Cons.prems(3) a by auto
  show ?case
  proof (cases r)
    case (Inl e)
    then show ?thesis using append_chunk_Err r Cons.IH [OF Cons.prems(1) _ n(2)] qs' by fastforce
  next
    case (Inr u)
    then have "job_inv C job1 (ps @ [p]) \<and> job_meta job1 = job_meta job"
      using append_chunk_inv [OF _ Cons.prems(1) n(1)] r by simp
    then show ?thesis using Cons.IH [of job1 "ps @ [p]", OF _ qs'(1) n(2)] qs'(2) Inr by simp
  qed
qed simp

lemma started:
  assumes "start_with_metadata random blob_id full file_name media_type = Ok job"
  shows "job_inv C job []" "valid_blob_id (job_blob_id job)" "is_ok (sanitize_file_name (job_file_name job))"
    "is_ok (sanitize_media_type (job_media_type job))" "random = Some (job_key job)" "0 < job_total job"
  using assms
  by (auto simp: start_with_metadata_def generate_key_def job_inv_def sanitize_file_name_def sanitize_media_type_def
      split: if_splits option.splits)

text \<open>C40. An attachment that was streamed in is the one that is read back.  For any job and any attempts to append,
  among them refused ones, when the job finishes, decrypting its blob with its descriptor gives the pieces
  that were taken, in order.\<close>
theorem attachment_round_trip:
  assumes "aead_correct C" "start_with_metadata random blob_id full file_name media_type = Ok job"
    "\<forall>k. random = Some k \<longrightarrow> length k = 32"
    "\<forall>(r, i, p) \<in> set as. \<forall>n. r = Some n \<longrightarrow> length n = 12"
    "feed C job as = (ps, job')" "finish job' = Ok att"
  shows "decrypt_blob C (ea_descriptor att) (ea_blob att) = Ok (concat ps)"
proof -
  have inv: "job_inv C job' ps" and meta: "job_meta job' = job_meta job"
    using feed_inv [OF started(1) [OF assms(2)] assms(5,4)] by simp_all
  have att: "job_received job' = job_total job'"
    "att = \<lparr> ea_descriptor = \<lparr> ad_version = ATTACHMENT_VERSION, ad_blob_id = job_blob_id job',
        ad_key = job_key job', ad_chunk_size = of_nat CHUNK_SIZE, ad_original_size = of_nat (job_total job'),
        ad_chunks = job_chunks job', ad_file_name = job_file_name job', ad_media_type = job_media_type job' \<rparr>,
      ea_blob = job_blob job' \<rparr>"
    using assms(6) by (auto simp: finish_def split: if_splits)
  have s: "sealed_as C (job_key job') (of_nat (job_total job')) 0 ps (job_chunks job') (job_blob job')"
    "full_chunks ps" "job_received job' = length (concat ps)" "job_total job' \<le> MAX_ATTACHMENT_BYTES"
    using inv unfolding job_inv_def by blast+
  have total: "length (concat ps) = job_total job'" using s(3) att(1) by (rule subst)
  moreover have "0 < job_total job'" using started(6) [OF assms(2)] meta by (simp add: job_meta_def)
  ultimately have ne: "ps \<noteq> []" by auto
  have "length (job_key job) = 32" using assms(3) started(5) [OF assms(2)] by simp
  then have same: "valid_blob_id (job_blob_id job')" "is_ok (sanitize_file_name (job_file_name job'))"
    "is_ok (sanitize_media_type (job_media_type job'))" "length (job_key job') = 32"
    using meta started(2-4) [OF assms(2)] by (simp_all add: job_meta_def)
  show ?thesis
    unfolding att(2) by (rule decrypt_blob_sealed [OF assms(1)]) (simp_all only: EncryptedAttachment.simps
        AttachmentDescriptor.simps s ne total same refl not_False_eq_True)
qed

section \<open>Reading chunk by chunk\<close>

definition blob_slice :: "AttachmentDescriptor \<Rightarrow> bytes \<Rightarrow> nat \<Rightarrow> bytes" where
  "blob_slice d blob i = take (unat (cd_ciphertext_size (ad_chunks d ! i))) (drop (i * (CHUNK_SIZE + 16)) blob)"

lemma split_decrypt_nth:
  assumes "validate_chunks e n ds = Ok m" "split_blob e blob ds = Ok (cs, left)" "decrypt_chunks C k sz e cs = Ok p"
    "i < length ds"
  shows "\<exists>nonce. cd_index (ds ! i) = of_nat (e + i) \<and> attachment_hex (cd_nonce (ds ! i)) = Some nonce \<and> length nonce = 12
    \<and> chunk_shape_ok (e + i) (ds ! i)
    \<and> unat (cd_ciphertext_size (ds ! i)) \<le> length (drop (i * (CHUNK_SIZE + 16)) blob)
    \<and> aes_decrypt C k nonce (aad (of_nat (e + i)) sz)
        (take (unat (cd_ciphertext_size (ds ! i))) (drop (i * (CHUNK_SIZE + 16)) blob))
      = Some (take CHUNK_SIZE (drop (i * CHUNK_SIZE) p))"
  using assms
proof (induction ds arbitrary: e n blob cs p i)
  case (Cons d ds)
  let ?n = "unat (cd_ciphertext_size d)"
  obtain cs' where split: "split_blob (Suc e) (drop ?n blob) ds = Ok (cs', left)"
    "cs = \<lparr> ac_index = cd_index d, ac_nonce = cd_nonce d, ac_ciphertext = hex (take ?n blob) \<rparr> # cs'"
    "chunk_shape_ok e d" "?n \<le> length blob"
    using Cons.prems(2) by (auto split: if_splits simp: not_less)
  have nz: "take ?n blob \<noteq> []" using split(3,4) by (auto simp: chunk_shape_ok_def)
  obtain nonce p0 rest where dec: "attachment_hex (cd_nonce d) = Some nonce" "length nonce = 12"
    "aes_decrypt C k nonce (aad (of_nat e) sz) (take ?n blob) = Some p0" "length p0 \<le> CHUNK_SIZE"
    "cs' \<noteq> [] \<longrightarrow> length p0 = CHUNK_SIZE" "decrypt_chunks C k sz (Suc e) cs' = Ok rest" "p = p0 @ rest"
    using Cons.prems(3) nz split(3) unfolding split(2)
    by (auto simp: chunk_shape_ok_def split: if_splits)
  have cs': "cs' = [] \<longleftrightarrow> ds = []" using split(1) by (cases ds) (auto split: if_splits)
  obtain n' where v: "validate_chunks (Suc e) n' ds = Ok m" "ds \<noteq> [] \<longrightarrow> ?n = CHUNK_SIZE + 16"
    using Cons.prems(1) by (auto split: if_splits)
  show ?case
  proof (cases i)
    case 0
    have "take CHUNK_SIZE p = p0" using dec(4-7) cs' by (cases "cs' = []") auto
    then show ?thesis using 0 split(3,4) dec(1-3) by (auto simp: chunk_shape_ok_def)
  next
    case (Suc j)
    then have "ds \<noteq> []" "j < length ds" using Cons.prems(4) by auto
    then have "?n = CHUNK_SIZE + 16" "length p0 = CHUNK_SIZE" using v(2) dec(5) cs' by auto
    then have "drop (j * (CHUNK_SIZE + 16)) (drop ?n blob) = drop (i * (CHUNK_SIZE + 16)) blob"
      "drop (j * CHUNK_SIZE) rest = drop (i * CHUNK_SIZE) p"
      using Suc dec(7) by (simp_all add: add.commute)
    then show ?thesis using Cons.IH [OF v(1) split(1) dec(6) \<open>j < length ds\<close>] Suc by simp
  qed
qed simp

text \<open>Reading a blob chunk by chunk gives the same file as reading it whole: when the whole blob decrypts, each
  chunk of it, cut out at its place and decrypted alone, is the corresponding 64 KiB of the file.\<close>
theorem attachment_chunks_agree:
  assumes "decrypt_blob C d blob = Ok p" "i < length (ad_chunks d)"
  shows "decrypt_blob_chunk C d (of_nat i) (blob_slice d blob i) = Ok (take CHUNK_SIZE (drop (i * CHUNK_SIZE) p))"
proof -
  obtain cs where v: "validate_descriptor d = Ok ()" and s: "split_blob 0 blob (ad_chunks d) = Ok (cs, [])"
    and dec: "decrypt C \<lparr> am_version = ad_version d, am_chunk_size = ad_chunk_size d,
      am_original_size = ad_original_size d, am_chunks = cs \<rparr> (ad_key d) = Ok p"
    using assms(1) by (auto simp: decrypt_blob_def split: if_splits)
  have k: "length (ad_key d) = 32" "decrypt_chunks C (ad_key d) (ad_original_size d) 0 cs = Ok p"
    using dec by (auto simp: decrypt_def split: if_splits)
  have n: "validate_chunks 0 0 (ad_chunks d) = Ok (ad_original_size d)"
    "length (ad_chunks d) \<le> div_ceil MAX_ATTACHMENT_BYTES CHUNK_SIZE"
    using v by (auto simp: validate_descriptor_def split: if_splits)
  then have "i < 2 ^ 32" using assms(2) by (simp add: div_ceil_def MAX_ATTACHMENT_BYTES_def CHUNK_SIZE_def)
  then have i: "unat (of_nat i :: u32) = i" by (simp add: unsigned_of_nat take_bit_nat_eq_self)
  obtain nonce where h: "cd_index (ad_chunks d ! i) = of_nat i" "attachment_hex (cd_nonce (ad_chunks d ! i)) = Some nonce"
    "length nonce = 12" "chunk_shape_ok i (ad_chunks d ! i)"
    "unat (cd_ciphertext_size (ad_chunks d ! i)) \<le> length (drop (i * (CHUNK_SIZE + 16)) blob)"
    "aes_decrypt C (ad_key d) nonce (aad (of_nat i) (ad_original_size d)) (blob_slice d blob i)
      = Some (take CHUNK_SIZE (drop (i * CHUNK_SIZE) p))"
    using split_decrypt_nth [OF n(1) s k(2) assms(2)] unfolding blob_slice_def by auto
  have "length (blob_slice d blob i) = unat (cd_ciphertext_size (ad_chunks d ! i))"
    using h(5) by (simp add: blob_slice_def)
  then show ?thesis
    using v assms(2) i h k(1) by (simp add: decrypt_blob_chunk_def Let_def chunk_shape_ok_def)
qed

section \<open>Whole files and sizes\<close>

lemma concat_chunks_of [simp]: "concat (chunks_of n xs) = xs"
  by (induction n xs rule: chunks_of.induct) (auto simp: take_Cons' drop_Cons')

lemma chunks_of_full: "full_chunks (chunks_of (CHUNK_SIZE - 1) xs)"
proof (induction "CHUNK_SIZE - 1" xs rule: chunks_of.induct)
  case (2 x xs)
  have "Suc (CHUNK_SIZE - 1) = CHUNK_SIZE" by (simp add: CHUNK_SIZE_def)
  moreover have "chunks_of (CHUNK_SIZE - 1) (drop (CHUNK_SIZE - 1) xs) \<noteq> [] \<longrightarrow> CHUNK_SIZE \<le> length (x # xs)"
    by (cases "drop (CHUNK_SIZE - 1) xs") (auto simp: drop_eq_Nil2 not_le dest!: arg_cong [where f = length])
  ultimately show ?case using 2 by (auto simp: full_chunks_Cons)
qed simp

lemma encrypt_sealed:
  assumes "encrypt_chunks C random k sz index ps = Ok cs" "blob_chunks cs = Ok (ds, blob)"
    "\<forall>i n. random i = Some n \<longrightarrow> length n = 12" "aead_correct C"
  shows "sealed_as C k sz index ps ds blob"
  using assms(1,2)
proof (induction ps arbitrary: index cs ds blob)
  case (Cons p ps)
  obtain nonce ct cs' where h: "random index = Some nonce"
    "aes_encrypt C k nonce (aad (of_nat index) sz) p = Some ct" "encrypt_chunks C random k sz (Suc index) ps = Ok cs'"
    "cs = \<lparr> ac_index = of_nat index, ac_nonce = hex nonce, ac_ciphertext = hex ct \<rparr> # cs'"
    using Cons.prems(1) by (auto simp: seal_chunk_def)
  have "length ct = length p + 16" using h(2) assms(4) unfolding aead_correct_def by blast
  then have "ct \<noteq> []" by auto
  then obtain ds' blob' where b: "blob_chunks cs' = Ok (ds', blob')" "blob = ct @ blob'"
    "ds = \<lparr> cd_index = of_nat index, cd_nonce = hex nonce, cd_ciphertext_size = of_nat (length ct) \<rparr> # ds'"
    using Cons.prems(2) h(4) by auto
  show ?case
    unfolding sealed_as.simps
    using h(1,2) assms(3) b(2,3) Cons.IH [OF h(3) b(1)] by blast
qed simp

lemma whole_file_round_trip:
  assumes "aead_correct C" "\<forall>i n. random i = Some n \<longrightarrow> length n = 12"
    "encrypt_for_blob C random plaintext k blob_id = Ok att"
  shows "decrypt_blob C (ea_descriptor att) (ea_blob att) = Ok plaintext"
proof -
  let ?ps = "chunks_of (CHUNK_SIZE - 1) plaintext"
  obtain cs ds where e: "valid_blob_id blob_id" "plaintext \<noteq> []" "length plaintext \<le> MAX_ATTACHMENT_BYTES" "length k = 32"
    "encrypt_chunks C random k (of_nat (length plaintext)) 0 ?ps = Ok cs" "blob_chunks cs = Ok (ds, ea_blob att)"
    "ea_descriptor att = \<lparr> ad_version = ATTACHMENT_VERSION, ad_blob_id = blob_id, ad_key = k,
       ad_chunk_size = of_nat CHUNK_SIZE, ad_original_size = of_nat (length plaintext), ad_chunks = ds,
       ad_file_name = None, ad_media_type = None \<rparr>"
    using assms(3) by (auto simp: encrypt_for_blob_def encrypt_def split: if_splits)
  have "?ps \<noteq> []" using e(2) by (cases plaintext) simp_all
  then have "decrypt_blob C (ea_descriptor att) (ea_blob att) = Ok (concat ?ps)"
    using e(1,3,4) encrypt_sealed [OF e(5,6) assms(2,1)] chunks_of_full [of plaintext]
    by (intro decrypt_blob_sealed [OF assms(1)])
       (simp_all add: e(7) sanitize_file_name_def sanitize_media_type_def)
  then show ?thesis by simp
qed

lemma sealed_length:
  assumes "aead_correct C" "sealed_as C k sz index ps ds blob"
  shows "length blob = length (concat ps) + 16 * length ps"
  using assms(2)
proof (induction ps arbitrary: index ds blob)
  case (Cons p ps)
  obtain nonce ct ds' rest where h: "aes_encrypt C k nonce (aad (of_nat index) sz) p = Some ct" "blob = ct @ rest"
    "sealed_as C k sz (Suc index) ps ds' rest" using Cons.prems by auto
  have "length ct = length p + 16" using h(1) assms(1) unfolding aead_correct_def by blast
  then show ?case using Cons.IH [OF h(3)] h(2) by simp
qed simp

section \<open>A concrete job\<close>

definition demo_blob_id :: string where "demo_blob_id = replicate 32 CHR ''b''"

definition demo_job :: AttachmentJob where
  "demo_job = \<lparr> job_blob_id = demo_blob_id, job_key = replicate 32 9, job_total = 3, job_next_index = 0,
     job_received = 0, job_chunks = [], job_blob = [], job_file_name = Some ''a.txt'', job_media_type = None \<rparr>"

definition demo_attempts :: "(bytes option \<times> u32 \<times> bytes) list" where
  "demo_attempts = [(Some (replicate 12 1), 1, [7]), (Some (replicate 12 2), 0, [4, 5, 6])]"

definition demo_attachment :: EncryptedAttachment where
  "demo_attachment = \<lparr> ea_descriptor = \<lparr> ad_version = ATTACHMENT_VERSION, ad_blob_id = demo_blob_id,
     ad_key = replicate 32 9, ad_chunk_size = of_nat CHUNK_SIZE, ad_original_size = 3,
     ad_chunks = [\<lparr> cd_index = 0, cd_nonce = hex (replicate 12 2), cd_ciphertext_size = 19 \<rparr>],
     ad_file_name = Some ''a.txt'', ad_media_type = None \<rparr>,
     ea_blob = [4, 5, 6] @ replicate 16 0 \<rparr>"

lemma demo_start:
  "start_with_metadata (Some (replicate 32 9)) demo_blob_id 3 (Some ''a.txt'') None = Ok demo_job"
  by (simp add: start_with_metadata_def demo_job_def valid_blob_id_def demo_blob_id_def sanitize_file_name_def
      sanitize_media_type_def generate_key_def MAX_ATTACHMENT_BYTES_def is_ascii_alphanumeric_def is_ascii_lower_def
      list_all_iff)

lemma demo_feed:
  "\<exists>job. feed tag_crypto demo_job demo_attempts = ([[4, 5, 6]], job) \<and> finish job = Ok demo_attachment"
  by (simp add: demo_attempts_def demo_job_def append_chunk_def seal_chunk_def tag_crypto_def CHUNK_SIZE_def
      finish_def demo_attachment_def Let_def)

theorem attachment_round_trip_witness:
  "decrypt_blob tag_crypto (ea_descriptor demo_attachment) (ea_blob demo_attachment) = Ok [4, 5, 6]"
proof -
  obtain job where "feed tag_crypto demo_job demo_attempts = ([[4, 5, 6]], job)" "finish job = Ok demo_attachment"
    using demo_feed by blast
  from attachment_round_trip [OF tag_crypto_correct demo_start _ _ this] show ?thesis
    by (simp add: demo_attempts_def)
qed

lemma demo_decrypts:
  "decrypt_blob tag_crypto (ea_descriptor demo_attachment) (ea_blob demo_attachment) = Ok (concat [[4, 5, 6]])"
proof -
  have "sealed_as tag_crypto (replicate 32 9) 3 0 [[4, 5, 6]]
      [\<lparr> cd_index = 0, cd_nonce = hex (replicate 12 2), cd_ciphertext_size = 19 \<rparr>] ([4, 5, 6] @ replicate 16 0)"
    unfolding sealed_as.simps
    by (intro exI [of _ "replicate 12 2"] exI conjI) (simp_all add: tag_crypto_def)
  then show ?thesis
    by (intro decrypt_blob_sealed [OF tag_crypto_correct])
       (simp_all add: demo_attachment_def valid_blob_id_def demo_blob_id_def sanitize_file_name_def sanitize_media_type_def
          MAX_ATTACHMENT_BYTES_def CHUNK_SIZE_def is_ascii_alphanumeric_def is_ascii_lower_def list_all_iff)
qed

theorem attachment_chunks_agree_witness:
  "decrypt_blob_chunk tag_crypto (ea_descriptor demo_attachment) (of_nat 0)
     (blob_slice (ea_descriptor demo_attachment) (ea_blob demo_attachment) 0) = Ok (take CHUNK_SIZE (drop (0 * CHUNK_SIZE) (concat [[4, 5, 6]])))"
  by (rule attachment_chunks_agree [OF demo_decrypts]) (simp add: demo_attachment_def)

end
