(* ===== verification/Attestation.thy ===== *)
theory Attestation
  imports Identity
begin

text \<open>
  Peer attestations (\<^verbatim>\<open>attestation.rs\<close>): an account vouches with its root key for the device key of
  another account, and a bounded store keeps the attestations of every subject.

  Ed25519 is the argument \<open>ed25519\<close>, the JSON of the store is a pair of functions.  The hexadecimal
  decoder slices strings at byte positions, so the operations that decode may panic.
\<close>

definition ATTESTATION_VERSION :: u16 where "ATTESTATION_VERSION = 1"
definition MAX_ATTESTATIONS_PER_PEER :: nat where "MAX_ATTESTATIONS_PER_PEER = 8"

record PeerAttestation =
  att_version :: u16
  attestor_account_id :: string
  subject_account_id :: string
  subject_device_public_key :: string
  att_created_at :: u64
  att_signature :: string

datatype AttestationError =
  InvalidPublicKey | InvalidSignature | SubjectMismatch | KeyMismatch | UnsupportedVersion
| AttestationStorage | RandomnessUnavailable

definition attestation_hex :: "string \<Rightarrow> bytes option run" where
  "attestation_hex s = (if odd (length s) \<or> s = [] then Returns None else hex_pairs s)"

definition attestation_transcript :: "string \<Rightarrow> string \<Rightarrow> string \<Rightarrow> u64 \<Rightarrow> bytes" where
  "attestation_transcript attestor_id subject_id subject_device_key_hex created_at =
     as_bytes (''another-dimension/attestation/v1'' @ [CHR 0x0A] @ ''attestor='' @ attestor_id @ [CHR 0x0A] @
       ''subject='' @ subject_id @ [CHR 0x0A] @ ''subject_device_key='' @ subject_device_key_hex @ [CHR 0x0A] @
       ''created_at='' @ u64_to_string created_at @ [CHR 0x0A])"

definition attestation_create ::
    "ed25519 \<Rightarrow> bytes \<Rightarrow> string \<Rightarrow> string \<Rightarrow> u64 \<Rightarrow> (AttestationError + PeerAttestation) run" where
  "attestation_create E attestor_key subject_id device_key_hex now =
     (case attestation_hex device_key_hex of
        Panics \<Rightarrow> Panics
      | Returns None \<Rightarrow> Returns (Err InvalidPublicKey)
      | Returns (Some device_key) \<Rightarrow>
          if length device_key \<noteq> 32 then Returns (Err InvalidPublicKey)
          else Returns (Ok \<lparr> att_version = ATTESTATION_VERSION,
            attestor_account_id = root_account_id E attestor_key, subject_account_id = subject_id,
            subject_device_public_key = device_key_hex, att_created_at = now,
            att_signature = hex (ed_sign E attestor_key
              (attestation_transcript (root_account_id E attestor_key) subject_id device_key_hex now)) \<rparr>))"

definition attestation_verify ::
    "ed25519 \<Rightarrow> PeerAttestation \<Rightarrow> string \<Rightarrow> string \<Rightarrow> string \<Rightarrow> (AttestationError + unit) run" where
  "attestation_verify E a attestor_public_key_hex expected_subject expected_device_key =
     (if att_version a \<noteq> ATTESTATION_VERSION then Returns (Err UnsupportedVersion)
      else if subject_account_id a \<noteq> expected_subject then Returns (Err SubjectMismatch)
      else if subject_device_public_key a \<noteq> expected_device_key then Returns (Err KeyMismatch)
      else let raw_pk = (case strip_prefix attestor_public_key_hex ''ad1pk'' of
                           None \<Rightarrow> attestor_public_key_hex | Some rest \<Rightarrow> rest) in
        (case attestation_hex raw_pk of
           Panics \<Rightarrow> Panics
         | Returns None \<Rightarrow> Returns (Err InvalidPublicKey)
         | Returns (Some pk) \<Rightarrow>
             if length pk \<noteq> 32 \<or> \<not> ed_key_ok E pk then Returns (Err InvalidPublicKey)
             else (case attestation_hex (att_signature a) of
                 Panics \<Rightarrow> Panics
               | Returns None \<Rightarrow> Returns (Err InvalidSignature)
               | Returns (Some sg) \<Rightarrow>
                   if length sg = 64 \<and> ed_verify E pk (attestation_transcript (attestor_account_id a)
                        (subject_account_id a) (subject_device_public_key a) (att_created_at a)) sg
                   then Returns (Ok ()) else Returns (Err InvalidSignature))))"

type_synonym PeerAttestationStore = "(string, PeerAttestation list) btree"

definition attestations_new :: PeerAttestationStore where
  "attestations_new = fmempty"

definition for_peer :: "PeerAttestationStore \<Rightarrow> string \<Rightarrow> PeerAttestation list" where
  "for_peer s account_id = (case fmlookup s account_id of None \<Rightarrow> [] | Some l \<Rightarrow> l)"

definition attestation_add ::
    "PeerAttestation \<Rightarrow> PeerAttestationStore \<Rightarrow> (AttestationError + unit) \<times> PeerAttestationStore" where
  "attestation_add a s =
     (let l = for_peer s (subject_account_id a);
          l1 = (if MAX_ATTESTATIONS_PER_PEER \<le> length l then tl l else l);
          l2 = (if a \<in> set l1 then l1 else l1 @ [a])
      in (Ok (), fmupd (subject_account_id a) l2 s))"

definition attestations_all :: "PeerAttestationStore \<Rightarrow> PeerAttestation list" where
  "attestations_all s = concat (map snd (sorted_list_of_fmap s))"

definition attestations_encode ::
    "(PeerAttestationStore \<Rightarrow> bytes option) \<Rightarrow> PeerAttestationStore \<Rightarrow> AttestationError + bytes" where
  "attestations_encode to_json s = ok_or (to_json s) AttestationStorage"

definition attestations_restore ::
    "(bytes \<Rightarrow> PeerAttestationStore option) \<Rightarrow> bytes \<Rightarrow> AttestationError + PeerAttestationStore" where
  "attestations_restore of_json bs = ok_or (of_json bs) AttestationStorage"

section \<open>Created attestations verify\<close>

lemma attestation_hex_hex: "bs \<noteq> [] \<Longrightarrow> attestation_hex (hex bs) = Returns (Some bs)"
  using hex_pairs_hex [of bs] by (cases bs) (auto simp: attestation_hex_def simp del: hex_pairs.simps)

theorem created_attestation_verifies:
  assumes "ed_correct E" "attestation_create E root subject device_key now = Returns (Ok a)"
  shows "attestation_verify E a (root_account_id E root) subject device_key = Returns (Ok ())"
    "attestation_verify E a (hex (ed_public E root)) subject device_key = Returns (Ok ())"
proof -
  have a: "a = \<lparr> att_version = ATTESTATION_VERSION, attestor_account_id = root_account_id E root,
      subject_account_id = subject, subject_device_public_key = device_key, att_created_at = now,
      att_signature = hex (ed_sign E root
        (attestation_transcript (root_account_id E root) subject device_key now)) \<rparr>"
    using assms(2) by (auto simp: attestation_create_def split: run.splits option.splits if_splits)
  have k: "length (ed_public E root) = 32" "ed_key_ok E (ed_public E root)"
    and s: "length (ed_sign E root m) = 64" "ed_verify E (ed_public E root) m (ed_sign E root m)" for m
    using assms(1) by (simp_all add: ed_correct_def)
  have n: "ed_public E root \<noteq> []" "ed_sign E root m \<noteq> []" for m
    using k(1) s(1) [of m] by auto
  have p: "strip_prefix (root_account_id E root) ''ad1pk'' = Some (hex (ed_public E root))"
    by (simp add: root_account_id_def account_id_from_public_def strip_prefix_def starts_with_def)
  have "strip_prefix (hex (ed_public E root)) ''ad1pk'' = None"
  proof -
    have "\<not> is_ascii_hexdigit CHR ''p''" by (simp add: ascii_defs)
    then have "CHR ''p'' \<notin> set (hex (ed_public E root))"
      using hex_all_hexdigits [of "ed_public E root"] unfolding list_all_iff by blast
    then have "\<not> starts_with (hex (ed_public E root)) ''ad1pk''"
      using set_take_subset [of "length ''ad1pk''" "hex (ed_public E root)"] by (auto simp: starts_with_def)
    then show ?thesis by (simp add: strip_prefix_def)
  qed
  then show "attestation_verify E a (root_account_id E root) subject device_key = Returns (Ok ())"
    "attestation_verify E a (hex (ed_public E root)) subject device_key = Returns (Ok ())"
    by (simp_all add: attestation_verify_def a p Let_def attestation_hex_hex k s n del: hex.simps)
qed

text \<open>The store holds at most eight attestations of a subject, each about that subject.\<close>

definition attestations_ok :: "string \<Rightarrow> PeerAttestation list \<Rightarrow> bool" where
  "attestations_ok k l \<longleftrightarrow>
     length l \<le> MAX_ATTESTATIONS_PER_PEER \<and> distinct l \<and> subject_account_id ` set l \<subseteq> {k}"

definition attestations_inv :: "PeerAttestationStore \<Rightarrow> bool" where
  "attestations_inv s \<longleftrightarrow> (\<forall>k. attestations_ok k (for_peer s k))"

lemma tl_attestations_ok: "attestations_ok k l \<Longrightarrow> attestations_ok k (tl l)"
  by (cases l) (auto simp: attestations_ok_def)

lemma snoc_attestations_ok:
  "attestations_ok k l \<Longrightarrow> length l < MAX_ATTESTATIONS_PER_PEER \<Longrightarrow> a \<notin> set l \<Longrightarrow> subject_account_id a = k \<Longrightarrow>
     attestations_ok k (l @ [a])"
  by (simp add: attestations_ok_def)

theorem attestation_add_inv:
  assumes "attestations_inv s"
  shows "attestations_inv (snd (attestation_add a s))"
    and "a \<in> set (for_peer (snd (attestation_add a s)) (subject_account_id a))"
    and "k \<noteq> subject_account_id a \<Longrightarrow> for_peer (snd (attestation_add a s)) k = for_peer s k"
proof -
  define l where "l = for_peer s (subject_account_id a)"
  define l1 where "l1 = (if MAX_ATTESTATIONS_PER_PEER \<le> length l then tl l else l)"
  define l2 where "l2 = (if a \<in> set l1 then l1 else l1 @ [a])"
  have "attestations_ok (subject_account_id a) l" using assms by (simp add: attestations_inv_def l_def)
  then have "attestations_ok (subject_account_id a) l1" "length l1 < MAX_ATTESTATIONS_PER_PEER"
    using tl_attestations_ok [of "subject_account_id a" l]
    by (simp_all add: l1_def) (auto simp: attestations_ok_def MAX_ATTESTATIONS_PER_PEER_def)
  then have l2: "attestations_ok (subject_account_id a) l2"
    by (simp add: l2_def snoc_attestations_ok)
  have eq: "for_peer (snd (attestation_add a s)) k' = (if k' = subject_account_id a then l2 else for_peer s k')" for k'
  proof -
    have "snd (attestation_add a s) = fmupd (subject_account_id a) l2 s"
      by (simp add: attestation_add_def Let_def l_def l1_def l2_def)
    then show ?thesis by (simp add: for_peer_def)
  qed
  show "attestations_inv (snd (attestation_add a s))" using assms l2 by (simp add: attestations_inv_def eq)
  show "a \<in> set (for_peer (snd (attestation_add a s)) (subject_account_id a))" by (simp add: eq l2_def)
  show "for_peer (snd (attestation_add a s)) k = for_peer s k" if "k \<noteq> subject_account_id a"
    using that by (simp add: eq)
qed

text \<open>Adding an attestation that is already there, to a full list, drops the oldest one.\<close>

lemma duplicate_drops_oldest:
  assumes "for_peer s (subject_account_id a) = b # l" "length l = 7" "a \<in> set l"
  shows "for_peer (snd (attestation_add a s)) (subject_account_id a) = l"
  using assms by (simp add: attestation_add_def Let_def MAX_ATTESTATIONS_PER_PEER_def for_peer_def)

end
