(* ===== verification/Authority.thy ===== *)
theory Authority
  imports Invite Pairing Contacts Device_Registry Device_Link Attachment Attestation
begin

text \<open>
  The invite authority of the daemon (\<^verbatim>\<open>apps/daemon/src/authority.rs\<close>): the object that owns the account
  root, the pairing, the contact directory, the device registry, the attachments in memory and the peer
  attestations, and that writes each of them to the encrypted store.

  The libraries the file calls (Ed25519, SHA-256, the URI parser, the upper-case table, JSON, AES-256-GCM)
  are fields of one record; the random bytes of an operation and the outcome of a commit are its arguments.
  The lemmas show that an operation that succeeds leaves the store with what is in memory and the records of the
  other components untouched, that a failed write is visible in memory only, that a created invite is one a
  peer accepts and needs an authorized device, and that the attachments in memory stay within the limits.
\<close>

section \<open>Definitions\<close>

definition COMPLETED_ATTACHMENT_TTL_SECONDS :: u64 where "COMPLETED_ATTACHMENT_TTL_SECONDS = 60 * 60"
definition MAX_COMPLETED_ATTACHMENT_COUNT :: nat where "MAX_COMPLETED_ATTACHMENT_COUNT = 2"
definition MAX_COMPLETED_ATTACHMENT_BYTES :: nat where "MAX_COMPLETED_ATTACHMENT_BYTES = 64 * 1024 * 1024"

record authority_lib =
  lib_ed :: ed25519
  lib_sha :: "bytes \<Rightarrow> bytes"
  lib_upper :: "nat \<Rightarrow> nat list"
  lib_uri :: uri_parser
  lib_aes :: store_crypto
  directory_to :: "DirectorySnapshot \<Rightarrow> bytes option"
  directory_of :: "bytes \<Rightarrow> DirectorySnapshot option"
  pairing_to :: "PairingSnapshot \<Rightarrow> bytes option"
  pairing_of :: "bytes \<Rightarrow> PairingSnapshot option"
  registry_to :: "RegistryWire \<Rightarrow> bytes option"
  registry_of :: "bytes \<Rightarrow> RegistryWire option"
  approval_to :: "ApprovalWire \<Rightarrow> bytes option"
  descriptor_to :: "AttachmentDescriptor \<Rightarrow> bytes option"
  descriptor_of :: "bytes \<Rightarrow> AttachmentDescriptor option"

record InviteAuthority =
  au_root :: "bytes option"
  au_account_id :: string
  au_device_id :: string
  au_relay_origin :: string
  au_inbox_url :: "string option"
  au_relay_public_key :: "bytes option"
  au_relay_tls_pin :: "bytes option"
  au_relay_trust :: "RelayTrust option"
  au_pending :: "(bytes \<times> u64) option"
  au_pending_rendezvous_codes :: "string list"
  au_pending_conversation_id :: "string option"
  au_pending_key_packages :: "bytes list"
  au_staged_peer :: "VerifiedInvite option"
  au_pairing :: PairingSession
  au_contacts :: ContactDirectory
  au_device_registry :: DeviceRegistry
  au_attachment_jobs :: "(string, AttachmentJob) btree"
  au_attachment_job_started_at :: "(string, u64) btree"
  au_completed_attachments :: "(string, EncryptedAttachment) btree"
  au_completed_attachment_created_at :: "(string, u64) btree"
  au_received_attachments :: "(string, AttachmentDescriptor) btree"
  au_peer_attestations :: PeerAttestationStore

record IdentityView =
  iv_account_id :: string
  iv_device_id :: string
  iv_display_name :: string

datatype DeviceActionError =
  RegistryFailed DeviceRegistryError | LinkFailed DeviceLinkError | CurrentDevice | RootUnavailable | StorageFailed

definition new_internal ::
    "authority_lib \<Rightarrow> bytes option \<Rightarrow> string \<Rightarrow> string \<Rightarrow> string option \<Rightarrow> bytes option \<Rightarrow> bytes option
     \<Rightarrow> RelayTrust option \<Rightarrow> InviteAuthority" where
  "new_internal L root device_id relay_origin inbox_url relay_public_key relay_tls_pin relay_trust =
     (let local_account_id = (case root of None \<Rightarrow> [] | Some r \<Rightarrow> root_account_id (lib_ed L) r);
          registry = (case root of None \<Rightarrow> new_for_public_key (replicate 32 0)
                      | Some r \<Rightarrow> registry_new (lib_ed L) r)
      in \<lparr> au_root = root, au_account_id = local_account_id, au_device_id = device_id,
           au_relay_origin = relay_origin, au_inbox_url = inbox_url, au_relay_public_key = relay_public_key,
           au_relay_tls_pin = relay_tls_pin, au_relay_trust = relay_trust, au_pending = None,
           au_pending_rendezvous_codes = [], au_pending_conversation_id = None, au_pending_key_packages = [],
           au_staged_peer = None, au_pairing = pairing_new local_account_id device_id,
           au_contacts = fmempty, au_device_registry = registry, au_attachment_jobs = fmempty,
           au_attachment_job_started_at = fmempty, au_completed_attachments = fmempty,
           au_completed_attachment_created_at = fmempty, au_received_attachments = fmempty,
           au_peer_attestations = attestations_new \<rparr>)"

definition with_public_account_key :: "bytes \<Rightarrow> InviteAuthority \<Rightarrow> InviteAuthority" where
  "with_public_account_key account_public_key s =
     (let account = account_id_from_public account_public_key in
      s \<lparr> au_account_id := account, au_pairing := pairing_new account (au_device_id s),
          au_device_registry := new_for_public_key account_public_key \<rparr>)"

definition authority_new ::
    "authority_lib \<Rightarrow> bytes \<Rightarrow> string \<Rightarrow> string \<Rightarrow> string option \<Rightarrow> bytes option \<Rightarrow> bytes option
     \<Rightarrow> RelayTrust option \<Rightarrow> InviteAuthority" where
  "authority_new L root = new_internal L (Some root)"

definition new_rootless ::
    "authority_lib \<Rightarrow> bytes \<Rightarrow> string \<Rightarrow> string \<Rightarrow> string option \<Rightarrow> bytes option \<Rightarrow> bytes option
     \<Rightarrow> RelayTrust option \<Rightarrow> InviteAuthority" where
  "new_rootless L account_public_key device_id relay_origin inbox_url relay_public_key relay_tls_pin relay_trust =
     with_public_account_key account_public_key
       (new_internal L None device_id relay_origin inbox_url relay_public_key relay_tls_pin relay_trust)"

subsection \<open>Attachments in memory\<close>

definition completed_bytes :: "InviteAuthority \<Rightarrow> nat" where
  "completed_bytes s =
     sum_list (map (length \<circ> ea_blob \<circ> snd) (sorted_list_of_fmap (au_completed_attachments s)))"

definition attachment_start ::
    "bytes option \<Rightarrow> string \<Rightarrow> nat \<Rightarrow> string option \<Rightarrow> string option \<Rightarrow> u64 \<Rightarrow> InviteAuthority
     \<Rightarrow> (AttachmentError + unit) \<times> InviteAuthority" where
  "attachment_start random blob_id full file_name media_type now s =
     (if fmlookup (au_attachment_jobs s) blob_id \<noteq> None then (Err InvalidManifest, s)
      else if au_attachment_jobs s \<noteq> fmempty
              \<or> MAX_COMPLETED_ATTACHMENT_COUNT \<le> fcard (fmdom (au_completed_attachments s))
              \<or> MAX_COMPLETED_ATTACHMENT_BYTES < min (2 ^ 64 - 1) (completed_bytes s + full)
      then (Err TooLarge, s)
      else case start_with_metadata random blob_id full file_name media_type of
        Inl e \<Rightarrow> (Err e, s)
      | Inr job \<Rightarrow>
          (Ok (), s \<lparr> au_attachment_jobs := fmupd blob_id job (au_attachment_jobs s),
             au_attachment_job_started_at := fmupd blob_id now (au_attachment_job_started_at s) \<rparr>))"

definition attachment_append ::
    "authority_lib \<Rightarrow> bytes option \<Rightarrow> string \<Rightarrow> u32 \<Rightarrow> bytes \<Rightarrow> InviteAuthority
     \<Rightarrow> (AttachmentError + unit) \<times> InviteAuthority" where
  "attachment_append L random blob_id index plaintext s =
     (case fmlookup (au_attachment_jobs s) blob_id of
        None \<Rightarrow> (Err InvalidManifest, s)
      | Some job \<Rightarrow>
          (case append_chunk (lib_aes L) random index plaintext job of
             (r, job') \<Rightarrow> (r, s \<lparr> au_attachment_jobs := fmupd blob_id job' (au_attachment_jobs s) \<rparr>)))"

definition attachment_finish ::
    "string \<Rightarrow> u64 \<Rightarrow> InviteAuthority \<Rightarrow> (AttachmentError + unit) \<times> InviteAuthority" where
  "attachment_finish blob_id now s =
     (case fmlookup (au_attachment_jobs s) blob_id of
        None \<Rightarrow> (Err InvalidManifest, s)
      | Some job \<Rightarrow>
          (let s1 = s \<lparr> au_attachment_jobs := fmdrop blob_id (au_attachment_jobs s) \<rparr> in
           case finish job of
             Inl e \<Rightarrow> (Err e, s1)
           | Inr package \<Rightarrow>
               (Ok (), s1 \<lparr> au_attachment_job_started_at := fmdrop blob_id (au_attachment_job_started_at s1),
                  au_completed_attachments := fmupd blob_id package (au_completed_attachments s1),
                  au_completed_attachment_created_at :=
                    fmupd blob_id now (au_completed_attachment_created_at s1) \<rparr>)))"

definition take_completed_attachment ::
    "string \<Rightarrow> InviteAuthority \<Rightarrow> EncryptedAttachment option \<times> InviteAuthority" where
  "take_completed_attachment blob_id s =
     (fmlookup (au_completed_attachments s) blob_id,
      s \<lparr> au_completed_attachment_created_at := fmdrop blob_id (au_completed_attachment_created_at s),
          au_completed_attachments := fmdrop blob_id (au_completed_attachments s) \<rparr>)"

definition take_completed_attachment_if_equal ::
    "string \<Rightarrow> EncryptedAttachment \<Rightarrow> InviteAuthority \<Rightarrow> bool \<times> InviteAuthority" where
  "take_completed_attachment_if_equal blob_id expected s =
     (case fmlookup (au_completed_attachments s) blob_id of
        None \<Rightarrow> (False, s)
      | Some current \<Rightarrow>
          if current \<noteq> expected then (False, s)
          else (case take_completed_attachment blob_id s of (taken, s') \<Rightarrow> (taken \<noteq> None, s')))"

definition received_key :: "string \<Rightarrow> record_key" where
  "received_key attachment_id = (RecordClass.Attachment, ''received/'' @ attachment_id)"

text \<open>The three removals are joined by \<^verbatim>\<open>||\<close>: a later one is made only when the earlier ones found nothing.\<close>

definition cancel_attachment ::
    "authority_lib \<Rightarrow> commit_io \<Rightarrow> string \<Rightarrow> InviteAuthority \<Rightarrow> EncryptedStore \<times> disk
     \<Rightarrow> bool \<times> InviteAuthority \<times> EncryptedStore \<times> disk" where
  "cancel_attachment L io blob_id s st =
     (let (cancelled, s1) =
            (if fmlookup (au_attachment_jobs s) blob_id \<noteq> None
             then (True, s \<lparr> au_attachment_jobs := fmdrop blob_id (au_attachment_jobs s) \<rparr>)
             else if fmlookup (au_completed_attachments s) blob_id \<noteq> None
             then (True, s \<lparr> au_completed_attachments := fmdrop blob_id (au_completed_attachments s) \<rparr>)
             else (fmlookup (au_received_attachments s) blob_id \<noteq> None,
                   s \<lparr> au_received_attachments := fmdrop blob_id (au_received_attachments s) \<rparr>));
          s2 = s1 \<lparr> au_attachment_job_started_at := fmdrop blob_id (au_attachment_job_started_at s1),
                   au_completed_attachment_created_at := fmdrop blob_id (au_completed_attachment_created_at s1) \<rparr>
      in if cancelled
         then (True, s2, snd (delete_record (lib_aes L) io (fst (received_key blob_id)) (snd (received_key blob_id)) st))
         else (False, s2, st))"

definition stage_received_attachment ::
    "authority_lib \<Rightarrow> string \<Rightarrow> AttachmentDescriptor \<Rightarrow> InviteAuthority \<Rightarrow> (StorageError + bytes) \<times> InviteAuthority" where
  "stage_received_attachment L attachment_id d s =
     (case descriptor_to L d of
        None \<Rightarrow> (Err CorruptStore, s)
      | Some encoded \<Rightarrow>
          (Ok encoded, s \<lparr> au_received_attachments := fmupd attachment_id d (au_received_attachments s) \<rparr>))"

definition received_attachment :: "InviteAuthority \<Rightarrow> string \<Rightarrow> AttachmentDescriptor option" where
  "received_attachment s attachment_id = fmlookup (au_received_attachments s) attachment_id"

definition clear_attachment_state :: "InviteAuthority \<Rightarrow> InviteAuthority" where
  "clear_attachment_state s =
     s \<lparr> au_attachment_jobs := fmempty, au_attachment_job_started_at := fmempty,
         au_completed_attachments := fmempty, au_completed_attachment_created_at := fmempty,
         au_received_attachments := fmempty \<rparr>"

definition expired_ids :: "u64 \<Rightarrow> (string, u64) btree \<Rightarrow> string list" where
  "expired_ids now m =
     map fst (filter (\<lambda>(k, t). COMPLETED_ATTACHMENT_TTL_SECONDS < sat_sub now t) (sorted_list_of_fmap m))"

definition purge_attachment_state :: "u64 \<Rightarrow> InviteAuthority \<Rightarrow> InviteAuthority" where
  "purge_attachment_state now s =
     (let s1 = fold (\<lambda>k s. s \<lparr> au_attachment_job_started_at := fmdrop k (au_attachment_job_started_at s),
                              au_attachment_jobs := fmdrop k (au_attachment_jobs s) \<rparr>)
                 (expired_ids now (au_attachment_job_started_at s)) s
      in fold (\<lambda>k s. s \<lparr> au_completed_attachment_created_at := fmdrop k (au_completed_attachment_created_at s),
                        au_completed_attachments := fmdrop k (au_completed_attachments s) \<rparr>)
           (expired_ids now (au_completed_attachment_created_at s1)) s1)"

fun received_from :: "authority_lib \<Rightarrow> (string \<times> bytes) list \<Rightarrow> (string, AttachmentDescriptor) btree
    \<Rightarrow> (StorageError + unit) \<times> (string, AttachmentDescriptor) btree" where
  "received_from L [] m = (Ok (), m)"
| "received_from L ((k, v) # kvs) m =
     (case strip_prefix k ''received/'' of
        None \<Rightarrow> (Err CorruptStore, m)
      | Some attachment_id \<Rightarrow>
          (case descriptor_of L v of
             None \<Rightarrow> (Err CorruptStore, m)
           | Some d \<Rightarrow>
               if \<not> is_ok (validate_descriptor d) then (Err CorruptStore, m)
               else received_from L kvs (fmupd attachment_id d m)))"

definition restore_received_attachments ::
    "authority_lib \<Rightarrow> EncryptedStore \<times> disk \<Rightarrow> InviteAuthority \<Rightarrow> (StorageError + unit) \<times> InviteAuthority" where
  "restore_received_attachments L st s =
     (case received_from L (records_with_prefix RecordClass.Attachment ''received/'' (fst st)) fmempty of
        (r, m) \<Rightarrow> (r, s \<lparr> au_received_attachments := m \<rparr>))"

subsection \<open>Contacts\<close>

definition contacts_snapshot_bytes :: "authority_lib \<Rightarrow> InviteAuthority \<Rightarrow> StorageError + bytes" where
  "contacts_snapshot_bytes L s = Contacts.snapshot_bytes (directory_to L) (au_contacts s)"

definition restore_contacts ::
    "authority_lib \<Rightarrow> EncryptedStore \<times> disk \<Rightarrow> InviteAuthority \<Rightarrow> (StorageError + unit) \<times> InviteAuthority" where
  "restore_contacts L st s =
     (case contacts_restore (directory_of L) st of
        Inl e \<Rightarrow> (Err e, s)
      | Inr m \<Rightarrow> (Ok (), s \<lparr> au_contacts := m \<rparr>))"

text \<open>What the operations on contacts share: change the directory, stop at an error, write the directory.\<close>

definition contacts_update ::
    "authority_lib \<Rightarrow> commit_io \<Rightarrow> (ContactDirectory \<Rightarrow> (ContactDirectoryError + 'a) \<times> ContactDirectory)
     \<Rightarrow> InviteAuthority \<Rightarrow> EncryptedStore \<times> disk
     \<Rightarrow> (ContactDirectoryError + 'a) \<times> InviteAuthority \<times> EncryptedStore \<times> disk" where
  "contacts_update L io f s st =
     (case f (au_contacts s) of
        (Inl e, m) \<Rightarrow> (Err e, s \<lparr> au_contacts := m \<rparr>, st)
      | (Inr v, m) \<Rightarrow>
          (case contacts_persist (directory_to L) (lib_aes L) io m st of
             (r, st') \<Rightarrow> (if is_ok r then Ok v else Err DirectoryCorrupt, s \<lparr> au_contacts := m \<rparr>, st')))"

definition registered_contact :: "VerifiedInvite \<Rightarrow> u64 \<Rightarrow> ContactDirectory \<Rightarrow> contact_result" where
  "registered_contact peer now m =
     (case upsert_verified_with_inbox (inv_account_id peer) (inv_device_id peer) (inv_relay_origin peer)
             (inv_inbox_url peer) now m of
        (Inl e, m1) \<Rightarrow> (Err e, m1)
      | (Inr _, m1) \<Rightarrow>
          (case inv_conversation_id peer of
             None \<Rightarrow> (Ok (), m1)
           | Some c \<Rightarrow> bind_conversation (inv_account_id peer) c m1))"

definition register_approved_contact ::
    "authority_lib \<Rightarrow> commit_io \<Rightarrow> u64 \<Rightarrow> InviteAuthority \<Rightarrow> EncryptedStore \<times> disk
     \<Rightarrow> (ContactDirectoryError + unit) \<times> InviteAuthority \<times> EncryptedStore \<times> disk" where
  "register_approved_contact L io now s st =
     (case snap_peer (snapshot (au_pairing s)) of
        None \<Rightarrow> (Err ContactNotFound, s, st)
      | Some peer \<Rightarrow> contacts_update L io (registered_contact peer now) s st)"

definition authority_contacts :: "InviteAuthority \<Rightarrow> ContactRecord list" where
  "authority_contacts s = contacts_list (au_contacts s)"

definition set_contact_alias ::
    "authority_lib \<Rightarrow> commit_io \<Rightarrow> string \<Rightarrow> string \<Rightarrow> InviteAuthority \<Rightarrow> EncryptedStore \<times> disk
     \<Rightarrow> (ContactDirectoryError + unit) \<times> InviteAuthority \<times> EncryptedStore \<times> disk" where
  "set_contact_alias L io account_id alias = contacts_update L io (set_alias account_id alias)"

definition set_contact_blocked ::
    "authority_lib \<Rightarrow> commit_io \<Rightarrow> string \<Rightarrow> bool \<Rightarrow> InviteAuthority \<Rightarrow> EncryptedStore \<times> disk
     \<Rightarrow> (ContactDirectoryError + unit) \<times> InviteAuthority \<times> EncryptedStore \<times> disk" where
  "set_contact_blocked L io account_id blocked =
     contacts_update L io (if blocked then block account_id else unblock account_id)"

definition remove_contact ::
    "authority_lib \<Rightarrow> commit_io \<Rightarrow> string \<Rightarrow> InviteAuthority \<Rightarrow> EncryptedStore \<times> disk
     \<Rightarrow> (ContactDirectoryError + ContactRecord) \<times> InviteAuthority \<times> EncryptedStore \<times> disk" where
  "remove_contact L io account_id = contacts_update L io (remove_contact_record account_id)"

definition bind_contact_conversation ::
    "authority_lib \<Rightarrow> commit_io \<Rightarrow> string \<Rightarrow> string \<Rightarrow> InviteAuthority \<Rightarrow> EncryptedStore \<times> disk
     \<Rightarrow> (ContactDirectoryError + unit) \<times> InviteAuthority \<times> EncryptedStore \<times> disk" where
  "bind_contact_conversation L io account_id conversation_id =
     contacts_update L io (bind_conversation account_id conversation_id)"

definition mark_contact_read ::
    "authority_lib \<Rightarrow> commit_io \<Rightarrow> string \<Rightarrow> InviteAuthority \<Rightarrow> EncryptedStore \<times> disk
     \<Rightarrow> (ContactDirectoryError + unit) \<times> InviteAuthority \<times> EncryptedStore \<times> disk" where
  "mark_contact_read L io account_id = contacts_update L io (mark_read account_id)"

definition message_preview :: "bytes \<Rightarrow> string" where
  "message_preview plaintext =
     concat (map utf8_encode_char
       (take 160 (join_words (split_whitespace (utf8_lossy (bytes_to_string plaintext))))))"

definition stage_contact_message ::
    "string \<Rightarrow> bytes \<Rightarrow> u64 \<Rightarrow> bool \<Rightarrow> InviteAuthority \<Rightarrow> (ContactDirectoryError + unit) \<times> InviteAuthority" where
  "stage_contact_message conversation_id plaintext now background s =
     (case record_message conversation_id (message_preview plaintext) now background (au_contacts s) of
        (r, m) \<Rightarrow> (r, s \<lparr> au_contacts := m \<rparr>))"

subsection \<open>Attestations\<close>

definition create_attestation ::
    "authority_lib \<Rightarrow> string \<Rightarrow> string \<Rightarrow> u64 \<Rightarrow> InviteAuthority \<Rightarrow> (AttestationError + PeerAttestation) run" where
  "create_attestation L subject_id device_key now s =
     (case au_root s of
        None \<Rightarrow> Returns (Err AttestationStorage)
      | Some root \<Rightarrow> attestation_create (lib_ed L) root subject_id device_key now)"

definition add_peer_attestation ::
    "PeerAttestation \<Rightarrow> InviteAuthority \<Rightarrow> (AttestationError + unit) \<times> InviteAuthority" where
  "add_peer_attestation a s =
     (case attestation_add a (au_peer_attestations s) of
        (r, l) \<Rightarrow> (r, s \<lparr> au_peer_attestations := l \<rparr>))"

definition peer_attestations_for :: "InviteAuthority \<Rightarrow> string \<Rightarrow> PeerAttestation list" where
  "peer_attestations_for s account_id = for_peer (au_peer_attestations s) account_id"

subsection \<open>Invites and pairing\<close>

definition authority_create ::
    "authority_lib \<Rightarrow> bytes option \<Rightarrow> u64 \<Rightarrow> string option \<Rightarrow> InviteAuthority
     \<Rightarrow> (string \<times> string) option \<times> InviteAuthority" where
  "authority_create L random now conversation_id s =
     (if \<not> is_ok (authorize (lib_ed L) (au_device_registry s) (au_device_id s) now) then (None, s)
      else case au_root s of
        None \<Rightarrow> (None, s)
      | Some root \<Rightarrow>
          (case random of
             None \<Rightarrow> (None, s)
           | Some bs \<Rightarrow>
               (let entered = invite_code bs;
                    expires_at = sat_add now 600;
                    code_hash = lib_sha L (as_bytes (normalize_code (lib_upper L) entered));
                    payload = invite_payload (hex code_hash)
                      \<lparr> inv_account_id = root_account_id (lib_ed L) root, inv_device_id = au_device_id s,
                        inv_expires_at = expires_at, inv_relay_origin = au_relay_origin s,
                        inv_inbox_url = au_inbox_url s, inv_conversation_id = conversation_id \<rparr>
                in (Some (entered, signed_invite_text (lib_ed L) root payload),
                    s \<lparr> au_pending := Some (code_hash, expires_at) \<rparr>))))"

definition restore_pairing ::
    "authority_lib \<Rightarrow> EncryptedStore \<times> disk \<Rightarrow> InviteAuthority \<Rightarrow> (StorageError + unit) \<times> InviteAuthority" where
  "restore_pairing L st s =
     (case pairing_restore (lib_uri L) (pairing_of L) (au_account_id s) (au_device_id s) st of
        Inl e \<Rightarrow> (Err e, s)
      | Inr p \<Rightarrow> (Ok (), s \<lparr> au_pairing := p \<rparr>))"

text \<open>What the operations on the pairing share: a transition, then the write of the pairing.\<close>

definition pairing_update ::
    "authority_lib \<Rightarrow> commit_io \<Rightarrow> (PairingSession \<Rightarrow> (PairingError + unit) \<times> PairingSession)
     \<Rightarrow> InviteAuthority \<Rightarrow> EncryptedStore \<times> disk
     \<Rightarrow> (PairingError + unit) \<times> InviteAuthority \<times> EncryptedStore \<times> disk" where
  "pairing_update L io f s st =
     (case f (au_pairing s) of
        (Inl e, p) \<Rightarrow> (Err e, s \<lparr> au_pairing := p \<rparr>, st)
      | (Inr _, p) \<Rightarrow>
          (case pairing_persist (pairing_to L) (lib_aes L) io p st of
             (r, st') \<Rightarrow> (if is_ok r then Ok () else Err BadPairingTransition, s \<lparr> au_pairing := p \<rparr>, st')))"

definition authority_mark_invite_created ::
    "authority_lib \<Rightarrow> commit_io \<Rightarrow> InviteAuthority \<Rightarrow> EncryptedStore \<times> disk
     \<Rightarrow> (PairingError + unit) \<times> InviteAuthority \<times> EncryptedStore \<times> disk" where
  "authority_mark_invite_created L io = pairing_update L io mark_invite_created"

definition stage_peer ::
    "authority_lib \<Rightarrow> commit_io \<Rightarrow> VerifiedInvite \<Rightarrow> u64 \<Rightarrow> InviteAuthority \<Rightarrow> EncryptedStore \<times> disk
     \<Rightarrow> (PairingError + unit) \<times> InviteAuthority \<times> EncryptedStore \<times> disk" where
  "stage_peer L io i now s st =
     (case pairing_update L io (verify_peer (lib_uri L) i now) s st of
        (Inl e, s', st') \<Rightarrow> (Err e, s', st')
      | (Inr _, s', st') \<Rightarrow> (Ok (), s' \<lparr> au_staged_peer := Some i \<rparr>, st'))"

definition approve_again :: "u64 \<Rightarrow> PairingSession \<Rightarrow> (PairingError + unit) \<times> PairingSession" where
  "approve_again now p =
     (case approve now p of
        (Inl e, p') \<Rightarrow> (if e = PairingDuplicate then Ok () else Err e, p')
      | (Inr _, p') \<Rightarrow> (Ok (), p'))"

definition approve_pairing ::
    "authority_lib \<Rightarrow> commit_io \<Rightarrow> u64 \<Rightarrow> InviteAuthority \<Rightarrow> EncryptedStore \<times> disk
     \<Rightarrow> (PairingError + unit) \<times> InviteAuthority \<times> EncryptedStore \<times> disk" where
  "approve_pairing L io now = pairing_update L io (approve_again now)"

definition authority_confirm_safety ::
    "authority_lib \<Rightarrow> commit_io \<Rightarrow> string \<Rightarrow> InviteAuthority \<Rightarrow> EncryptedStore \<times> disk
     \<Rightarrow> (PairingError + unit) \<times> InviteAuthority \<times> EncryptedStore \<times> disk" where
  "authority_confirm_safety L io v = pairing_update L io (confirm_safety (lib_sha L) v)"

definition authority_unverify_safety ::
    "authority_lib \<Rightarrow> commit_io \<Rightarrow> InviteAuthority \<Rightarrow> EncryptedStore \<times> disk
     \<Rightarrow> (PairingError + unit) \<times> InviteAuthority \<times> EncryptedStore \<times> disk" where
  "authority_unverify_safety L io = pairing_update L io unverify_safety"

definition reject_pairing ::
    "authority_lib \<Rightarrow> commit_io \<Rightarrow> InviteAuthority \<Rightarrow> EncryptedStore \<times> disk
     \<Rightarrow> (PairingError + unit) \<times> InviteAuthority \<times> EncryptedStore \<times> disk" where
  "reject_pairing L io = pairing_update L io reject"

definition invalidate_relay_binding ::
    "authority_lib \<Rightarrow> commit_io \<Rightarrow> InviteAuthority \<Rightarrow> EncryptedStore \<times> disk
     \<Rightarrow> (PairingError + unit) \<times> InviteAuthority \<times> EncryptedStore \<times> disk" where
  "invalidate_relay_binding L io = pairing_update L io invalidate_binding"

subsection \<open>Devices\<close>

definition set_device_registry :: "DeviceRegistry \<Rightarrow> InviteAuthority \<Rightarrow> InviteAuthority" where
  "set_device_registry r s = s \<lparr> au_device_registry := r \<rparr>"

definition restore_device_registry ::
    "authority_lib \<Rightarrow> bytes \<Rightarrow> InviteAuthority \<Rightarrow> (DeviceRegistryError + unit) \<times> InviteAuthority" where
  "restore_device_registry L encoded s =
     (case registry_decode (lib_ed L) (registry_of L) encoded of
        Inl e \<Rightarrow> (Err e, s)
      | Inr r \<Rightarrow> (Ok (), s \<lparr> au_device_registry := r \<rparr>))"

definition revoke_device_unpersisted ::
    "authority_lib \<Rightarrow> string \<Rightarrow> u64 \<Rightarrow> InviteAuthority
     \<Rightarrow> (DeviceActionError + bytes \<times> bytes) \<times> InviteAuthority" where
  "revoke_device_unpersisted L device_id now s =
     (if device_id = au_device_id s then (Err CurrentDevice, s)
      else case registry_encode (registry_to L) (au_device_registry s) of
        Inl _ \<Rightarrow> (Err (RegistryFailed Corrupt), s)
      | Inr previous \<Rightarrow>
          (case au_root s of
             None \<Rightarrow> (Err RootUnavailable, s)
           | Some root \<Rightarrow>
               (case revoke (lib_ed L) root device_id now (au_device_registry s) of
                  (Inl e, r) \<Rightarrow> (Err (RegistryFailed e), s \<lparr> au_device_registry := r \<rparr>)
                | (Inr _, r) \<Rightarrow>
                    (case registry_encode (registry_to L) r of
                       Inl _ \<Rightarrow> (Err (RegistryFailed Corrupt), s \<lparr> au_device_registry := r \<rparr>)
                     | Inr encoded \<Rightarrow> (Ok (previous, encoded), s \<lparr> au_device_registry := r \<rparr>)))))"

definition registry_key :: record_key where
  "registry_key = (RecordClass.Device, ''registry'')"

text \<open>Writing the registry after a device was added; on a failed write the encoded registry of before is decoded
  again.\<close>

definition store_registry ::
    "authority_lib \<Rightarrow> commit_io \<Rightarrow> bytes \<Rightarrow> DeviceLinkApproval \<Rightarrow> InviteAuthority \<Rightarrow> EncryptedStore \<times> disk
     \<Rightarrow> (DeviceActionError + string) \<times> InviteAuthority \<times> EncryptedStore \<times> disk" where
  "store_registry L io previous approval s st =
     (case registry_encode (registry_to L) (au_device_registry s) of
        Inl _ \<Rightarrow> (Err (RegistryFailed Corrupt), s, st)
      | Inr encoded \<Rightarrow>
          (case store_put (lib_aes L) io registry_key encoded st of
             (Inl _, st') \<Rightarrow>
               (case registry_decode (lib_ed L) (registry_of L) previous of
                  Inl _ \<Rightarrow> (Err (RegistryFailed Corrupt), s, st')
                | Inr r \<Rightarrow> (Err StorageFailed, s \<lparr> au_device_registry := r \<rparr>, st'))
           | (Inr _, st') \<Rightarrow> (map_err LinkFailed (approval_encode (approval_to L) approval), s, st')))"

definition approve_device_link ::
    "authority_lib \<Rightarrow> commit_io \<Rightarrow> DeviceLinkRequest \<Rightarrow> string \<Rightarrow> u64 \<Rightarrow> InviteAuthority \<Rightarrow> EncryptedStore \<times> disk
     \<Rightarrow> (DeviceActionError + string) \<times> InviteAuthority \<times> EncryptedStore \<times> disk" where
  "approve_device_link L io request entered now s st =
     (case au_root s of
        None \<Rightarrow> (Err RootUnavailable, s, st)
      | Some root \<Rightarrow>
          (case request_approve (lib_ed L) (lib_sha L) (lib_upper L) request entered root now of
             Inl e \<Rightarrow> (Err (LinkFailed e), s, st)
           | Inr approval \<Rightarrow>
               (case registry_encode (registry_to L) (au_device_registry s) of
                  Inl _ \<Rightarrow> (Err (RegistryFailed Corrupt), s, st)
                | Inr previous \<Rightarrow>
                    (case register (lib_ed L) (da_certificate approval) now (au_device_registry s) of
                       (Inl e, r) \<Rightarrow> (Err (RegistryFailed e), s \<lparr> au_device_registry := r \<rparr>, st)
                     | (Inr _, r) \<Rightarrow> store_registry L io previous approval (s \<lparr> au_device_registry := r \<rparr>) st))))"

section \<open>What succeeds is stored\<close>

datatype authority_part = ContactsPart | PairingPart | RegistryPart

fun part_key :: "authority_part \<Rightarrow> record_key" where
  "part_key ContactsPart = contacts_key"
| "part_key PairingPart = pairing_key"
| "part_key RegistryPart = registry_key"

text \<open>The record of a part holds what is in memory; without a record the part is as in a new authority.\<close>

fun part_saved :: "authority_lib \<Rightarrow> authority_part \<Rightarrow> InviteAuthority \<Rightarrow> bytes option \<Rightarrow> bool" where
  "part_saved L ContactsPart s None \<longleftrightarrow> au_contacts s = fmempty"
| "part_saved L ContactsPart s (Some bs) \<longleftrightarrow>
     directory_of L bs = Some \<lparr> dir_version = DIRECTORY_VERSION, dir_contacts = au_contacts s \<rparr>"
| "part_saved L PairingPart s None \<longleftrightarrow> au_pairing s = pairing_new (au_account_id s) (au_device_id s)"
| "part_saved L PairingPart s (Some bs) \<longleftrightarrow> pairing_of L bs = Some (snapshot (au_pairing s))"
| "part_saved L RegistryPart s None \<longleftrightarrow>
     (\<exists>root. au_root s = Some root \<and> au_device_registry s = registry_new (lib_ed L) root)"
| "part_saved L RegistryPart s (Some bs) \<longleftrightarrow> registry_of L bs = Some (registry_wire (au_device_registry s))"

text \<open>Serialization of the records that are written: it does not fail on an approval, and what it writes reads back.\<close>

definition json_ok :: "authority_lib \<Rightarrow> bool" where
  "json_ok L \<longleftrightarrow> (\<forall>v b. directory_to L v = Some b \<longrightarrow> directory_of L b = Some v) \<and>
     (\<forall>v b. pairing_to L v = Some b \<longrightarrow> pairing_of L b = Some v) \<and>
     (\<forall>v b. registry_to L v = Some b \<longrightarrow> registry_of L b = Some v) \<and> (\<forall>v. approval_to L v \<noteq> None)"

text \<open>The operations that write, as one type; the answer is whether the operation succeeded.\<close>

datatype AuthorityOp =
    RegisterApproved u64 | SetContactAlias string string | SetContactBlocked string bool | RemoveContact string
  | BindContact string string | MarkContactRead string
  | MarkCreated | StagePeer VerifiedInvite u64 | ApprovePairing u64 | ConfirmPeer string | UnverifyPeer
  | RejectPairing | InvalidateRelay
  | LinkDevice DeviceLinkRequest string u64

definition answered :: "('e + 'a) \<times> 'b \<Rightarrow> bool \<times> 'b" where
  "answered x = (is_ok (fst x), snd x)"

fun authority_op ::
    "authority_lib \<Rightarrow> commit_io \<Rightarrow> AuthorityOp \<Rightarrow> InviteAuthority \<Rightarrow> EncryptedStore \<times> disk
     \<Rightarrow> bool \<times> InviteAuthority \<times> EncryptedStore \<times> disk" where
  "authority_op L io (RegisterApproved now) s st = answered (register_approved_contact L io now s st)"
| "authority_op L io (SetContactAlias a v) s st = answered (set_contact_alias L io a v s st)"
| "authority_op L io (SetContactBlocked a b) s st = answered (set_contact_blocked L io a b s st)"
| "authority_op L io (RemoveContact a) s st = answered (remove_contact L io a s st)"
| "authority_op L io (BindContact a c) s st = answered (bind_contact_conversation L io a c s st)"
| "authority_op L io (MarkContactRead a) s st = answered (mark_contact_read L io a s st)"
| "authority_op L io MarkCreated s st = answered (authority_mark_invite_created L io s st)"
| "authority_op L io (StagePeer i now) s st = answered (stage_peer L io i now s st)"
| "authority_op L io (ApprovePairing now) s st = answered (approve_pairing L io now s st)"
| "authority_op L io (ConfirmPeer v) s st = answered (authority_confirm_safety L io v s st)"
| "authority_op L io UnverifyPeer s st = answered (authority_unverify_safety L io s st)"
| "authority_op L io RejectPairing s st = answered (reject_pairing L io s st)"
| "authority_op L io InvalidateRelay s st = answered (invalidate_relay_binding L io s st)"
| "authority_op L io (LinkDevice r c now) s st = answered (approve_device_link L io r c now s st)"

fun op_part :: "AuthorityOp \<Rightarrow> authority_part" where
  "op_part (LinkDevice r c now) = RegistryPart"
| "op_part MarkCreated = PairingPart"
| "op_part (StagePeer i now) = PairingPart"
| "op_part (ApprovePairing now) = PairingPart"
| "op_part (ConfirmPeer v) = PairingPart"
| "op_part UnverifyPeer = PairingPart"
| "op_part RejectPairing = PairingPart"
| "op_part InvalidateRelay = PairingPart"
| "op_part _ = ContactsPart"

text \<open>What a write of one record under a key does, with the memory it belongs to.\<close>

definition wrote ::
    "authority_lib \<Rightarrow> authority_part \<Rightarrow> bool \<Rightarrow> InviteAuthority \<Rightarrow> EncryptedStore \<times> disk \<Rightarrow> EncryptedStore \<times> disk \<Rightarrow> bool" where
  "wrote L p ok s' st st' \<longleftrightarrow>
     (if ok then part_saved L p s' (store_get (part_key p) st')
           \<and> store_get (part_key p) st' \<noteq> None \<and> (\<forall>k. k \<noteq> part_key p \<longrightarrow> store_get k st' = store_get k st)
      else \<forall>k. store_get k st' = store_get k st)"

lemma put_wrote:
  assumes "store_put C io (part_key p) bs st = (r, st')" "part_saved L p s' (Some bs)"
  shows "wrote L p (is_ok r) s' st st'"
proof (cases r)
  case (Inl e)
  have "store_get k st' = store_get k st" for k
  proof (cases "k = part_key p")
    case True
    then show ?thesis using es.get_put_err [OF assms(1) [unfolded Inl]] by simp
  next
    case False
    then show ?thesis by (rule es.get_put_other [OF assms(1)])
  qed
  then show ?thesis using Inl by (simp add: wrote_def)
next
  case (Inr u)
  have "store_get (part_key p) st' = Some bs"
    using assms(1) Inr by (intro es.get_put_ok) simp
  then show ?thesis
    using es.get_put_other [OF assms(1)] assms(2) Inr by (simp add: wrote_def)
qed

lemma unwritten: "wrote L p False s' st st"
  by (simp add: wrote_def)

lemma contacts_update_wrote:
  assumes "json_ok L" "contacts_update L io f s st = (r, s', st')"
  shows "wrote L ContactsPart (is_ok r) s' st st' \<and> s' = s \<lparr> au_contacts := snd (f (au_contacts s)) \<rparr>"
proof -
  obtain x m where f: "f (au_contacts s) = (x, m)" by (cases "f (au_contacts s)")
  show ?thesis
  proof (cases x)
    case (Inl e)
    then show ?thesis using assms(2) f by (auto simp: contacts_update_def unwritten)
  next
    case (Inr v)
    obtain y st1 where p: "contacts_persist (directory_to L) (lib_aes L) io m st = (y, st1)"
      by (cases "contacts_persist (directory_to L) (lib_aes L) io m st")
    have "(r, s', st') = (if is_ok y then Ok v else Err DirectoryCorrupt, s \<lparr> au_contacts := m \<rparr>, st1)"
      using assms(2) f Inr p by (simp add: contacts_update_def)
    then have r: "is_ok r = is_ok y" "s' = s \<lparr> au_contacts := m \<rparr>" "st' = st1"
      by (simp_all split: if_splits)
    show ?thesis
    proof (cases "directory_to L \<lparr> dir_version = DIRECTORY_VERSION, dir_contacts = m \<rparr>")
      case None
      then have "is_ok y = False" "st1 = st" using p by (auto simp: contacts_persist_def snapshot_bytes_def)
      then show ?thesis using r f by (simp add: unwritten)
    next
      case (Some bs)
      then have "store_put (lib_aes L) io (part_key ContactsPart) bs st = (y, st1)"
        using p by (simp add: contacts_persist_def snapshot_bytes_def)
      moreover have "part_saved L ContactsPart s' (Some bs)"
        using Some assms(1) r(2) by (simp add: json_ok_def)
      ultimately have "wrote L ContactsPart (is_ok y) s' st st1" by (rule put_wrote)
      then show ?thesis using r f by simp
    qed
  qed
qed

lemma pairing_update_wrote:
  assumes "json_ok L" "pairing_update L io f s st = (r, s', st')"
  shows "wrote L PairingPart (is_ok r) s' st st' \<and> s' = s \<lparr> au_pairing := snd (f (au_pairing s)) \<rparr>"
proof -
  obtain x p where f: "f (au_pairing s) = (x, p)" by (cases "f (au_pairing s)")
  show ?thesis
  proof (cases x)
    case (Inl e)
    then show ?thesis using assms(2) f by (auto simp: pairing_update_def unwritten)
  next
    case (Inr v)
    obtain y st1 where w: "pairing_persist (pairing_to L) (lib_aes L) io p st = (y, st1)"
      by (cases "pairing_persist (pairing_to L) (lib_aes L) io p st")
    have "(r, s', st') = (if is_ok y then Ok () else Err BadPairingTransition, s \<lparr> au_pairing := p \<rparr>, st1)"
      using assms(2) f Inr w by (simp add: pairing_update_def)
    then have r: "is_ok r = is_ok y" "s' = s \<lparr> au_pairing := p \<rparr>" "st' = st1"
      by (simp_all split: if_splits)
    show ?thesis
    proof (cases "pairing_to L (snapshot p)")
      case None
      then have "is_ok y = False" "st1 = st" using w by (auto simp: pairing_persist_def)
      then show ?thesis using r f by (simp add: unwritten)
    next
      case (Some bs)
      then have "store_put (lib_aes L) io (part_key PairingPart) bs st = (y, st1)"
        using w by (simp add: pairing_persist_def)
      moreover have "part_saved L PairingPart s' (Some bs)"
        using Some assms(1) r(2) by (simp add: json_ok_def)
      ultimately have "wrote L PairingPart (is_ok y) s' st st1" by (rule put_wrote)
      then show ?thesis using r f by simp
    qed
  qed
qed

lemma stage_peer_wrote:
  assumes "json_ok L" "stage_peer L io i now s st = (r, s', st')"
  shows "wrote L PairingPart (is_ok r) s' st st' \<and>
    (\<exists>v. s' = s \<lparr> au_pairing := snd (verify_peer (lib_uri L) i now (au_pairing s)), au_staged_peer := v \<rparr>)"
proof -
  obtain x s1 st1 where u: "pairing_update L io (verify_peer (lib_uri L) i now) s st = (x, s1, st1)"
    by (cases "pairing_update L io (verify_peer (lib_uri L) i now) s st") auto
  note w = pairing_update_wrote [OF assms(1) u]
  show ?thesis
  proof (cases x)
    case (Inl e)
    then have "r = Err e" "s' = s1" "st' = st1" using assms(2) u by (simp_all add: stage_peer_def)
    with w Inl show ?thesis by (intro conjI exI [of _ "au_staged_peer s"]) (simp_all add: wrote_def)
  next
    case (Inr v)
    then have e: "r = Ok ()" "s' = s1 \<lparr> au_staged_peer := Some i \<rparr>" "st' = st1"
      using assms(2) u by (simp_all add: stage_peer_def)
    have "wrote L PairingPart True s' st st'"
      using w Inr e by (cases "store_get pairing_key st1") (simp_all add: wrote_def)
    with w e show ?thesis by (intro conjI exI [of _ "Some i"]) simp_all
  qed
qed

lemma store_registry_wrote:
  assumes "json_ok L" "store_registry L io previous approval s st = (r, s', st')"
    and "registry_inv (lib_ed L) r0" "registry_encode (registry_to L) r0 = Ok previous"
  shows "wrote L RegistryPart (is_ok r) s' st st' \<and>
    (s' = s \<or> \<not> is_ok r \<and> s' = s \<lparr> au_device_registry := r0 \<rparr>)"
proof (cases "registry_to L (registry_wire (au_device_registry s))")
  case None
  then show ?thesis using assms(2) by (auto simp: store_registry_def registry_encode_def unwritten)
next
  case (Some bs)
  obtain y st1 where p: "store_put (lib_aes L) io (part_key RegistryPart) bs st = (y, st1)"
    by (cases "store_put (lib_aes L) io (part_key RegistryPart) bs st")
  have "part_saved L RegistryPart s (Some bs)" using Some assms(1) by (simp add: json_ok_def)
  with p have w: "wrote L RegistryPart (is_ok y) s st st1" by (rule put_wrote)
  have "registry_of L previous = Some (registry_wire r0)"
    using assms(1,4) by (auto simp: json_ok_def registry_encode_def)
  then have decoded: "registry_decode (lib_ed L) (registry_of L) previous = Ok r0"
    by (rule registry_decode_wire [OF assms(3)])
  show ?thesis
  proof (cases y)
    case (Inl e)
    then have "(r, s', st') = (Err StorageFailed, s \<lparr> au_device_registry := r0 \<rparr>, st1)"
      using assms(2) p Some decoded by (simp add: store_registry_def registry_encode_def)
    with w Inl show ?thesis by (simp add: wrote_def)
  next
    case (Inr u)
    obtain b where "approval_to L (approval_wire approval) = Some b" using assms(1) unfolding json_ok_def by blast
    then have "(r, s', st') = (Ok (APPROVAL_PREFIX @ hex b), s, st1)"
      using assms(2) p Some Inr by (simp add: store_registry_def registry_encode_def approval_encode_def)
    with w Inr show ?thesis by simp
  qed
qed

lemma approved_certificate_wf:
  assumes "ed_correct E" "link_request_wf sha r" "request_approve E sha table r entered root now = Ok a"
  shows "certificate_wf (da_certificate a)"
proof -
  obtain c where c: "issue_device_for_public_key E root (dl_device_id r) (dl_device_public_key r)
      (dl_protocol_package_hash r) now (dl_expires_at r) = Ok c" "da_certificate a = c"
    using assms(3)
    by (cases "issue_device_for_public_key E root (dl_device_id r) (dl_device_public_key r)
          (dl_protocol_package_hash r) now (dl_expires_at r)")
       (auto simp: request_approve_def split: if_splits)
  then obtain d where d: "validate_device_id (dl_device_id r) = Ok d"
      "c = signed_certificate E root d (dl_device_public_key r) (dl_protocol_package_hash r) now (dl_expires_at r)"
    by (auto simp: issue_device_for_public_key_def split: if_splits)
  then show ?thesis
    using assms(1,2) validate_device_id_Ok [OF d(1)] c(2)
    by (simp add: certificate_wf_def link_request_wf_def signed_certificate_def Let_def
        ed_correct_def Identity.KEY_BYTES_def SIGNATURE_BYTES_def MAX_DEVICE_ID_BYTES_def)
qed

lemma approve_device_link_cases:
  assumes "approve_device_link L io request entered now s st = (r, s', st')"
  obtains (refused) "\<not> is_ok r" "s' = s" "st' = st"
  | (added) root approval previous where "au_root s = Some root"
      "request_approve (lib_ed L) (lib_sha L) (lib_upper L) request entered root now = Ok approval"
      "registry_encode (registry_to L) (au_device_registry s) = Ok previous"
      "store_registry L io previous approval (s \<lparr> au_device_registry :=
          snd (register (lib_ed L) (da_certificate approval) now (au_device_registry s)) \<rparr>) st = (r, s', st')"
proof (cases "au_root s")
  case None
  then show thesis using assms refused by (auto simp: approve_device_link_def)
next
  case root: (Some root)
  show thesis
  proof (cases "request_approve (lib_ed L) (lib_sha L) (lib_upper L) request entered root now")
    case (Inl e)
    then show thesis using assms refused root by (auto simp: approve_device_link_def)
  next
    case a: (Inr a)
    show thesis
    proof (cases "registry_encode (registry_to L) (au_device_registry s)")
      case (Inl e)
      then show thesis using assms refused root a by (auto simp: approve_device_link_def)
    next
      case e: (Inr previous)
      obtain x g where g: "register (lib_ed L) (da_certificate a) now (au_device_registry s) = (x, g)"
        by (cases "register (lib_ed L) (da_certificate a) now (au_device_registry s)")
      show thesis
      proof (cases x)
        case (Inl err)
        then have "g = au_device_registry s" using g by (auto simp: register_def split: if_splits sum.splits option.splits)
        then show thesis using assms refused root a e g Inl by (auto simp: approve_device_link_def)
      next
        case (Inr u)
        show thesis
          by (rule added [OF root a e]) (use assms root a e g Inr in \<open>simp add: approve_device_link_def\<close>)
      qed
    qed
  qed
qed

text \<open>Memory after an operation: the identity and the other parts are as before.\<close>

definition same_but :: "authority_part \<Rightarrow> InviteAuthority \<Rightarrow> InviteAuthority \<Rightarrow> bool" where
  "same_but p s s' \<longleftrightarrow>
     au_root s' = au_root s \<and> au_account_id s' = au_account_id s \<and> au_device_id s' = au_device_id s \<and>
     (p \<noteq> ContactsPart \<longrightarrow> au_contacts s' = au_contacts s) \<and> (p \<noteq> PairingPart \<longrightarrow> au_pairing s' = au_pairing s) \<and>
     (p \<noteq> RegistryPart \<longrightarrow> au_device_registry s' = au_device_registry s)"

lemma same_but_saved: "same_but p s s' \<Longrightarrow> q \<noteq> p \<Longrightarrow> part_saved L q s' r = part_saved L q s r"
  by (cases q; cases r) (simp_all add: same_but_def)

lemma part_key_inj: "part_key q = part_key p \<longleftrightarrow> q = p"
  by (cases q; cases p) (simp_all add: contacts_key_def pairing_key_def registry_key_def)

lemma link_wrote:
  assumes "json_ok L" "registry_inv (lib_ed L) (au_device_registry s)"
    and "approve_device_link L io request entered now s st = (r, s', st')"
  shows "wrote L RegistryPart (is_ok r) s' st st' \<and> same_but RegistryPart s s'"
  using assms(3)
proof (cases rule: approve_device_link_cases)
  case refused
  then show ?thesis by (simp add: unwritten same_but_def)
next
  case (added root approval previous)
  from store_registry_wrote [OF assms(1) added(4) assms(2) added(3)] show ?thesis
    by (auto simp: same_but_def)
qed

lemma wrote_ok: "wrote L p True s' st st' \<Longrightarrow> part_saved L p s' (store_get (part_key p) st')"
  by (simp add: wrote_def)

lemma wrote_other:
  assumes "wrote L p ok s' st st'" "\<not> ok \<or> q \<noteq> p"
  shows "store_get (part_key q) st' = store_get (part_key q) st"
  using assms part_key_inj [of q p] unfolding wrote_def by (metis (full_types))

lemma answeredE:
  assumes "answered x = (ok, y)"
  obtains r where "x = (r, y)" "ok = is_ok r"
  using assms by (cases x) (simp add: answered_def)

lemma contacts_answered:
  assumes "json_ok L" "answered (contacts_update L io f s st) = (ok, s', st')"
  shows "wrote L ContactsPart ok s' st st' \<and> same_but ContactsPart s s'"
  using assms(2)
proof (rule answeredE)
  fix r
  assume "contacts_update L io f s st = (r, s', st')" "ok = is_ok r"
  with contacts_update_wrote [OF assms(1) this(1)] show ?thesis by (auto simp: same_but_def)
qed

lemma pairing_answered:
  assumes "json_ok L" "answered (pairing_update L io f s st) = (ok, s', st')"
  shows "wrote L PairingPart ok s' st st' \<and> same_but PairingPart s s'"
  using assms(2)
proof (rule answeredE)
  fix r
  assume "pairing_update L io f s st = (r, s', st')" "ok = is_ok r"
  with pairing_update_wrote [OF assms(1) this(1)] show ?thesis by (auto simp: same_but_def)
qed

lemma register_answered:
  assumes "json_ok L" "answered (register_approved_contact L io now s st) = (ok, s', st')"
  shows "wrote L ContactsPart ok s' st st' \<and> same_but ContactsPart s s'"
proof (cases "pair_peer (au_pairing s)")
  case None
  then show ?thesis
    using assms(2) by (simp add: register_approved_contact_def snapshot_def answered_def unwritten same_but_def)
next
  case (Some p)
  then show ?thesis
    using contacts_answered [OF assms(1), of io "registered_contact p now"] assms(2)
    by (simp add: register_approved_contact_def snapshot_def)
qed

lemmas update_wrappers = set_contact_alias_def set_contact_blocked_def remove_contact_def
  bind_contact_conversation_def mark_contact_read_def authority_mark_invite_created_def approve_pairing_def
  authority_confirm_safety_def authority_unverify_safety_def reject_pairing_def invalidate_relay_binding_def

lemma op_wrote:
  assumes "json_ok L" "registry_inv (lib_ed L) (au_device_registry s)" "authority_op L io op s st = (ok, s', st')"
  shows "wrote L (op_part op) ok s' st st' \<and> same_but (op_part op) s s'"
proof (cases op)
  case (RegisterApproved now)
  then show ?thesis using register_answered [OF assms(1)] assms(3) by simp
next
  case (StagePeer i now)
  then have "answered (stage_peer L io i now s st) = (ok, s', st')" using assms(3) by simp
  then show ?thesis
  proof (rule answeredE)
    fix r
    assume "stage_peer L io i now s st = (r, s', st')" "ok = is_ok r"
    with stage_peer_wrote [OF assms(1) this(1)] StagePeer show ?thesis by (auto simp: same_but_def)
  qed
next
  case (LinkDevice q c now)
  then have "answered (approve_device_link L io q c now s st) = (ok, s', st')" using assms(3) by simp
  then show ?thesis
  proof (rule answeredE)
    fix r
    assume "approve_device_link L io q c now s st = (r, s', st')" "ok = is_ok r"
    with link_wrote [OF assms(1,2) this(1)] LinkDevice show ?thesis by simp
  qed
qed (use assms(3) contacts_answered [OF assms(1)] pairing_answered [OF assms(1)] in \<open>simp_all add: update_wrappers\<close>)

section \<open>Restart\<close>

fun op_wf :: "authority_lib \<Rightarrow> AuthorityOp \<Rightarrow> bool" where
  "op_wf L (LinkDevice r c now) \<longleftrightarrow> link_request_wf (lib_sha L) r"
| "op_wf L _ \<longleftrightarrow> True"

lemma pairing_update_op:
  assumes "json_ok L" "answered (pairing_update L io f s st) = (ok, s', st')"
    and "\<And>p. snd (f p) = snd (pairing_op (lib_uri L) (lib_sha L) a p)"
  shows "\<exists>a r. pairing_op (lib_uri L) (lib_sha L) a (au_pairing s) = (r, au_pairing s')"
  using assms(2)
proof (rule answeredE)
  fix r
  assume "pairing_update L io f s st = (r, s', st')"
  from pairing_update_wrote [OF assms(1) this] assms(3)
  have "pairing_op (lib_uri L) (lib_sha L) a (au_pairing s)
      = (fst (pairing_op (lib_uri L) (lib_sha L) a (au_pairing s)), au_pairing s')"
    by (auto simp: prod_eq_iff)
  then show ?thesis by blast
qed

lemma snd_approve_again: "snd (approve_again now p) = snd (approve now p)"
  by (auto simp: approve_again_def split: prod.split sum.split)

text \<open>On the pairing an operation is one of the transitions of the pairing, or nothing.\<close>

lemma op_pairing:
  assumes "json_ok L" "authority_op L io op s st = (ok, s', st')" "op_part op = PairingPart"
  shows "\<exists>a r. pairing_op (lib_uri L) (lib_sha L) a (au_pairing s) = (r, au_pairing s')"
proof (cases op)
  case (StagePeer i now)
  then have "answered (stage_peer L io i now s st) = (ok, s', st')" using assms(2) by simp
  then show ?thesis
  proof (rule answeredE)
    fix r
    assume "stage_peer L io i now s st = (r, s', st')"
    from stage_peer_wrote [OF assms(1) this]
    have "pairing_op (lib_uri L) (lib_sha L) (VerifyPeer i now) (au_pairing s)
        = (fst (verify_peer (lib_uri L) i now (au_pairing s)), au_pairing s')" by auto
    then show ?thesis by blast
  qed
next
  case MarkCreated
  then show ?thesis using pairing_update_op [OF assms(1), of io mark_invite_created s st ok s' st' MarkInviteCreated] assms(2)
    by (simp add: authority_mark_invite_created_def)
next
  case (ApprovePairing now)
  then show ?thesis using pairing_update_op [OF assms(1), of io "approve_again now" s st ok s' st' "Approve now"] assms(2)
    by (simp add: approve_pairing_def snd_approve_again)
next
  case (ConfirmPeer v)
  then show ?thesis using pairing_update_op [OF assms(1), of io "confirm_safety (lib_sha L) v" s st ok s' st' "ConfirmSafety v"] assms(2)
    by (simp add: authority_confirm_safety_def)
next
  case UnverifyPeer
  then show ?thesis using pairing_update_op [OF assms(1), of io unverify_safety s st ok s' st' UnverifySafety] assms(2)
    by (simp add: authority_unverify_safety_def)
next
  case RejectPairing
  then show ?thesis using pairing_update_op [OF assms(1), of io reject s st ok s' st' Reject] assms(2)
    by (simp add: reject_pairing_def)
next
  case InvalidateRelay
  then show ?thesis using pairing_update_op [OF assms(1), of io invalidate_binding s st ok s' st' InvalidateBinding] assms(2)
    by (simp add: invalidate_relay_binding_def)
qed (use assms(3) in simp_all)

lemma op_registry_inv:
  assumes "json_ok L" "ed_correct (lib_ed L)" "op_wf L op" "registry_inv (lib_ed L) (au_device_registry s)"
    and "authority_op L io op s st = (ok, s', st')"
  shows "registry_inv (lib_ed L) (au_device_registry s')"
proof (cases "op_part op = RegistryPart")
  case False
  then show ?thesis using op_wrote [OF assms(1,4,5)] assms(4) by (simp add: same_but_def)
next
  case True
  then obtain q c now where op: "op = LinkDevice q c now" by (cases op) simp_all
  then have "answered (approve_device_link L io q c now s st) = (ok, s', st')" using assms(5) by simp
  then obtain r where "approve_device_link L io q c now s st = (r, s', st')" by (rule answeredE)
  then show ?thesis
  proof (cases rule: approve_device_link_cases)
    case refused
    then show ?thesis using assms(4) by simp
  next
    case (added root approval previous)
    have "certificate_wf (da_certificate approval)"
      using approved_certificate_wf [OF assms(2) _ added(2)] assms(3) op by simp
    from register_inv [OF assms(4) this, of now] store_registry_wrote [OF assms(1) added(4) assms(4) added(3)] assms(4)
    show ?thesis by auto
  qed
qed

definition authority_wf :: "authority_lib \<Rightarrow> InviteAuthority \<Rightarrow> bool" where
  "authority_wf L s \<longleftrightarrow> registry_inv (lib_ed L) (au_device_registry s) \<and>
     pairing_shape (lib_uri L) (au_pairing s) \<and> local_account_id (au_pairing s) = au_account_id s \<and>
     local_device_id (au_pairing s) = au_device_id s"

lemma op_keeps_wf:
  assumes "json_ok L" "ed_correct (lib_ed L)" "authority_wf L s" "op_wf L op" "authority_op L io op s st = (ok, s', st')"
  shows "authority_wf L s' \<and> same_but (op_part op) s s'"
proof -
  have inv: "registry_inv (lib_ed L) (au_device_registry s)" "pairing_shape (lib_uri L) (au_pairing s)"
    "local_account_id (au_pairing s) = au_account_id s" "local_device_id (au_pairing s) = au_device_id s"
    using assms(3) by (simp_all add: authority_wf_def)
  have b: "same_but (op_part op) s s'" using op_wrote [OF assms(1) inv(1) assms(5)] by simp
  have "pairing_shape (lib_uri L) (au_pairing s') \<and> local_account_id (au_pairing s') = au_account_id s
      \<and> local_device_id (au_pairing s') = au_device_id s"
  proof (cases "op_part op = PairingPart")
    case True
    then obtain a r where "pairing_op (lib_uri L) (lib_sha L) a (au_pairing s) = (r, au_pairing s')"
      using op_pairing [OF assms(1,5)] by blast
    from pairing_op_shape [OF inv(2) this] pairing_op_local [OF this] inv(3,4) show ?thesis by simp
  next
    case False
    then show ?thesis using b inv by (simp add: same_but_def)
  qed
  then show ?thesis
    using b op_registry_inv [OF assms(1,2,4) inv(1) assms(5)] by (simp add: authority_wf_def same_but_def)
qed


definition authority_inv :: "authority_lib \<Rightarrow> InviteAuthority \<Rightarrow> EncryptedStore \<times> disk \<Rightarrow> bool" where
  "authority_inv L s st \<longleftrightarrow> authority_wf L s \<and> (\<forall>p. part_saved L p s (store_get (part_key p) st))"

text \<open>A run in which every operation succeeds or leaves the memory as it was.\<close>

inductive authority_run ::
    "authority_lib \<Rightarrow> InviteAuthority \<Rightarrow> EncryptedStore \<times> disk \<Rightarrow> InviteAuthority \<Rightarrow> EncryptedStore \<times> disk \<Rightarrow> bool"
  for L s0 st0 where
  begin_run: "authority_run L s0 st0 s0 st0"
| next_op: "authority_run L s0 st0 s st \<Longrightarrow> op_wf L op \<Longrightarrow> authority_op L io op s st = (ok, s', st') \<Longrightarrow>
    ok \<or> s' = s \<Longrightarrow> authority_run L s0 st0 s' st'"

lemma op_inv:
  assumes "json_ok L" "ed_correct (lib_ed L)" "authority_inv L s st" "op_wf L op"
    and "authority_op L io op s st = (ok, s', st')" "ok \<or> s' = s"
  shows "authority_inv L s' st' \<and> same_but (op_part op) s s'"
proof -
  have wf: "authority_wf L s" and inv: "part_saved L p s (store_get (part_key p) st)" for p
    using assms(3) by (simp_all add: authority_inv_def)
  have w: "wrote L (op_part op) ok s' st st'"
    using op_wrote [OF assms(1) _ assms(5)] wf by (simp add: authority_wf_def)
  have b: "authority_wf L s'" "same_but (op_part op) s s'" using op_keeps_wf [OF assms(1,2) wf assms(4,5)] by simp_all
  have saved: "part_saved L p s' (store_get (part_key p) st')" for p
  proof (cases "ok \<and> p = op_part op")
    case True
    then show ?thesis using wrote_ok [of L "op_part op" s' st st'] w by simp
  next
    case False
    then have "store_get (part_key p) st' = store_get (part_key p) st" "part_saved L p s' r = part_saved L p s r" for r
      using wrote_other [OF w, of p] same_but_saved [OF b(2), of p] assms(6) by auto
    then show ?thesis using inv [of p] by simp
  qed
  then show ?thesis using b by (simp add: authority_inv_def)
qed

lemma run_inv:
  assumes "json_ok L" "ed_correct (lib_ed L)" "authority_run L s0 st0 s st" "authority_inv L s0 st0"
  shows "authority_inv L s st \<and> au_root s = au_root s0 \<and> au_account_id s = au_account_id s0 \<and> au_device_id s = au_device_id s0"
  using assms(3)
proof (induction rule: authority_run.induct)
  case (next_op s st op io ok s' st')
  from op_inv [OF assms(1,2) _ next_op.hyps(2,3,4)] next_op.IH show ?case by (simp add: same_but_def)
qed (use assms(4) in simp)

lemma new_authority_inv:
  assumes "ed_correct (lib_ed L)" "\<And>p. store_get (part_key p) st = None"
  shows "authority_inv L (authority_new L root device origin inbox pk pin trust) st"
proof -
  have "length (ed_public (lib_ed L) root) = 32" using assms(1) by (simp add: ed_correct_def)
  moreover have "part_saved L p (authority_new L root device origin inbox pk pin trust) None" for p
    by (cases p) (simp_all add: authority_new_def new_internal_def Let_def)
  ultimately show ?thesis
    using assms(2)
    by (simp add: authority_inv_def authority_wf_def authority_new_def new_internal_def Let_def registry_new_def new_registry_inv)
       (simp add: pairing_new_def)
qed

lemma restore_pairing_saved:
  assumes "authority_inv L s st" "au_account_id s0 = au_account_id s" "au_device_id s0 = au_device_id s"
  shows "restore_pairing L st s0 =
    (if pair_state (au_pairing s) = InviteCreated \<and> pair_peer (au_pairing s) \<noteq> None then (Err CorruptStore, s0)
     else (Ok (), s0 \<lparr> au_pairing := au_pairing s \<rparr>))"
proof -
  have i: "pairing_shape (lib_uri L) (au_pairing s)" "local_account_id (au_pairing s) = au_account_id s"
    "local_device_id (au_pairing s) = au_device_id s" "part_saved L PairingPart s (store_get pairing_key st)"
    using assms(1) unfolding authority_inv_def authority_wf_def by (metis part_key.simps(2))+
  show ?thesis
  proof (cases "store_get pairing_key st")
    case None
    then have "au_pairing s = pairing_new (au_account_id s) (au_device_id s)" using i(4) by simp
    then show ?thesis using None assms(2,3) by (simp add: restore_pairing_def pairing_restore_def pairing_new_def)
  next
    case (Some bs)
    then have "pairing_of L bs = Some (snapshot (au_pairing s))" using i(4) by simp
    from pairing_restore_snapshot [where of_json = "pairing_of L", OF Some this i(1)] show ?thesis
      using i(2,3) assms(2,3) by (simp add: restore_pairing_def)
  qed
qed

lemma restore_contacts_saved:
  assumes "authority_inv L s st"
  shows "restore_contacts L st s0 =
    (if fcard (fmdom (au_contacts s)) \<le> MAX_CONTACTS \<and> fmpred valid_persisted_contact (au_contacts s)
     then (Ok (), s0 \<lparr> au_contacts := au_contacts s \<rparr>) else (Err CorruptStore, s0))"
proof (cases "store_get contacts_key st")
  case None
  then have "au_contacts s = fmempty"
    using assms unfolding authority_inv_def by (metis part_key.simps(1) part_saved.simps(1))
  then show ?thesis using None by (simp add: restore_contacts_def contacts_restore_def fcard_fempty)
next
  case (Some bs)
  then have "directory_of L bs = Some \<lparr> dir_version = DIRECTORY_VERSION, dir_contacts = au_contacts s \<rparr>"
    using assms unfolding authority_inv_def by (metis part_key.simps(1) part_saved.simps(2))
  from contacts_restore_saved [where of_json = "directory_of L", OF Some this] show ?thesis by (simp add: restore_contacts_def)
qed

lemma restore_registry_saved:
  assumes "authority_inv L s st" "store_get registry_key st = Some bs"
  shows "restore_device_registry L bs s0 = (Ok (), s0 \<lparr> au_device_registry := au_device_registry s \<rparr>)"
proof -
  have "registry_inv (lib_ed L) (au_device_registry s)" "registry_of L bs = Some (registry_wire (au_device_registry s))"
    using assms unfolding authority_inv_def authority_wf_def by (metis part_key.simps(3) part_saved.simps(6))+
  from registry_decode_wire [where of_json = "registry_of L", OF this] show ?thesis by (simp add: restore_device_registry_def)
qed

text \<open>C25. A daemon that restarts is the one that stopped.  Take any run of the operations that write, from a new
  authority on an empty store, in which every operation succeeded or left the memory as it was: an authority
  that starts again from the same root and reads the store has the same pairing, contacts and devices.  The
  exceptions are the ones of the loaders: an invite created over a pairing that kept its peer, and a contact that
  the loader of the directory does not accept, are refused and nothing else is read in their place.\<close>
theorem authority_restart:
  assumes "json_ok L" "ed_correct (lib_ed L)" "s0 = authority_new L root device origin inbox pk pin trust"
    and "\<And>p. store_get (part_key p) st0 = None" "authority_run L s0 st0 s st"
  shows "restore_pairing L st s0 =
      (if pair_state (au_pairing s) = InviteCreated \<and> pair_peer (au_pairing s) \<noteq> None then (Err CorruptStore, s0)
       else (Ok (), s0 \<lparr> au_pairing := au_pairing s \<rparr>))
    \<and> restore_contacts L st s0 =
      (if fcard (fmdom (au_contacts s)) \<le> MAX_CONTACTS \<and> fmpred valid_persisted_contact (au_contacts s)
       then (Ok (), s0 \<lparr> au_contacts := au_contacts s \<rparr>) else (Err CorruptStore, s0))
    \<and> (case store_get registry_key st of
        None \<Rightarrow> au_device_registry s = au_device_registry s0
      | Some bs \<Rightarrow> restore_device_registry L bs s0 = (Ok (), s0 \<lparr> au_device_registry := au_device_registry s \<rparr>))"
proof -
  have inv: "authority_inv L s st" "au_root s = au_root s0" "au_account_id s0 = au_account_id s" "au_device_id s0 = au_device_id s"
    using run_inv [OF assms(1,2,5)] new_authority_inv [OF assms(2,4)] assms(3) by simp_all
  have "part_saved L RegistryPart s (store_get registry_key st)"
    using inv(1) unfolding authority_inv_def by (metis part_key.simps(3))
  then have "au_device_registry s = au_device_registry s0" if "store_get registry_key st = None"
    using that inv(2) by (auto simp: assms(3) authority_new_def new_internal_def Let_def)
  then have "case store_get registry_key st of None \<Rightarrow> au_device_registry s = au_device_registry s0
    | Some bs \<Rightarrow> restore_device_registry L bs s0 = (Ok (), s0 \<lparr> au_device_registry := au_device_registry s \<rparr>)"
    using restore_registry_saved [OF inv(1)] by (cases "store_get registry_key st") simp_all
  then show ?thesis
    using restore_pairing_saved [OF inv(1,3,4)] restore_contacts_saved [OF inv(1)] by blast
qed

section \<open>Created invites\<close>

lemma utf8_decode_concat: "utf8_decode s = Some cs \<Longrightarrow> utf8_decode (s @ t) = map_option ((@) cs) (utf8_decode t)"
proof (induction s arbitrary: cs rule: utf8_decode.induct)
  case 1
  then show ?case by (cases "utf8_decode t") simp_all
next
  case (2 c s)
  then show ?case
    by (cases "utf8_decode t") (auto split: if_splits list.splits)
qed

lemma utf8_valid_concat: "utf8_valid s \<Longrightarrow> utf8_valid t \<Longrightarrow> utf8_valid (s @ t)"
  using utf8_decode_concat by (auto simp: utf8_valid_def)

lemma utf8_valid_join: "list_all utf8_valid ss \<Longrightarrow> is_ascii c \<Longrightarrow> utf8_valid (join_with c ss)"
proof (induction c ss rule: join_with.induct)
  case (3 c s t ts)
  have "utf8_valid [c]" using 3(3) by (intro utf8_valid_ascii) simp
  then show ?case using 3 utf8_valid_concat [of "[c]" "join_with c (t # ts)"] by (auto intro: utf8_valid_concat)
qed (simp_all add: utf8_valid_def)

lemma utf8_valid_payload:
  assumes "list_all utf8_valid [inv_account_id v, inv_device_id v, inv_relay_origin v]"
    "\<forall>i. inv_inbox_url v = Some i \<longrightarrow> utf8_valid i" "\<forall>c. inv_conversation_id v = Some c \<longrightarrow> utf8_valid c"
  shows "utf8_valid (invite_payload (hex h) v)"
proof -
  have "utf8_valid (hex h)" "utf8_valid (u64_to_string (inv_expires_at v))" "utf8_valid []"
    "utf8_valid ''another-dimension/invite/v1''" "is_ascii newline"
    by (auto intro!: utf8_valid_ascii simp: ascii_hex u64_to_string_def dec_string_ascii is_ascii_def)
  with assms show ?thesis
    unfolding invite_payload_def by (intro utf8_valid_join) (simp_all split: option.split)
qed

lemma normalize_invite_code: "normalize_code table (invite_code random) = invite_code random"
proof -
  have h: "list_all is_ascii_hexdigit (hex random)" by (rule hex_all_hexdigits)
  then have "list_all is_ascii (invite_code random)" "map ascii_upper (invite_code random) = invite_code random"
    "filter (\<lambda>c. c \<noteq> CHR ''-'') (invite_code random) = invite_code random"
    using ascii_upper_hexdigit
    by (auto simp: invite_code_def to_ascii_uppercase_def list_all_iff intro!: filter_True)
  then show ?thesis by (simp add: normalize_code_ascii to_ascii_uppercase_def)
qed

definition created_invite :: "ed25519 \<Rightarrow> bytes \<Rightarrow> u64 \<Rightarrow> string option \<Rightarrow> InviteAuthority \<Rightarrow> VerifiedInvite" where
  "created_invite E root now conversation_id s =
     \<lparr> inv_account_id = root_account_id E root, inv_device_id = au_device_id s, inv_expires_at = sat_add now 600,
       inv_relay_origin = au_relay_origin s, inv_inbox_url = au_inbox_url s,
       inv_conversation_id = conversation_id \<rparr>"

lemma authority_create_cases:
  assumes "authority_create L random now conversation_id s = (r, s')"
  obtains "r = None" "s' = s"
  | root bs where "au_root s = Some root" "random = Some bs"
      "authorize (lib_ed L) (au_device_registry s) (au_device_id s) now = Ok ()"
      "r = Some (invite_code bs, signed_invite_text (lib_ed L) root
         (invite_payload (hex (lib_sha L (as_bytes (invite_code bs)))) (created_invite (lib_ed L) root now conversation_id s)))"
      "s' = s \<lparr> au_pending := Some (lib_sha L (as_bytes (invite_code bs)), sat_add now 600) \<rparr>"
proof (cases "authorize (lib_ed L) (au_device_registry s) (au_device_id s) now")
  case (Inl e)
  then show thesis using assms that(1) by (simp add: authority_create_def)
next
  case (Inr u)
  show thesis
  proof (cases "au_root s = None \<or> random = None")
    case True
    then show thesis using assms that(1) by (cases "au_root s"; cases random) (simp_all add: authority_create_def split: if_splits)
  next
    case False
    then obtain root bs where "au_root s = Some root" "random = Some bs" by auto
    then show thesis
      using assms that(2) [of root bs] Inr
      by (simp add: authority_create_def Let_def normalize_invite_code created_invite_def)
  qed
qed

text \<open>C26. An invite the daemon creates is one its peer accepts, and only an authorized device creates one.  When
  an invite is created, the device has a certificate of the account that is valid and not revoked at that
  moment; a peer who enters the code, with any dashes, at any time from then until ten minutes later gets exactly the
  account, device, relay, inbox and conversation of the daemon; and the daemon remembers the hash of the code and
  the expiry.\<close>
theorem created_invite_accepted:
  assumes "ed_correct (lib_ed L)" "sha_sized (lib_sha L)" "au_root s = Some root"
    and "authority_create L (Some random) now conversation s = (Some (entered, wire), s')" "random \<noteq> []"
    and "v = created_invite (lib_ed L) root now conversation s" "invite_lines_ok v"
    and "list_all utf8_valid [au_device_id s, au_relay_origin s]"
      "\<forall>i. au_inbox_url s = Some i \<longrightarrow> utf8_valid i \<and> is_ok (validate_bound_inbox_url (lib_uri L) (au_relay_origin s) i)"
      "\<forall>c. conversation = Some c \<longrightarrow> utf8_valid c \<and> starts_with c ''adconv'' \<and> length c \<le> 80"
    and "now \<le> t" "unat t < unat now + 600" "unat now + 600 < 2 ^ 64" "without_dashes typed = entered"
  shows "authorize (lib_ed L) (au_device_registry s) (au_device_id s) now = Ok ()
    \<and> verify_signed_invite (lib_uri L) (lib_sha L) (lib_ed L) typed wire t = Some v
    \<and> au_pending s' = Some (lib_sha L (as_bytes entered), now + 600)"
proof -
  let ?payload = "invite_payload (hex (lib_sha L (as_bytes (invite_code random)))) v"
  have "authorize (lib_ed L) (au_device_registry s) (au_device_id s) now = Ok () \<and> entered = invite_code random
      \<and> wire = signed_invite_text (lib_ed L) root ?payload
      \<and> au_pending s' = Some (lib_sha L (as_bytes (invite_code random)), sat_add now 600)"
    using assms(4) by (cases rule: authority_create_cases) (auto simp: assms(3,6))
  then have c: "authorize (lib_ed L) (au_device_registry s) (au_device_id s) now = Ok ()" "entered = invite_code random"
    "wire = signed_invite_text (lib_ed L) root ?payload"
    "au_pending s' = Some (lib_sha L (as_bytes (invite_code random)), sat_add now 600)"
    by simp_all
  have e: "sat_add now 600 = now + 600" "unat (now + 600) = unat now + 600"
    using assms(13) by (simp_all add: sat_add_def unat_word_ariths)
  have root: "inv_account_id v = root_account_id (lib_ed L) root" by (simp add: assms(6) created_invite_def)
  have plausible: "invite_plausible (lib_uri L) v t"
    using assms(9-13) e
    by (simp add: invite_plausible_def assms(6) created_invite_def root_account_id_def account_id_from_public_def
        starts_with_def word_less_nat_alt word_le_nat_alt unat_sat_add MAX_INVITE_TTL_SECONDS_def split: option.split)
  have "list_all is_ascii (root_account_id (lib_ed L) root)"
    by (simp add: root_account_id_def account_id_from_public_def ascii_hex is_ascii_def)
  then have utf8: "utf8_valid ?payload"
    using assms(8-10) by (intro utf8_valid_payload) (simp_all add: assms(6) created_invite_def utf8_valid_ascii)
  have "typed \<noteq> []"
    using assms(5,14) c(2)
    by (cases random) (auto simp: invite_code_def to_ascii_uppercase_def without_dashes_def)
  with verify_signed_text [OF assms(1,2) root assms(7) plausible refl utf8, of "Some typed"] show ?thesis
    using c e assms(14) by (simp add: verify_signed_invite_def)
qed

section \<open>Attachments in memory stay within the limits\<close>

datatype AttachmentOp =
    StartJob "bytes option" string nat "string option" "string option" u64
  | AppendPiece "bytes option" string u32 bytes
  | FinishJob string u64
  | TakeCompleted string
  | TakeIfEqual string EncryptedAttachment
  | CancelAttachment commit_io string
  | StageReceived string AttachmentDescriptor
  | ClearAttachments
  | PurgeAttachments u64

fun attachment_op ::
    "authority_lib \<Rightarrow> AttachmentOp \<Rightarrow> InviteAuthority \<times> EncryptedStore \<times> disk \<Rightarrow> InviteAuthority \<times> EncryptedStore \<times> disk" where
  "attachment_op L (StartJob random k full f m now) (s, st) = (snd (attachment_start random k full f m now s), st)"
| "attachment_op L (AppendPiece random k i p) (s, st) = (snd (attachment_append L random k i p s), st)"
| "attachment_op L (FinishJob k now) (s, st) = (snd (attachment_finish k now s), st)"
| "attachment_op L (TakeCompleted k) (s, st) = (snd (take_completed_attachment k s), st)"
| "attachment_op L (TakeIfEqual k a) (s, st) = (snd (take_completed_attachment_if_equal k a s), st)"
| "attachment_op L (CancelAttachment io k) (s, st) = snd (cancel_attachment L io k s st)"
| "attachment_op L (StageReceived k d) (s, st) = (snd (stage_received_attachment L k d s), st)"
| "attachment_op L ClearAttachments (s, st) = (clear_attachment_state s, st)"
| "attachment_op L (PurgeAttachments now) (s, st) = (purge_attachment_state now s, st)"

fun attachment_op_wf :: "AttachmentOp \<Rightarrow> bool" where
  "attachment_op_wf (AppendPiece random k i p) \<longleftrightarrow> (\<forall>n. random = Some n \<longrightarrow> length n = 12)"
| "attachment_op_wf _ \<longleftrightarrow> True"

definition blob_bytes :: "(string, EncryptedAttachment) btree \<Rightarrow> nat" where
  "blob_bytes m = (\<Sum>k \<in> fset (fmdom m). length (ea_blob (the (fmlookup m k))))"

lemma completed_bytes_eq: "completed_bytes s = blob_bytes (au_completed_attachments s)"
  by (simp add: completed_bytes_def blob_bytes_def sorted_list_of_fmap_def sorted_list_of_fset.rep_eq comp_def
      sum_list_distinct_conv_sum_set)

lemma blob_bytes_drop: "blob_bytes (fmdrop k m) \<le> blob_bytes m"
  unfolding blob_bytes_def by (rule order_trans [OF eq_refl sum_mono2 [of "fset (fmdom m)"]]) (auto intro!: sum.cong)

lemma blob_bytes_upd: "blob_bytes (fmupd k a m) \<le> blob_bytes m + length (ea_blob a)"
proof -
  have "blob_bytes (fmupd k a m) = length (ea_blob a) + blob_bytes (fmdrop k m)"
    unfolding blob_bytes_def
    by (subst sum.remove [of _ k]) (auto intro!: sum.cong split: if_splits)
  then show ?thesis using blob_bytes_drop [of k m] by simp
qed

lemma fcard_drop: "fcard (fmdom (fmdrop k m)) \<le> fcard (fmdom m)"
  by (rule fcard_mono) auto

definition job_room :: "store_crypto \<Rightarrow> (string, EncryptedAttachment) btree \<Rightarrow> AttachmentJob \<Rightarrow> bool" where
  "job_room C m job \<longleftrightarrow> (\<exists>ps. job_inv C job ps) \<and> fcard (fmdom m) < MAX_COMPLETED_ATTACHMENT_COUNT \<and>
     blob_bytes m + job_total job \<le> MAX_COMPLETED_ATTACHMENT_BYTES"

definition attachments_inv :: "store_crypto \<Rightarrow> InviteAuthority \<Rightarrow> bool" where
  "attachments_inv C s \<longleftrightarrow>
     (\<forall>k job. fmlookup (au_attachment_jobs s) k = Some job \<longrightarrow>
        au_attachment_jobs s = fmupd k job fmempty \<and> job_room C (au_completed_attachments s) job) \<and>
     fcard (fmdom (au_completed_attachments s)) \<le> MAX_COMPLETED_ATTACHMENT_COUNT \<and>
     blob_bytes (au_completed_attachments s) \<le> MAX_COMPLETED_ATTACHMENT_BYTES + 8 * 1024"

lemma job_room_drop: "job_room C m job \<Longrightarrow> job_room C (fmdrop k m) job"
  using fcard_drop [of k m] blob_bytes_drop [of k m] unfolding job_room_def
  by (elim conjE, intro conjI) (blast | linarith)+

lemma inv_drop_completed:
  "attachments_inv C s \<Longrightarrow> attachments_inv C (s \<lparr> au_completed_attachments := fmdrop k (au_completed_attachments s) \<rparr>)"
  using fcard_drop [of k "au_completed_attachments s"] blob_bytes_drop [of k "au_completed_attachments s"]
  by (auto simp: attachments_inv_def job_room_drop)

lemma inv_drop_job:
  "attachments_inv C s \<Longrightarrow> attachments_inv C (s \<lparr> au_attachment_jobs := fmdrop k (au_attachment_jobs s) \<rparr>)"
  by (auto simp: attachments_inv_def split: if_splits) (metis fmdrop_fmupd fmdrop_empty)+

lemma attachments_inv_cong:
  "au_attachment_jobs s' = au_attachment_jobs s \<Longrightarrow> au_completed_attachments s' = au_completed_attachments s \<Longrightarrow>
     attachments_inv C s' = attachments_inv C s"
  by (simp add: attachments_inv_def)

lemma job_blob_length:
  assumes "aead_correct C" "job_inv C job ps"
  shows "length (job_blob job) \<le> job_total job + 8 * 1024"
proof -
  have s: "sealed_as C (job_key job) (of_nat (job_total job)) 0 ps (job_chunks job) (job_blob job)"
    and b: "length (concat ps) \<le> job_total job" "job_total job \<le> MAX_ATTACHMENT_BYTES" "full_chunks ps"
    using assms(2) by (simp_all add: job_inv_def)
  have "(length ps - 1) * 65536 < 33554432 \<or> ps = []"
    using full_chunks_count [OF b(3)] b(1,2) by (auto simp: CHUNK_SIZE_def MAX_ATTACHMENT_BYTES_def)
  then have "length ps \<le> 512" by (cases ps) auto
  then show ?thesis using sealed_length [OF assms(1) s] b(1) by simp
qed

lemma start_inv:
  assumes "attachments_inv C s"
  shows "attachments_inv C (snd (attachment_start random k full f m now s))"
proof (cases "au_attachment_jobs s \<noteq> fmempty \<or> MAX_COMPLETED_ATTACHMENT_COUNT \<le> fcard (fmdom (au_completed_attachments s))
    \<or> MAX_COMPLETED_ATTACHMENT_BYTES < min (2 ^ 64 - 1) (completed_bytes s + full)")
  case True
  then have "snd (attachment_start random k full f m now s) = s"
    unfolding attachment_start_def by (simp only: if_True snd_conv split: if_split) simp
  then show ?thesis using assms by simp
next
  case free: False
  then have room: "au_attachment_jobs s = fmempty" "fcard (fmdom (au_completed_attachments s)) < MAX_COMPLETED_ATTACHMENT_COUNT"
    "completed_bytes s + full \<le> MAX_COMPLETED_ATTACHMENT_BYTES"
    by (simp_all add: MAX_COMPLETED_ATTACHMENT_BYTES_def)
  show ?thesis
  proof (cases "start_with_metadata random k full f m")
    case (Inl e)
    then have "snd (attachment_start random k full f m now s) = s"
      unfolding attachment_start_def if_not_P [OF free] by simp
    then show ?thesis using assms by simp
  next
    case (Inr job)
    have "job_total job = full" using Inr by (auto simp: start_with_metadata_def split: if_splits)
    then have "job_room C (au_completed_attachments s) job"
      using started(1) [OF Inr, of C] room(2,3) by (auto simp: job_room_def completed_bytes_eq)
    moreover have "attachment_start random k full f m now s =
      (Ok (), s \<lparr> au_attachment_jobs := fmupd k job (au_attachment_jobs s),
             au_attachment_job_started_at := fmupd k now (au_attachment_job_started_at s) \<rparr>)"
      using Inr room(1) unfolding attachment_start_def if_not_P [OF free] by simp
    ultimately show ?thesis
      using assms room(1) by (simp add: attachments_inv_def)
  qed
qed

lemma fmupd_twice: "fmupd k a (fmupd k b m) = fmupd k a m"
  by (rule fmap_ext) simp

lemma append_inv:
  assumes "attachments_inv (lib_aes L) s" "\<forall>n. random = Some n \<longrightarrow> length n = 12"
  shows "attachments_inv (lib_aes L) (snd (attachment_append L random k i p s))"
proof (cases "fmlookup (au_attachment_jobs s) k")
  case None
  then show ?thesis using assms by (simp add: attachment_append_def)
next
  case (Some job)
  then have j: "au_attachment_jobs s = fmupd k job fmempty" "job_room (lib_aes L) (au_completed_attachments s) job"
    using assms(1) by (auto simp: attachments_inv_def)
  then obtain ps where ps: "job_inv (lib_aes L) job ps" by (auto simp: job_room_def)
  obtain r job' where a: "append_chunk (lib_aes L) random i p job = (r, job')"
    by (cases "append_chunk (lib_aes L) random i p job")
  have "\<exists>qs. job_inv (lib_aes L) job' qs \<and> job_total job' = job_total job"
  proof (cases r)
    case (Inl e)
    then show ?thesis using append_chunk_Err a ps by metis
  next
    case (Inr u)
    then show ?thesis using append_chunk_inv [OF _ ps assms(2)] a by (auto simp: job_meta_def)
  qed
  then have "job_room (lib_aes L) (au_completed_attachments s) job'" using j(2) by (auto simp: job_room_def)
  then show ?thesis
    using assms(1) Some a j(1) by (auto simp: attachment_append_def attachments_inv_def fmupd_twice)
qed

lemma finish_inv:
  assumes "aead_correct C" "attachments_inv C s"
  shows "attachments_inv C (snd (attachment_finish k now s))"
proof (cases "fmlookup (au_attachment_jobs s) k")
  case None
  then show ?thesis using assms(2) by (simp add: attachment_finish_def)
next
  case (Some job)
  then have j: "au_attachment_jobs s = fmupd k job fmempty" "job_room C (au_completed_attachments s) job"
    using assms(2) by (auto simp: attachments_inv_def)
  have empty: "fmdrop k (au_attachment_jobs s) = fmempty" by (simp add: j(1))
  show ?thesis
  proof (cases "finish job")
    case (Inl e)
    then show ?thesis using Some inv_drop_job [OF assms(2), of k] by (simp add: attachment_finish_def)
  next
    case (Inr a)
    then have blob: "ea_blob a = job_blob job" by (auto simp: finish_def split: if_splits)
    obtain ps where "job_inv C job ps" using j(2) by (auto simp: job_room_def)
    from job_blob_length [OF assms(1) this] blob_bytes_upd [of k a "au_completed_attachments s"] j(2) blob
    have "blob_bytes (fmupd k a (au_completed_attachments s)) \<le> MAX_COMPLETED_ATTACHMENT_BYTES + 8 * 1024"
      by (simp add: job_room_def)
    moreover have "fcard (fmdom (fmupd k a (au_completed_attachments s))) \<le> MAX_COMPLETED_ATTACHMENT_COUNT"
      using j(2) by (simp add: job_room_def fcard_finsert_if)
    ultimately show ?thesis
      using Some Inr empty by (simp add: attachment_finish_def attachments_inv_def)
  qed
qed

lemma take_inv: "attachments_inv C s \<Longrightarrow> attachments_inv C (snd (take_completed_attachment k s))"
  using inv_drop_completed [of C s k] by (simp add: take_completed_attachment_def attachments_inv_def)

lemma cancel_inv: "attachments_inv (lib_aes L) s \<Longrightarrow> attachments_inv (lib_aes L) (fst (snd (cancel_attachment L io k s st)))"
  using inv_drop_completed [of "lib_aes L" s k] inv_drop_job [of "lib_aes L" s k]
  by (simp add: cancel_attachment_def Let_def attachments_inv_def)

lemma purge_inv:
  assumes "attachments_inv C s"
  shows "attachments_inv C (purge_attachment_state now s)"
proof -
  have job: "attachments_inv C (s \<lparr> au_attachment_job_started_at := x, au_attachment_jobs := fmdrop k (au_attachment_jobs s) \<rparr>)"
    if "attachments_inv C s" for s k x
    using inv_drop_job [OF that, of k] by (simp add: attachments_inv_def)
  have completed: "attachments_inv C (s \<lparr> au_completed_attachment_created_at := x,
      au_completed_attachments := fmdrop k (au_completed_attachments s) \<rparr>)" if "attachments_inv C s" for s k x
    using inv_drop_completed [OF that, of k] by (simp add: attachments_inv_def)
  show ?thesis
    unfolding purge_attachment_state_def Let_def
    by (rule fold_invariant [where Q = "\<lambda>_. True"], simp,
        rule fold_invariant [where Q = "\<lambda>_. True"], simp, rule assms, erule job, erule completed)
qed

inductive attachment_run ::
    "authority_lib \<Rightarrow> InviteAuthority \<times> EncryptedStore \<times> disk \<Rightarrow> InviteAuthority \<times> EncryptedStore \<times> disk \<Rightarrow> bool"
  for L x0 where
  begin_attachments: "attachment_run L x0 x0"
| next_attachment: "attachment_run L x0 x \<Longrightarrow> attachment_op_wf op \<Longrightarrow> attachment_run L x0 (attachment_op L op x)"

lemma attachment_op_inv:
  assumes "aead_correct (lib_aes L)" "attachment_op_wf op" "attachments_inv (lib_aes L) (fst x)"
  shows "attachments_inv (lib_aes L) (fst (attachment_op L op x))"
proof -
  obtain s st where x: "x = (s, st)" by (cases x)
  have inv: "attachments_inv (lib_aes L) s" using assms(3) x by simp
  show ?thesis
  proof (cases op)
    case (TakeIfEqual k a)
    then show ?thesis
      using inv take_inv [OF inv, of k]
      by (auto simp: x take_completed_attachment_if_equal_def split: option.split prod.split)
  next
    case (StageReceived k d)
    then show ?thesis
      using inv by (simp add: x stage_received_attachment_def attachments_inv_def split: option.split)
  next
    case ClearAttachments
    then show ?thesis
      by (simp add: x clear_attachment_state_def attachments_inv_def blob_bytes_def fcard_fempty)
  qed (use assms(1,2) inv in \<open>simp_all add: x start_inv append_inv finish_inv take_inv cancel_inv purge_inv\<close>)
qed

text \<open>C28. What attachments take in memory is bounded.  In every run of the attachment operations from a new authority,
  whatever is started, appended, refused, finished, cancelled or purged, there is at most one upload in progress
  and at most two encrypted attachments wait, and these hold at most 64 MiB and the 8 KiB that the tags of the last
  one may add.\<close>
theorem attachments_bounded:
  assumes "aead_correct (lib_aes L)" "attachment_run L (s0, st0) (s, st)"
    and "au_attachment_jobs s0 = fmempty" "au_completed_attachments s0 = fmempty"
  shows "fcard (fmdom (au_attachment_jobs s)) \<le> 1
    \<and> fcard (fmdom (au_completed_attachments s)) \<le> MAX_COMPLETED_ATTACHMENT_COUNT
    \<and> completed_bytes s \<le> MAX_COMPLETED_ATTACHMENT_BYTES + 8 * 1024"
proof -
  have "attachments_inv (lib_aes L) s0"
    using assms(3,4) by (simp add: attachments_inv_def blob_bytes_def fcard_fempty)
  with assms(2) have inv: "attachments_inv (lib_aes L) (fst (s, st))"
    by (induction rule: attachment_run.induct) (simp_all add: attachment_op_inv [OF assms(1)])
  have "fcard (fmdom (au_attachment_jobs s)) \<le> 1"
  proof (cases "au_attachment_jobs s = fmempty")
    case False
    then obtain k job where "fmlookup (au_attachment_jobs s) k = Some job"
      by (metis fmap_ext fmempty_lookup not_Some_eq)
    then have "au_attachment_jobs s = fmupd k job fmempty" using inv by (auto simp: attachments_inv_def)
    then have "fcard (fmdom (au_attachment_jobs s)) = fcard {|k|}" by simp
    then show ?thesis by (simp add: fcard_finsert_if fcard_fempty)
  qed (simp add: fcard_fempty)
  then show ?thesis using inv by (simp add: attachments_inv_def completed_bytes_eq)
qed

section \<open>Previews, and what a failure leaves behind\<close>

text \<open>The preview of a message fits the bound of the directory, so recording a message of any bytes keeps the
  directory one that loads.\<close>

lemma message_preview_bound: "length (message_preview plaintext) \<le> 640"
  unfolding message_preview_def by (rule order_trans [OF utf8_encode_length]) simp

theorem staged_message_keeps_directory:
  assumes "fmpred valid_persisted_contact (au_contacts s)"
  shows "fmpred valid_persisted_contact (au_contacts (snd (stage_contact_message conversation_id plaintext now background s)))"
proof -
  have "contact_op_clean (au_contacts s) (RecordMessage conversation_id (message_preview plaintext) now background)"
    using message_preview_bound [of plaintext] by (simp add: MAX_PREVIEW_BYTES_def)
  from contact_op_valid [OF assms this] show ?thesis
    by (cases "record_message conversation_id (message_preview plaintext) now background (au_contacts s)")
       (simp add: stage_contact_message_def)
qed

text \<open>When the write fails, the operation reports an error and the confirmation stays in memory.\<close>

lemma failed_write_kept_in_memory:
  assumes "confirm_safety (lib_sha L) v (au_pairing s) = (Ok (), p)"
    and "pairing_persist (pairing_to L) (lib_aes L) io p st = (Err e, st')"
  shows "authority_confirm_safety L io v s st = (Err BadPairingTransition, s \<lparr> au_pairing := p \<rparr>, st') \<and> safety_verified p"
  using assms
  by (auto simp: authority_confirm_safety_def pairing_update_def confirm_safety_def split: if_splits)

text \<open>An attachment that was uploaded again under its id and then cancelled loses its time stamp with the second
  upload: no later purge removes it.\<close>

lemma recancelled_never_purged:
  assumes "fmlookup (au_attachment_jobs s) k = Some job" "fmlookup (au_completed_attachments s) k = Some a"
    and "cancel_attachment L io k s st = (r, s', st')"
  shows "fmlookup (au_completed_attachments (purge_attachment_state now s')) k = Some a"
proof -
  have s': "fmlookup (au_completed_attachments s') k = Some a \<and> fmlookup (au_completed_attachment_created_at s') k = None"
    using assms by (auto simp: cancel_attachment_def Let_def)
  let ?P = "\<lambda>s. fmlookup (au_completed_attachments s) k = Some a \<and> fmlookup (au_completed_attachment_created_at s) k = None"
  have first: "?P (fold (\<lambda>k s. s \<lparr> au_attachment_job_started_at := fmdrop k (au_attachment_job_started_at s),
      au_attachment_jobs := fmdrop k (au_attachment_jobs s) \<rparr>) ks s')" for ks
    by (rule fold_invariant [where Q = "\<lambda>_. True" and P = ?P]) (use s' in simp_all)
  have stamped: "x \<noteq> k" if "x \<in> set (expired_ids now m)" "fmlookup m k = None" for x m
    using that by (auto simp: expired_ids_def set_sorted_list_of_fmap)
  have "?P (purge_attachment_state now s')"
    unfolding purge_attachment_state_def Let_def
    by (rule fold_invariant [where Q = "\<lambda>x. x \<noteq> k" and P = ?P]) (use first stamped in auto)
  then show ?thesis by simp
qed

section \<open>Witnesses\<close>

definition demo_snapshot :: PairingSnapshot where
  "demo_snapshot = \<lparr> schema_version = PAIRING_SNAPSHOT_VERSION, snap_state = InviteCreated, snap_peer = None,
     snap_safety_verified = False \<rparr>"

definition demo_authority_lib :: authority_lib where
  "demo_authority_lib = \<lparr> lib_ed = demo_ed, lib_sha = fit 32, lib_upper = (\<lambda>n. [n]), lib_uri = (\<lambda>_. None), lib_aes = tag_crypto,
     directory_to = (\<lambda>_. None), directory_of = (\<lambda>_. None),
     pairing_to = (\<lambda>sn. if sn = demo_snapshot then Some [1] else None), pairing_of = (\<lambda>_. Some demo_snapshot),
     registry_to = (\<lambda>_. None), registry_of = (\<lambda>_. None), approval_to = (\<lambda>_. Some []),
     descriptor_to = (\<lambda>_. None), descriptor_of = (\<lambda>_. None) \<rparr>"

definition demo_authority :: InviteAuthority where
  "demo_authority = authority_new demo_authority_lib demo_root ''phone-1'' ''https://relay.example'' None None None None"

lemma demo_authority_lib_ok: "json_ok demo_authority_lib" "ed_correct (lib_ed demo_authority_lib)" "aead_correct (lib_aes demo_authority_lib)"
  "sha_sized (lib_sha demo_authority_lib)"
  by (simp_all add: json_ok_def demo_authority_lib_def demo_ed_correct tag_crypto_correct demo_sha_sized split: if_splits)


theorem authority_restart_witness:
  "\<exists>s st. authority_run demo_authority_lib demo_authority (demo_store, demo_disk) s st
     \<and> pair_state (au_pairing s) = InviteCreated
     \<and> restore_pairing demo_authority_lib st demo_authority = (Ok (), demo_authority \<lparr> au_pairing := au_pairing s \<rparr>)"
proof -
  let ?p = "(au_pairing demo_authority) \<lparr> pair_state := InviteCreated \<rparr>"
  have p: "au_pairing demo_authority = pairing_new (root_account_id demo_ed demo_root) ''phone-1''"
    by (simp add: demo_authority_def authority_new_def new_internal_def Let_def demo_authority_lib_def)
  have snap: "snapshot ?p = demo_snapshot"
    by (simp add: p snapshot_def pairing_new_def demo_snapshot_def)
  have empty: "store_get (part_key q) (demo_store, demo_disk) = None" for q
    by (simp add: store_get_def get_def demo_store_def)
  obtain st' where put: "store_put tag_crypto (demo_commit Done) pairing_key [1] (demo_store, demo_disk) = (Ok (), st')"
    using demo_store_put [of pairing_key "[1]"]
    by (cases "store_put tag_crypto (demo_commit Done) pairing_key [1] (demo_store, demo_disk)")
       (auto simp: pairing_key_def wf_key_def ascii_defs MAX_VALUE_BYTES_def)
  have op: "authority_op demo_authority_lib (demo_commit Done) MarkCreated demo_authority (demo_store, demo_disk)
      = (True, demo_authority \<lparr> au_pairing := ?p \<rparr>, st')"
    using put snap
    by (simp add: authority_mark_invite_created_def pairing_update_def mark_invite_created_def p pairing_new_def
        pairing_persist_def demo_authority_lib_def answered_def)
  have run: "authority_run demo_authority_lib demo_authority (demo_store, demo_disk) (demo_authority \<lparr> au_pairing := ?p \<rparr>) st'"
    by (rule next_op [OF begin_run _ op]) simp_all
  from authority_restart [OF demo_authority_lib_ok(1,2) demo_authority_def empty run] run show ?thesis
    by (intro exI conjI) (assumption | simp add: p pairing_new_def)+
qed

theorem attachments_bounded_witness:
  "\<exists>s. attachment_run demo_authority_lib (demo_authority, demo_store, demo_disk) (s, demo_store, demo_disk)
     \<and> fmlookup (au_attachment_jobs s) demo_blob_id = Some demo_job \<and> fcard (fmdom (au_attachment_jobs s)) \<le> 1"
proof -
  have none: "au_attachment_jobs demo_authority = fmempty" "au_completed_attachments demo_authority = fmempty"
    by (simp_all add: demo_authority_def authority_new_def new_internal_def Let_def)
  let ?s = "snd (attachment_start (Some (replicate 32 9)) demo_blob_id 3 (Some ''a.txt'') None 5 demo_authority)"
  have started: "fmlookup (au_attachment_jobs ?s) demo_blob_id = Some demo_job"
    by (simp add: attachment_start_def none demo_start completed_bytes_eq blob_bytes_def fcard_fempty
        MAX_COMPLETED_ATTACHMENT_COUNT_def MAX_COMPLETED_ATTACHMENT_BYTES_def)
  have run: "attachment_run demo_authority_lib (demo_authority, demo_store, demo_disk) (?s, demo_store, demo_disk)"
    using next_attachment [OF begin_attachments, of "StartJob (Some (replicate 32 9)) demo_blob_id 3 (Some ''a.txt'') None 5"
        demo_authority_lib "(demo_authority, demo_store, demo_disk)"] by simp
  from attachments_bounded [OF demo_authority_lib_ok(3) run none] run started show ?thesis by blast
qed

theorem created_invite_accepted_witness:
  "\<exists>entered wire s'. authority_create demo_authority_lib (Some (replicate 32 5)) 15 (Some ''adconv1'')
       (set_device_registry demo_registry demo_authority) = (Some (entered, wire), s')
     \<and> verify_signed_invite (\<lambda>_. None) (fit 32) demo_ed entered wire 100
       = Some (created_invite demo_ed demo_root 15 (Some ''adconv1'') demo_authority)"
proof -
  let ?s = "set_device_registry demo_registry demo_authority"
  have s: "au_root ?s = Some demo_root" "au_device_id ?s = ''phone-1''" "au_relay_origin ?s = ''https://relay.example''"
    "au_inbox_url ?s = None" "au_device_registry ?s = demo_registry"
    by (simp_all add: set_device_registry_def demo_authority_def authority_new_def new_internal_def Let_def)
  have L: "lib_ed demo_authority_lib = demo_ed" "lib_sha demo_authority_lib = fit 32" "lib_uri demo_authority_lib = (\<lambda>_. None)"
    by (simp_all add: demo_authority_lib_def)
  have "authorize demo_ed demo_registry ''phone-1'' 15 = Ok ()"
    by (simp add: authorize_def demo_registry_lookup demo_certificate_facts)
  then obtain wire s' where c: "authority_create demo_authority_lib (Some (replicate 32 5)) 15 (Some ''adconv1'') ?s
      = (Some (invite_code (replicate 32 5), wire), s')"
    using s L by (simp add: authority_create_def Let_def)
  have "invite_lines_ok (created_invite demo_ed demo_root 15 (Some ''adconv1'') ?s)"
    by (simp add: invite_lines_ok_def created_invite_def s root_account_id_def account_id_from_public_def)
  moreover have "list_all utf8_valid [au_device_id ?s, au_relay_origin ?s]" "utf8_valid ''adconv1''"
    by (simp_all add: s utf8_valid_ascii is_ascii_def)
  ultimately have "verify_signed_invite (\<lambda>_. None) (fit 32) demo_ed (invite_code (replicate 32 5)) wire 100
      = Some (created_invite demo_ed demo_root 15 (Some ''adconv1'') ?s)"
    using created_invite_accepted [OF demo_authority_lib_ok(2,4) s(1) c, of _ 100 "invite_code (replicate 32 5)"]
    by (simp add: L s starts_with_def)
  moreover have "created_invite demo_ed demo_root 15 (Some ''adconv1'') ?s
      = created_invite demo_ed demo_root 15 (Some ''adconv1'') demo_authority"
    by (simp add: created_invite_def set_device_registry_def)
  ultimately show ?thesis using c by auto
qed

end
