(* ===== verification/Mls_State.thy ===== *)
theory Mls_State
  imports Encrypted_Store AD_Text
begin

text \<open>
  The storage boundary for MLS state (\<^verbatim>\<open>mls_storage.rs\<close>): entities with a bounded encoding, the
  records of a group and of the crypto provider, one-way KeyPackages, own leaves and the proposal queue.

  The JSON encoding of the three entity types and SHA-256 are third-party code and are the argument
  \<open>mls_lib\<close>.  The state is an open store with its disk; each write takes the outcomes of its
  system calls.
\<close>

section \<open>Items and entities\<close>

definition MLS_PREFIX :: string where "MLS_PREFIX = ''mls/v1/''"

definition MAX_SERIALIZED_ENTITY_BYTES :: nat where
  "MAX_SERIALIZED_ENTITY_BYTES = 4 * 1024 * 1024"

datatype GroupStateItem =
  JoinConfig | OwnLeafNodes | Tree | InterimTranscriptHash | GroupContext | ConfirmationTag | GroupState
| MessageSecrets | ResumptionPskStore | OwnLeafIndex | GroupEpochSecrets

datatype CryptoStateItem =
  SignatureKeyPair | EncryptionKeyPair | EncryptionEpochKeyPairs | KeyPackage | Psk

datatype KeyPackageState = Available | Reserved | Consumed | Expired

record KeyPackageRecord =
  kp_state :: KeyPackageState
  reservation_digest :: "string option"
  not_before :: "u64 option"
  not_after :: "u64 option"

datatype CodecError = SerializeFailed | DeserializeFailed | EntityTooLarge

datatype KeyPackageError =
  KpStorage StorageError | KpCodec CodecError | AlreadyRegistered | NotAvailable | ReservationMismatch
| InvalidLifetime

fun crypto_label :: "CryptoStateItem \<Rightarrow> string" where
  "crypto_label SignatureKeyPair = ''signature-key-pair''"
| "crypto_label EncryptionKeyPair = ''encryption-key-pair''"
| "crypto_label EncryptionEpochKeyPairs = ''encryption-epoch-key-pairs''"
| "crypto_label KeyPackage = ''key-package''"
| "crypto_label Psk = ''psk''"

fun group_label :: "GroupStateItem \<Rightarrow> string" where
  "group_label JoinConfig = ''join-config''"
| "group_label OwnLeafNodes = ''own-leaf-nodes''"
| "group_label Tree = ''tree''"
| "group_label InterimTranscriptHash = ''interim-transcript-hash''"
| "group_label GroupContext = ''context''"
| "group_label ConfirmationTag = ''confirmation-tag''"
| "group_label GroupState = ''group-state''"
| "group_label MessageSecrets = ''message-secrets''"
| "group_label ResumptionPskStore = ''resumption-psk-store''"
| "group_label OwnLeafIndex = ''own-leaf-index''"
| "group_label GroupEpochSecrets = ''group-epoch-secrets''"

definition encode_entity :: "('a \<Rightarrow> bytes option) \<Rightarrow> 'a \<Rightarrow> CodecError + bytes" where
  "encode_entity to_json x =
     res_bind (ok_or (to_json x) SerializeFailed) (\<lambda>encoded.
       if MAX_SERIALIZED_ENTITY_BYTES < length encoded then Err EntityTooLarge else Ok encoded)"

definition decode_entity :: "(bytes \<Rightarrow> 'a option) \<Rightarrow> bytes \<Rightarrow> CodecError + 'a" where
  "decode_entity of_json bs =
     (if MAX_SERIALIZED_ENTITY_BYTES < length bs then Err EntityTooLarge
      else ok_or (of_json bs) DeserializeFailed)"

record mls_lib =
  ml_sha :: "bytes \<Rightarrow> bytes"
  kp_to :: "KeyPackageRecord \<Rightarrow> bytes option"
  kp_of :: "bytes \<Rightarrow> KeyPackageRecord option"
  leaves_to :: "bytes list \<Rightarrow> bytes option"
  leaves_of :: "bytes \<Rightarrow> bytes list option"
  refs_to :: "string list \<Rightarrow> bytes option"
  refs_of :: "bytes \<Rightarrow> string list option"

text \<open>What the code relies on: a digest has 32 bytes, and reading back what was written gives the
  value.\<close>

definition mls_lib_ok :: "mls_lib \<Rightarrow> bool" where
  "mls_lib_ok J \<longleftrightarrow> sha_sized (ml_sha J) \<and>
     (\<forall>x bs. kp_to J x = Some bs \<longrightarrow> kp_of J bs = Some x) \<and>
     (\<forall>x bs. leaves_to J x = Some bs \<longrightarrow> leaves_of J bs = Some x) \<and>
     (\<forall>x bs. refs_to J x = Some bs \<longrightarrow> refs_of J bs = Some x)"

section \<open>Keys\<close>

definition mls_key :: "string \<Rightarrow> string \<Rightarrow> string" where
  "mls_key group_id item = MLS_PREFIX @ group_id @ ''/'' @ item"

definition group_key :: "string \<Rightarrow> GroupStateItem \<Rightarrow> string" where
  "group_key group_id item = mls_key group_id (group_label item)"

definition crypto_key :: "mls_lib \<Rightarrow> CryptoStateItem \<Rightarrow> bytes \<Rightarrow> string" where
  "crypto_key J item external_id =
     MLS_PREFIX @ ''crypto/'' @ crypto_label item @ ''/'' @ hex (ml_sha J external_id)"

definition proposal_ref_key :: "mls_lib \<Rightarrow> bytes \<Rightarrow> string" where
  "proposal_ref_key J proposal_ref = hex (ml_sha J proposal_ref)"

definition key_package_state_key :: "mls_lib \<Rightarrow> bytes \<Rightarrow> string" where
  "key_package_state_key J package_id =
     MLS_PREFIX @ ''crypto/key-package-state/'' @ hex (ml_sha J package_id)"

definition hex_digest :: "bytes \<Rightarrow> string" where
  "hex_digest v = hex v"

definition is_expired :: "KeyPackageRecord \<Rightarrow> u64 \<Rightarrow> bool" where
  "is_expired r now = (case not_after r of None \<Rightarrow> False | Some t \<Rightarrow> t \<le> now)"

section \<open>Group and crypto records\<close>

type_synonym store = "EncryptedStore \<times> disk"

definition mls_read :: "string \<Rightarrow> string \<Rightarrow> store \<Rightarrow> bytes option" where
  "mls_read group_id item s = store_get (ProtocolSession, mls_key group_id item) s"

definition mls_change :: "string \<Rightarrow> string \<times> bytes option \<Rightarrow> RecordMutation" where
  "mls_change group_id c = (case c of
     (item, Some v) \<Rightarrow> Put ProtocolSession (mls_key group_id item) v
   | (item, None) \<Rightarrow> Delete ProtocolSession (mls_key group_id item))"

definition mls_commit ::
    "store_crypto \<Rightarrow> commit_io \<Rightarrow> string \<Rightarrow> (string \<times> bytes option) list \<Rightarrow> store
      \<Rightarrow> (StorageError + unit) \<times> store" where
  "mls_commit C io group_id changes s = apply_batch C io (map (mls_change group_id) changes) s"

definition write_group_item ::
    "store_crypto \<Rightarrow> commit_io \<Rightarrow> string \<Rightarrow> GroupStateItem \<Rightarrow> bytes \<Rightarrow> store
      \<Rightarrow> (StorageError + unit) \<times> store" where
  "write_group_item C io group_id item v s =
     apply_batch C io [Put ProtocolSession (group_key group_id item) v] s"

definition read_group_item :: "string \<Rightarrow> GroupStateItem \<Rightarrow> store \<Rightarrow> bytes option" where
  "read_group_item group_id item s = store_get (ProtocolSession, group_key group_id item) s"

definition delete_group_item ::
    "store_crypto \<Rightarrow> commit_io \<Rightarrow> string \<Rightarrow> GroupStateItem \<Rightarrow> store
      \<Rightarrow> (StorageError + unit) \<times> store" where
  "delete_group_item C io group_id item s =
     apply_batch C io [Delete ProtocolSession (group_key group_id item)] s"

definition write_crypto_item ::
    "mls_lib \<Rightarrow> store_crypto \<Rightarrow> commit_io \<Rightarrow> CryptoStateItem \<Rightarrow> bytes \<Rightarrow> bytes \<Rightarrow> store
      \<Rightarrow> (StorageError + unit) \<times> store" where
  "write_crypto_item J C io item external_id v s =
     apply_batch C io [Put ProtocolSession (crypto_key J item external_id) v] s"

definition read_crypto_item :: "mls_lib \<Rightarrow> CryptoStateItem \<Rightarrow> bytes \<Rightarrow> store \<Rightarrow> bytes option" where
  "read_crypto_item J item external_id s = store_get (ProtocolSession, crypto_key J item external_id) s"

definition delete_crypto_item ::
    "mls_lib \<Rightarrow> store_crypto \<Rightarrow> commit_io \<Rightarrow> CryptoStateItem \<Rightarrow> bytes \<Rightarrow> store
      \<Rightarrow> (StorageError + unit) \<times> store" where
  "delete_crypto_item J C io item external_id s =
     apply_batch C io [Delete ProtocolSession (crypto_key J item external_id)] s"

section \<open>KeyPackages\<close>

definition read_key_package_record :: "mls_lib \<Rightarrow> bytes \<Rightarrow> store \<Rightarrow> KeyPackageRecord option" where
  "read_key_package_record J package_id s =
     Option.bind (store_get (ProtocolSession, key_package_state_key J package_id) s)
       (\<lambda>v. res_ok (decode_entity (kp_of J) v))"

text \<open>A batch whose storage error becomes a KeyPackage error (the \<^verbatim>\<open>?\<close> after \<^verbatim>\<open>apply_batch\<close>).\<close>

definition kp_batch ::
    "store_crypto \<Rightarrow> commit_io \<Rightarrow> RecordMutation list \<Rightarrow> store \<Rightarrow> (KeyPackageError + unit) \<times> store" where
  "kp_batch C io ms s = (case apply_batch C io ms s of (r, s') \<Rightarrow> (map_err KpStorage r, s'))"

definition write_key_package_record ::
    "mls_lib \<Rightarrow> store_crypto \<Rightarrow> commit_io \<Rightarrow> bytes \<Rightarrow> KeyPackageRecord \<Rightarrow> store
      \<Rightarrow> (KeyPackageError + unit) \<times> store" where
  "write_key_package_record J C io package_id r s =
     (case encode_entity (kp_to J) r of
        Inl e \<Rightarrow> (Err (KpCodec e), s)
      | Inr v \<Rightarrow> kp_batch C io [Put ProtocolSession (key_package_state_key J package_id) v] s)"

definition registered :: "mls_lib \<Rightarrow> bytes \<Rightarrow> store \<Rightarrow> bool" where
  "registered J package_id s \<longleftrightarrow> read_crypto_item J KeyPackage package_id s \<noteq> None \<or>
     read_key_package_record J package_id s \<noteq> None"

definition package_mutations :: "mls_lib \<Rightarrow> bytes \<Rightarrow> bytes \<Rightarrow> bytes \<Rightarrow> RecordMutation list" where
  "package_mutations J package_id package v =
     [Put ProtocolSession (crypto_key J KeyPackage package_id) package,
      Put ProtocolSession (key_package_state_key J package_id) v]"

definition register_key_package ::
    "mls_lib \<Rightarrow> store_crypto \<Rightarrow> commit_io \<Rightarrow> bytes \<Rightarrow> bytes \<Rightarrow> store
      \<Rightarrow> (KeyPackageError + unit) \<times> store" where
  "register_key_package J C io package_id package s =
     (if registered J package_id s then (Err AlreadyRegistered, s)
      else case encode_entity (kp_to J) \<lparr> kp_state = Available, reservation_digest = None,
                                         not_before = None, not_after = None \<rparr> of
        Inl e \<Rightarrow> (Err (KpCodec e), s)
      | Inr v \<Rightarrow> kp_batch C io (package_mutations J package_id package v) s)"

definition register_key_package_with_lifetime ::
    "mls_lib \<Rightarrow> store_crypto \<Rightarrow> commit_io \<Rightarrow> bytes \<Rightarrow> bytes \<Rightarrow> u64 \<Rightarrow> u64 \<Rightarrow> store
      \<Rightarrow> (KeyPackageError + unit) \<times> store" where
  "register_key_package_with_lifetime J C io package_id package nbf naf s =
     (if naf \<le> nbf \<or> package = [] then (Err InvalidLifetime, s)
      else if registered J package_id s then (Err AlreadyRegistered, s)
      else case encode_entity (kp_to J) \<lparr> kp_state = Available, reservation_digest = None,
                                         not_before = Some nbf, not_after = Some naf \<rparr> of
        Inl e \<Rightarrow> (Err (KpCodec e), s)
      | Inr v \<Rightarrow> kp_batch C io (package_mutations J package_id package v) s)"

definition key_package_state :: "mls_lib \<Rightarrow> bytes \<Rightarrow> store \<Rightarrow> KeyPackageState option" where
  "key_package_state J package_id s = map_option kp_state (read_key_package_record J package_id s)"

definition key_package_state_at :: "mls_lib \<Rightarrow> bytes \<Rightarrow> u64 \<Rightarrow> store \<Rightarrow> KeyPackageState option" where
  "key_package_state_at J package_id now s =
     (case read_key_package_record J package_id s of
        None \<Rightarrow> None
      | Some r \<Rightarrow> if kp_state r = Available \<and> is_expired r now then Some Expired else Some (kp_state r))"

definition available_key_package_count :: "mls_lib \<Rightarrow> u64 \<Rightarrow> store \<Rightarrow> nat" where
  "available_key_package_count J now s =
     length (filter (\<lambda>r. kp_state r = Available \<and> \<not> is_expired r now)
       (List.map_filter (\<lambda>(_, v). res_ok (decode_entity (kp_of J) v))
         (records_with_prefix ProtocolSession (MLS_PREFIX @ ''crypto/key-package-state/'') (fst s))))"

text \<open>The loop of \<^verbatim>\<open>replenish_key_packages\<close>: the mutations and the number of packages taken so far.\<close>

fun replenish_loop ::
    "mls_lib \<Rightarrow> u64 \<Rightarrow> store \<Rightarrow> nat \<Rightarrow> (bytes \<times> bytes \<times> u64 \<times> u64) list \<Rightarrow> RecordMutation list \<Rightarrow> nat
      \<Rightarrow> KeyPackageError + RecordMutation list \<times> nat" where
  "replenish_loop J now s needed [] ms added = Ok (ms, added)"
| "replenish_loop J now s needed ((package_id, package, nbf, naf) # ps) ms added =
     (if added = needed then Ok (ms, added)
      else if naf \<le> nbf \<or> naf \<le> now \<or> package = [] then Err InvalidLifetime
      else if registered J package_id s then Err AlreadyRegistered
      else case encode_entity (kp_to J) \<lparr> kp_state = Available, reservation_digest = None,
                                         not_before = Some nbf, not_after = Some naf \<rparr> of
        Inl e \<Rightarrow> Err (KpCodec e)
      | Inr v \<Rightarrow> replenish_loop J now s needed ps (ms @ package_mutations J package_id package v)
                  (added + 1))"

definition replenish_key_packages ::
    "mls_lib \<Rightarrow> store_crypto \<Rightarrow> commit_io \<Rightarrow> nat \<Rightarrow> u64 \<Rightarrow> (bytes \<times> bytes \<times> u64 \<times> u64) list \<Rightarrow> store
      \<Rightarrow> (KeyPackageError + nat) \<times> store" where
  "replenish_key_packages J C io minimum now packages s =
     (let needed = minimum - available_key_package_count J now s in
      if needed = 0 then (Ok 0, s)
      else case replenish_loop J now s needed packages [] 0 of
        Inl e \<Rightarrow> (Err e, s)
      | Inr (ms, added) \<Rightarrow>
          if added < needed then (Err NotAvailable, s)
          else (case kp_batch C io ms s of
                  (Inl e, s') \<Rightarrow> (Err e, s')
                | (Inr _, s') \<Rightarrow> (Ok added, s')))"

definition reserve_key_package_at ::
    "mls_lib \<Rightarrow> store_crypto \<Rightarrow> commit_io \<Rightarrow> bytes \<Rightarrow> bytes \<Rightarrow> u64 \<Rightarrow> store
      \<Rightarrow> (KeyPackageError + bytes) \<times> store" where
  "reserve_key_package_at J C io package_id reservation now s =
     (case read_key_package_record J package_id s of
        None \<Rightarrow> (Err NotAvailable, s)
      | Some r \<Rightarrow>
          if kp_state r \<noteq> Available \<or> is_expired r now then (Err NotAvailable, s)
          else let digest = ml_sha J reservation in
            (case write_key_package_record J C io package_id
                (r \<lparr> kp_state := Reserved, reservation_digest := Some (hex_digest digest) \<rparr>) s of
               (Inl e, s') \<Rightarrow> (Err e, s')
             | (Inr _, s') \<Rightarrow> (Ok digest, s')))"

definition consume_key_package ::
    "mls_lib \<Rightarrow> store_crypto \<Rightarrow> commit_io \<Rightarrow> bytes \<Rightarrow> bytes \<Rightarrow> store
      \<Rightarrow> (KeyPackageError + unit) \<times> store" where
  "consume_key_package J C io package_id reservation s =
     (case read_key_package_record J package_id s of
        None \<Rightarrow> (Err NotAvailable, s)
      | Some r \<Rightarrow>
          if kp_state r \<noteq> Reserved \<or>
             reservation_digest r \<noteq> Some (hex_digest (ml_sha J reservation)) then (Err ReservationMismatch, s)
          else write_key_package_record J C io package_id
                 (r \<lparr> kp_state := Consumed, reservation_digest := None \<rparr>) s)"

section \<open>Own leaves and proposals\<close>

definition own_leaves :: "mls_lib \<Rightarrow> string \<Rightarrow> store \<Rightarrow> bytes list" where
  "own_leaves J group_id s =
     (case Option.bind (read_group_item group_id OwnLeafNodes s) (\<lambda>v. res_ok (decode_entity (leaves_of J) v)) of
        None \<Rightarrow> [] | Some ls \<Rightarrow> ls)"

definition append_own_leaf ::
    "mls_lib \<Rightarrow> store_crypto \<Rightarrow> commit_io \<Rightarrow> string \<Rightarrow> bytes \<Rightarrow> store \<Rightarrow> (StorageError + unit) \<times> store" where
  "append_own_leaf J C io group_id leaf s =
     (case encode_entity (leaves_to J) (own_leaves J group_id s @ [leaf]) of
        Inl _ \<Rightarrow> (Err RecordTooLarge, s)
      | Inr encoded \<Rightarrow> write_group_item C io group_id OwnLeafNodes encoded s)"

definition queued_proposal_refs :: "mls_lib \<Rightarrow> string \<Rightarrow> store \<Rightarrow> string list" where
  "queued_proposal_refs J group_id s =
     (case Option.bind (mls_read group_id ''proposal-refs'' s) (\<lambda>v. res_ok (decode_entity (refs_of J) v)) of
        None \<Rightarrow> [] | Some rs \<Rightarrow> rs)"

definition queue_proposal ::
    "mls_lib \<Rightarrow> store_crypto \<Rightarrow> commit_io \<Rightarrow> string \<Rightarrow> bytes \<Rightarrow> bytes \<Rightarrow> store
      \<Rightarrow> (StorageError + unit) \<times> store" where
  "queue_proposal J C io group_id proposal_ref proposal s =
     (let reference = proposal_ref_key J proposal_ref; refs = queued_proposal_refs J group_id s in
      if reference \<in> set refs then (Ok (), s)
      else case encode_entity (refs_to J) (refs @ [reference]) of
        Inl _ \<Rightarrow> (Err RecordTooLarge, s)
      | Inr refs_value \<Rightarrow>
          mls_commit C io group_id
            [(''proposal-refs'', Some refs_value), (''proposal/'' @ reference, Some proposal)] s)"

definition queued_proposal :: "mls_lib \<Rightarrow> string \<Rightarrow> bytes \<Rightarrow> store \<Rightarrow> bytes option" where
  "queued_proposal J group_id proposal_ref s =
     mls_read group_id (''proposal/'' @ proposal_ref_key J proposal_ref) s"

definition remove_proposal ::
    "mls_lib \<Rightarrow> store_crypto \<Rightarrow> commit_io \<Rightarrow> string \<Rightarrow> bytes \<Rightarrow> store \<Rightarrow> (StorageError + unit) \<times> store" where
  "remove_proposal J C io group_id proposal_ref s =
     (let reference = proposal_ref_key J proposal_ref in
      case encode_entity (refs_to J) (filter (\<lambda>x. x \<noteq> reference) (queued_proposal_refs J group_id s)) of
        Inl _ \<Rightarrow> (Err RecordTooLarge, s)
      | Inr refs_value \<Rightarrow>
          mls_commit C io group_id [(''proposal-refs'', Some refs_value), (''proposal/'' @ reference, None)] s)"

definition clear_proposals ::
    "mls_lib \<Rightarrow> store_crypto \<Rightarrow> commit_io \<Rightarrow> string \<Rightarrow> store \<Rightarrow> (StorageError + unit) \<times> store" where
  "clear_proposals J C io group_id s =
     mls_commit C io group_id
       ((''proposal-refs'', None) #
        map (\<lambda>reference. (''proposal/'' @ reference, None)) (queued_proposal_refs J group_id s)) s"

section \<open>Batches\<close>

text \<open>After a batch the records are the old ones or those of its mutations, the latter when it
  succeeds.\<close>

lemma apply_batch_records:
  assumes "apply_batch C io ms (st, d) = (r, st', d')"
  shows "records st' = records st \<or> records st' = snd (apply_mutations ms (records st))"
    and "locked st' = locked st"
    and "r = Ok () \<Longrightarrow> apply_mutations ms (records st) = (Ok (), records st') \<and> \<not> locked st"
proof -
  show a: "r = Ok () \<Longrightarrow> apply_mutations ms (records st) = (Ok (), records st') \<and> \<not> locked st"
    using apply_batch_ok(1) [of C io ms st d "()" st' d'] assms
    by (auto simp: apply_batch_def Let_def split: if_splits)
  show "records st' = records st \<or> records st' = snd (apply_mutations ms (records st))"
    using a assms
    by (cases r) (auto simp: apply_batch_def Let_def dest!: commit_err split: sum.splits prod.splits if_splits)
  show "locked st' = locked st"
    using assms
    by (auto simp: apply_batch_def Let_def dest!: commit_err elim!: commit_ok
        split: sum.splits prod.splits if_splits)
qed

lemma apply_mutations_lookup:
  "fmlookup (snd (apply_mutations ms m)) (cl, k) = fmlookup m (cl, k) \<or>
   (\<exists>v. Put cl k v \<in> set ms \<and> fmlookup (snd (apply_mutations ms m)) (cl, k) = Some v) \<or>
   Delete cl k \<in> set ms"
proof (induction ms m rule: apply_mutations.induct)
  case (2 cl' k' v ms m)
  then show ?case
    by (cases "wf_key k'"; cases "(cl', k') = (cl, k)"; cases "validate_record_key k'") auto
next
  case (3 cl' k' ms m)
  then show ?case
    by (cases "(cl', k') = (cl, k)"; cases "validate_record_key k'") auto
qed simp

lemma apply_batch_get:
  assumes "apply_batch C io ms s = (r, s')" "Delete cl k \<notin> set ms"
  shows "store_get (cl, k) s' = store_get (cl, k) s \<or>
    (\<exists>v. Put cl k v \<in> set ms \<and> store_get (cl, k) s' = Some v \<and> \<not> locked (fst s))"
proof -
  obtain st d st' d' where s: "s = (st, d)" "s' = (st', d')" by (cases s; cases s')
  note b = apply_batch_records(1,2) [OF assms(1) [unfolded s]]
  show ?thesis
    using b assms(2) apply_mutations_lookup [of ms "records st" cl k]
    by (auto simp: s store_get_def get_def)
qed

lemma apply_batch_single:
  assumes "apply_batch C io [Put cl k v] s = (r, s')"
  shows "r = Ok () \<Longrightarrow> store_get (cl, k) s' = Some v"
    and "r \<noteq> Ok () \<Longrightarrow> store_get x s' = store_get x s"
proof -
  obtain st d st' d' where s: "s = (st, d)" "s' = (st', d')" by (cases s; cases s')
  note b = apply_batch_records [OF assms(1) [unfolded s]]
  show "store_get (cl, k) s' = Some v" if "r = Ok ()"
    using b(2,3) that by (auto simp: s store_get_def get_def split: sum.splits if_splits dest!: sym [of _ "records st'"])
  show "store_get x s' = store_get x s" if "r \<noteq> Ok ()"
    using assms that
    by (auto simp: s store_get_def get_def apply_batch_def Let_def dest!: commit_err
        split: sum.splits prod.splits if_splits)
qed

section \<open>The life of a KeyPackage\<close>

datatype kp_op =
  Register bytes bytes
| RegisterFor bytes bytes u64 u64
| Replenish nat u64 "(bytes \<times> bytes \<times> u64 \<times> u64) list"
| Reserve bytes bytes u64
| Consume bytes bytes

fun kp_step :: "mls_lib \<Rightarrow> store_crypto \<Rightarrow> kp_op \<times> commit_io \<Rightarrow> store \<Rightarrow> bool \<times> store" where
  "kp_step J C (Register i p, io) s = apfst is_ok (register_key_package J C io i p s)"
| "kp_step J C (RegisterFor i p a b, io) s = apfst is_ok (register_key_package_with_lifetime J C io i p a b s)"
| "kp_step J C (Replenish n now ps, io) s = apfst is_ok (replenish_key_packages J C io n now ps s)"
| "kp_step J C (Reserve i r now, io) s = apfst is_ok (reserve_key_package_at J C io i r now s)"
| "kp_step J C (Consume i r, io) s = apfst is_ok (consume_key_package J C io i r s)"

text \<open>The operations of a run with whether each of them succeeded.\<close>

fun kp_trace :: "mls_lib \<Rightarrow> store_crypto \<Rightarrow> (kp_op \<times> commit_io) list \<Rightarrow> store \<Rightarrow> (kp_op \<times> bool) list" where
  "kp_trace J C [] s = []"
| "kp_trace J C (x # xs) s = (let (ok, s') = kp_step J C x s in (fst x, ok) # kp_trace J C xs s')"

text \<open>Two package identifiers name the same package when their digests agree.\<close>

fun reserves :: "mls_lib \<Rightarrow> bytes \<Rightarrow> kp_op \<times> bool \<Rightarrow> bool" where
  "reserves J i (Reserve j _ _, ok) \<longleftrightarrow> ok \<and> ml_sha J j = ml_sha J i"
| "reserves J i _ \<longleftrightarrow> False"

fun consumes :: "mls_lib \<Rightarrow> bytes \<Rightarrow> kp_op \<times> bool \<Rightarrow> bool" where
  "consumes J i (Consume j _, ok) \<longleftrightarrow> ok \<and> ml_sha J j = ml_sha J i"
| "consumes J i _ \<longleftrightarrow> False"

fun op_secret :: "kp_op \<Rightarrow> bytes" where
  "op_secret (Reserve _ r _) = r"
| "op_secret (Consume _ r) = r"
| "op_secret _ = []"

lemma key_package_keys [simp]:
  "key_package_state_key J i = key_package_state_key J j \<longleftrightarrow> ml_sha J i = ml_sha J j"
  "crypto_key J KeyPackage i \<noteq> key_package_state_key J j"
  by (auto simp: key_package_state_key_def crypto_key_def)

lemma read_record_same:
  "ml_sha J i = ml_sha J j \<Longrightarrow> read_key_package_record J i s = read_key_package_record J j s"
  by (simp add: read_key_package_record_def key_package_state_key_def)

lemma encode_entity_decode:
  "encode_entity (kp_to J) x = Ok v \<Longrightarrow> mls_lib_ok J \<Longrightarrow> res_ok (decode_entity (kp_of J) v) = Some x"
  by (auto simp: encode_entity_def decode_entity_def mls_lib_ok_def split: if_splits)

text \<open>What an operation does to the record of a package: nothing, or a fresh entry where there was
  none, or one of the two steps forward.\<close>

definition kp_fresh :: "KeyPackageRecord \<Rightarrow> bool" where
  "kp_fresh r \<longleftrightarrow> kp_state r = Available"

definition kp_kept :: "KeyPackageRecord option \<Rightarrow> KeyPackageRecord option \<Rightarrow> bool" where
  "kp_kept x x' \<longleftrightarrow> x' = x \<or> x = None \<and> (\<exists>r. x' = Some r \<and> kp_fresh r)"

lemma batch_kept:
  assumes "mls_lib_ok J" "apply_batch C io ms s = (r, s')"
    and "\<forall>m \<in> set ms. \<exists>j p v. m \<in> set (package_mutations J j p v) \<and> \<not> registered J j s \<and>
           (\<exists>x. encode_entity (kp_to J) x = Ok v \<and> kp_fresh x)"
  shows "kp_kept (read_key_package_record J i s) (read_key_package_record J i s')"
proof -
  let ?k = "key_package_state_key J i"
  have "Delete ProtocolSession ?k \<notin> set ms"
    using assms(3) by (fastforce simp: package_mutations_def)
  from apply_batch_get [OF assms(2) this] show ?thesis
  proof (elim disjE exE conjE)
    fix v assume v: "Put ProtocolSession ?k v \<in> set ms" "store_get (ProtocolSession, ?k) s' = Some v"
    obtain j p v' x where j: "Put ProtocolSession ?k v \<in> set (package_mutations J j p v')"
      "\<not> registered J j s" "encode_entity (kp_to J) x = Ok v'" "kp_fresh x"
      using assms(3) v(1) by blast
    then have e: "ml_sha J i = ml_sha J j" "v' = v"
      by (auto simp: package_mutations_def dest: key_package_keys(2) [THEN notE, OF sym])
    have "read_key_package_record J i s = None"
      using j(2) read_record_same [OF e(1), of s] by (simp add: registered_def)
    moreover have "read_key_package_record J i s' = Some x"
      using v(2) encode_entity_decode [OF j(3) assms(1)] by (simp add: read_key_package_record_def e)
    ultimately show ?thesis using j(4) by (simp add: kp_kept_def)
  qed (simp add: kp_kept_def read_key_package_record_def)
qed

lemma kp_batch_kept:
  assumes "mls_lib_ok J" "\<not> registered J j s" "encode_entity (kp_to J) x = Ok v" "kp_fresh x"
  shows "kp_kept (read_key_package_record J i s)
    (read_key_package_record J i (snd (kp_batch C io (package_mutations J j p v) s)))"
proof -
  obtain r s' where b: "apply_batch C io (package_mutations J j p v) s = (r, s')"
    by (cases "apply_batch C io (package_mutations J j p v) s")
  show ?thesis
    using batch_kept [OF assms(1) b, of i] assms(2-4) by (auto simp: kp_batch_def b)
qed

lemma register_kept:
  assumes "mls_lib_ok J"
  shows "kp_kept (read_key_package_record J i s)
      (read_key_package_record J i (snd (register_key_package J C io j p s)))"
    and "kp_kept (read_key_package_record J i s)
      (read_key_package_record J i (snd (register_key_package_with_lifetime J C io j p a b s)))"
  by (auto simp: register_key_package_def register_key_package_with_lifetime_def kp_kept_def [of x x for x]
      kp_fresh_def intro!: kp_batch_kept [OF assms] split: sum.split)

lemma replenish_loop_mutations:
  assumes "replenish_loop J now s needed ps ms added = Ok (ms', added')"
    and "\<forall>m \<in> set ms. \<exists>j p v. m \<in> set (package_mutations J j p v) \<and> \<not> registered J j s \<and>
           (\<exists>x. encode_entity (kp_to J) x = Ok v \<and> kp_fresh x)"
  shows "\<forall>m \<in> set ms'. \<exists>j p v. m \<in> set (package_mutations J j p v) \<and> \<not> registered J j s \<and>
           (\<exists>x. encode_entity (kp_to J) x = Ok v \<and> kp_fresh x)"
  using assms
proof (induction J now s needed ps ms added rule: replenish_loop.induct)
  case (2 J now s needed i p nbf naf ps ms added)
  show ?case
  proof (cases "added = needed")
    case False
    let ?x = "\<lparr> kp_state = Available, reservation_digest = None, not_before = Some nbf, not_after = Some naf \<rparr>"
    from False 2(2) obtain v where v: "encode_entity (kp_to J) ?x = Ok v" "\<not> registered J i s"
      "\<not> (naf \<le> nbf \<or> naf \<le> now \<or> p = [])"
      "replenish_loop J now s needed ps (ms @ package_mutations J i p v) (added + 1) = Ok (ms', added')"
      by (auto split: if_splits sum.splits)
    have "kp_fresh ?x" by (simp add: kp_fresh_def)
    with v(1,2) 2(3) have "\<forall>m \<in> set (ms @ package_mutations J i p v).
        \<exists>j p v. m \<in> set (package_mutations J j p v) \<and> \<not> registered J j s \<and>
           (\<exists>x. encode_entity (kp_to J) x = Ok v \<and> kp_fresh x)"
      by (metis Un_iff set_append)
    from 2(1) [OF False v(3,2,1,4) this] show ?thesis .
  qed (use 2 in auto)
qed simp

lemma write_record_other:
  assumes "write_key_package_record J C io j x s = (r, s')" "ml_sha J i \<noteq> ml_sha J j"
  shows "read_key_package_record J i s' = read_key_package_record J i s"
proof (cases "encode_entity (kp_to J) x")
  case (Inr v)
  obtain r0 where b: "apply_batch C io [Put ProtocolSession (key_package_state_key J j) v] s = (r0, s')"
    using assms(1) by (auto simp: write_key_package_record_def kp_batch_def Inr split: prod.splits)
  have "store_get (ProtocolSession, key_package_state_key J i) s'
      = store_get (ProtocolSession, key_package_state_key J i) s"
    using apply_batch_get [OF b, of ProtocolSession "key_package_state_key J i"] assms(2) by auto
  then show ?thesis by (simp add: read_key_package_record_def)
qed (use assms in \<open>simp add: write_key_package_record_def\<close>)

lemma write_record_this:
  assumes "mls_lib_ok J" "write_key_package_record J C io j x s = (r, s')" "ml_sha J i = ml_sha J j"
  shows "read_key_package_record J i s' = (if is_ok r then Some x else read_key_package_record J i s)"
proof (cases "encode_entity (kp_to J) x")
  case (Inr v)
  obtain r0 where b: "apply_batch C io [Put ProtocolSession (key_package_state_key J j) v] s = (r0, s')"
    and r: "r = map_err KpStorage r0"
    using assms(2) by (auto simp: write_key_package_record_def kp_batch_def Inr split: prod.splits)
  have k: "key_package_state_key J i = key_package_state_key J j" using assms(3) by simp
  show ?thesis
    using apply_batch_single [OF b] encode_entity_decode [OF Inr assms(1)]
    by (cases r0) (auto simp: read_key_package_record_def k r)
qed (use assms in \<open>auto simp: write_key_package_record_def\<close>)

lemma write_record_read:
  assumes "mls_lib_ok J" "write_key_package_record J C io j x s = (r, s')"
  shows "read_key_package_record J i s' =
    (if ml_sha J j = ml_sha J i \<and> is_ok r then Some x else read_key_package_record J i s)"
  using write_record_this [OF assms, of i] write_record_other [OF assms(2), of i] by (cases "ml_sha J i = ml_sha J j") auto

lemma reserve_change:
  assumes "mls_lib_ok J" "reserve_key_package_at J C io j secret now s = (r, s')"
  shows "if ml_sha J j = ml_sha J i \<and> is_ok r
    then \<exists>x. read_key_package_record J i s = Some x \<and> kp_state x = Available \<and>
      read_key_package_record J i s' = Some (x \<lparr> kp_state := Reserved,
        reservation_digest := Some (hex_digest (ml_sha J secret)) \<rparr>)
    else read_key_package_record J i s' = read_key_package_record J i s"
proof (cases "s' = s \<and> \<not> is_ok r")
  case False
  then obtain x w where x: "read_key_package_record J j s = Some x" "kp_state x = Available"
    and w: "write_key_package_record J C io j (x \<lparr> kp_state := Reserved,
        reservation_digest := Some (hex_digest (ml_sha J secret)) \<rparr>) s = (w, s')" "is_ok w = is_ok r"
    using assms(2) by (auto simp: reserve_key_package_at_def Let_def split: option.splits if_splits prod.splits sum.splits)
  then show ?thesis
    using write_record_read [OF assms(1) w(1), of i] read_record_same [of J i j s]
    by (cases "ml_sha J j = ml_sha J i") simp_all
qed auto

lemma consume_change:
  assumes "mls_lib_ok J" "consume_key_package J C io j secret s = (r, s')"
  shows "if ml_sha J j = ml_sha J i \<and> is_ok r
    then \<exists>x. read_key_package_record J i s = Some x \<and> kp_state x = Reserved \<and>
      reservation_digest x = Some (hex_digest (ml_sha J secret)) \<and>
      read_key_package_record J i s' = Some (x \<lparr> kp_state := Consumed, reservation_digest := None \<rparr>)
    else read_key_package_record J i s' = read_key_package_record J i s"
proof (cases "s' = s \<and> \<not> is_ok r")
  case False
  then obtain x where x: "read_key_package_record J j s = Some x" "kp_state x = Reserved"
      "reservation_digest x = Some (hex_digest (ml_sha J secret))"
    and w: "write_key_package_record J C io j (x \<lparr> kp_state := Consumed, reservation_digest := None \<rparr>) s = (r, s')"
    using assms(2) by (auto simp: consume_key_package_def split: option.splits if_splits)
  then show ?thesis
    using write_record_read [OF assms(1) w(1), of i] read_record_same [of J i j s]
    by (cases "ml_sha J j = ml_sha J i") simp_all
qed auto

lemma kp_step_change:
  assumes J: "mls_lib_ok J" and step: "kp_step J C (op, io) s = (ok, s')"
  shows "kp_kept (read_key_package_record J i s) (read_key_package_record J i s') \<and>
      \<not> reserves J i (op, ok) \<and> \<not> consumes J i (op, ok) \<or>
    reserves J i (op, ok) \<and> (\<exists>r. read_key_package_record J i s = Some r \<and> kp_state r = Available \<and>
      read_key_package_record J i s' = Some (r \<lparr> kp_state := Reserved,
        reservation_digest := Some (hex_digest (ml_sha J (op_secret op))) \<rparr>)) \<or>
    consumes J i (op, ok) \<and> (\<exists>r. read_key_package_record J i s = Some r \<and> kp_state r = Reserved \<and>
      reservation_digest r = Some (hex_digest (ml_sha J (op_secret op))) \<and>
      read_key_package_record J i s' = Some (r \<lparr> kp_state := Consumed, reservation_digest := None \<rparr>))"
proof (cases op)
  case (Register j p)
  then show ?thesis using step register_kept(1) [OF J, of i s C io j p] by (auto simp: apfst_def map_prod_def split: prod.splits)
next
  case (RegisterFor j p a b)
  then show ?thesis
    using step register_kept(2) [OF J, of i s C io j p a b] by (auto simp: apfst_def map_prod_def split: prod.splits)
next
  case (Replenish n now ps)
  have "kp_kept (read_key_package_record J i s) (read_key_package_record J i s')"
  proof (cases "s' = s")
    case False
    then obtain ms added r where l: "replenish_loop J now s (n - available_key_package_count J now s) ps [] 0
        = Ok (ms, added)" and b: "apply_batch C io ms s = (r, s')"
      using step Replenish
      by (auto simp: replenish_key_packages_def Let_def kp_batch_def split: if_splits sum.splits prod.splits)
    show ?thesis by (rule batch_kept [OF J b replenish_loop_mutations [OF l]]) simp
  qed (simp add: kp_kept_def)
  then show ?thesis using Replenish by simp
next
  case (Reserve j secret now)
  then obtain r where r: "reserve_key_package_at J C io j secret now s = (r, s')" "ok = is_ok r"
    using step by (auto simp: apfst_def map_prod_def split: prod.splits)
  from reserve_change [OF J r(1), of i] show ?thesis
    using Reserve r(2) by (auto simp: kp_kept_def split: if_splits)
next
  case (Consume j secret)
  then obtain r where r: "consume_key_package J C io j secret s = (r, s')" "ok = is_ok r"
    using step by (auto simp: apfst_def map_prod_def split: prod.splits)
  from consume_change [OF J r(1), of i] show ?thesis
    using Consume r(2) by (auto simp: kp_kept_def split: if_splits)
qed

definition kp_rank :: "KeyPackageRecord option \<Rightarrow> nat" where
  "kp_rank x = (case x of None \<Rightarrow> 0
     | Some r \<Rightarrow> (case kp_state r of Available \<Rightarrow> 1 | Reserved \<Rightarrow> 2 | Consumed \<Rightarrow> 3 | Expired \<Rightarrow> 3))"

lemma kp_rank_simps [simp]:
  "kp_rank None = 0" "kp_state r = Available \<Longrightarrow> kp_rank (Some r) = 1"
  "kp_state r = Reserved \<Longrightarrow> kp_rank (Some r) = 2" "kp_state r = Consumed \<Longrightarrow> kp_rank (Some r) = 3"
  by (simp_all add: kp_rank_def)

lemma kp_kept_rank: "kp_kept x x' \<Longrightarrow> kp_rank x \<le> 1 \<and> kp_rank x' \<le> 1 \<or> x' = x"
  by (auto simp: kp_kept_def kp_fresh_def)

lemma kp_trace_counts:
  assumes "mls_lib_ok J"
  shows "length (filter (reserves J i) (kp_trace J C xs s)) \<le> (if kp_rank (read_key_package_record J i s) \<le> 1 then 1 else 0)
    \<and> length (filter (consumes J i) (kp_trace J C xs s)) \<le> (if kp_rank (read_key_package_record J i s) \<le> 2 then 1 else 0)"
proof (induction xs arbitrary: s)
  case (Cons x xs)
  obtain op io where x: "x = (op, io)" by (cases x)
  obtain ok s' where st: "kp_step J C (op, io) s = (ok, s')" by (cases "kp_step J C (op, io) s")
  have "consumes J i (op, ok) \<Longrightarrow> \<not> reserves J i (op, ok)" by (cases op) auto
  then show ?case
    using Cons.IH [of s'] kp_step_change [OF assms st, of i]
    by (auto simp: x st dest!: kp_kept_rank split: if_splits)
qed simp

lemma kp_trace_stepD:
  "y \<in> set (kp_trace J C (x # xs) s) \<Longrightarrow> kp_step J C x s = (ok, s') \<Longrightarrow>
     y = (fst x, ok) \<or> y \<in> set (kp_trace J C xs s')"
  by simp

lemma kp_trace_secret:
  assumes "mls_lib_ok J" "read_key_package_record J i s = Some r" "kp_state r = Reserved"
    and "(op, ok) \<in> set (kp_trace J C xs s)" "consumes J i (op, ok)"
  shows "reservation_digest r = Some (hex_digest (ml_sha J (op_secret op)))"
  using assms(2-4)
proof (induction xs arbitrary: s)
  case (Cons x xs)
  obtain op' io where x: "x = (op', io)" by (cases x)
  obtain ok' s' where st: "kp_step J C (op', io) s = (ok', s')" by (cases "kp_step J C (op', io) s")
  note ch = kp_step_change [OF assms(1) st, of i]
  show ?case
  proof (cases "(op, ok) = (op', ok')")
    case True
    then show ?thesis using ch assms(5) Cons.prems(1,2) by (cases op') auto
  next
    case False
    then have tail: "(op, ok) \<in> set (kp_trace J C xs s')" using kp_trace_stepD [OF Cons.prems(3) [unfolded x] st] by auto
    from ch Cons.prems(1,2) consider "read_key_package_record J i s' = Some r" |
      "kp_rank (read_key_package_record J i s') = 3"
      by (auto simp: kp_kept_def)
    then show ?thesis
    proof cases
      case 2
      then have "filter (consumes J i) (kp_trace J C xs s') = []"
        using kp_trace_counts [OF assms(1), of i C xs s'] by simp
      then show ?thesis using tail assms(5) by (auto simp: filter_empty_conv)
    qed (use Cons tail in blast)
  qed
qed simp

lemma kp_trace_reserved:
  assumes "mls_lib_ok J" "(op, ok) \<in> set (kp_trace J C xs s)" "reserves J i (op, ok)"
    "(op', ok') \<in> set (kp_trace J C xs s)" "consumes J i (op', ok')"
  shows "ml_sha J (op_secret op) = ml_sha J (op_secret op')"
  using assms(2,4)
proof (induction xs arbitrary: s)
  case (Cons x xs)
  obtain o2 io where x: "x = (o2, io)" by (cases x)
  obtain ok2 s' where st: "kp_step J C (o2, io) s = (ok2, s')" by (cases "kp_step J C (o2, io) s")
  note ch = kp_step_change [OF assms(1) st, of i]
  show ?case
  proof (cases "(op, ok) = (o2, ok2)")
    case True
    then obtain r where r: "read_key_package_record J i s' = Some r" "kp_state r = Reserved"
      "reservation_digest r = Some (hex_digest (ml_sha J (op_secret op)))"
      using ch assms(3) by (cases o2) auto
    have "(op', ok') \<in> set (kp_trace J C xs s')"
      using kp_trace_stepD [OF Cons.prems(2) [unfolded x] st] True assms(3,5) by (cases o2) auto
    from kp_trace_secret [OF assms(1) r(1,2) this assms(5)] r(3) show ?thesis by (simp add: hex_digest_def)
  next
    case False
    then have in1: "(op, ok) \<in> set (kp_trace J C xs s')" using kp_trace_stepD [OF Cons.prems(1) [unfolded x] st] by auto
    show ?thesis
    proof (cases "(op', ok') = (o2, ok2)")
      case True
      then have "kp_rank (read_key_package_record J i s') = 3" using ch assms(5) by (cases o2) auto
      then have "filter (reserves J i) (kp_trace J C xs s') = []"
        using kp_trace_counts [OF assms(1), of i C xs s'] by simp
      then show ?thesis using in1 assms(3) by (auto simp: filter_empty_conv)
    next
      case False
      then have "(op', ok') \<in> set (kp_trace J C xs s')" using kp_trace_stepD [OF Cons.prems(2) [unfolded x] st] by auto
      then show ?thesis using Cons.IH in1 by blast
    qed
  qed
qed simp

section \<open>Properties\<close>

text \<open>C36. A KeyPackage is used at most once, by the holder of its reservation.  In any sequence of
  registrations, replenishments, reservations and consumptions, whatever the outcomes of the system
  calls, at most one reservation and at most one consumption of a package succeed, and when both do they
  were made with the same secret, up to its digest.\<close>
theorem key_package_used_once:
  assumes "mls_lib_ok J"
  shows "length (filter (reserves J i) (kp_trace J C xs s)) \<le> 1 \<and>
    length (filter (consumes J i) (kp_trace J C xs s)) \<le> 1 \<and>
    (\<forall>x \<in> set (kp_trace J C xs s). \<forall>y \<in> set (kp_trace J C xs s).
      reserves J i x \<and> consumes J i y \<longrightarrow> ml_sha J (op_secret (fst x)) = ml_sha J (op_secret (fst y)))"
proof (intro conjI ballI impI)
  show "length (filter (reserves J i) (kp_trace J C xs s)) \<le> 1"
    "length (filter (consumes J i) (kp_trace J C xs s)) \<le> 1"
    using kp_trace_counts [OF assms, of i C xs s] by (auto split: if_splits)
next
  fix x y assume "x \<in> set (kp_trace J C xs s)" "y \<in> set (kp_trace J C xs s)" "reserves J i x \<and> consumes J i y"
  then show "ml_sha J (op_secret (fst x)) = ml_sha J (op_secret (fst y))"
    using kp_trace_reserved [OF assms, of "fst x" "snd x" C xs s i "fst y" "snd y"] by simp
qed

text \<open>An encoding of entities for evaluating statements on concrete values: the state and the digest of
  a KeyPackage record, one byte each way.\<close>

definition demo_mls :: mls_lib where
  "demo_mls = \<lparr> ml_sha = fit 32,
     kp_to = (\<lambda>r. if not_before r = None \<and> not_after r = None then
        (case (kp_state r, reservation_digest r) of
           (Available, None) \<Rightarrow> Some [1]
         | (Reserved, Some dg) \<Rightarrow> Some (2 # as_bytes dg)
         | (Consumed, None) \<Rightarrow> Some [3]
         | _ \<Rightarrow> None) else None),
     kp_of = (\<lambda>bs. if bs = [1] then Some \<lparr> kp_state = Available, reservation_digest = None, not_before = None, not_after = None \<rparr>
        else if bs = [3] then Some \<lparr> kp_state = Consumed, reservation_digest = None, not_before = None, not_after = None \<rparr>
        else if bs \<noteq> [] \<and> hd bs = 2 then Some \<lparr> kp_state = Reserved, reservation_digest = Some (bytes_to_string (tl bs)), not_before = None, not_after = None \<rparr>
        else None),
     leaves_to = (\<lambda>_. None), leaves_of = (\<lambda>_. None), refs_to = (\<lambda>_. None), refs_of = (\<lambda>_. None) \<rparr>"

lemma demo_mls_ok: "mls_lib_ok demo_mls"
  by (auto simp: mls_lib_ok_def demo_mls_def demo_sha_sized split: if_splits KeyPackageState.splits option.splits)

lemma hex_no_control: "\<not> list_ex is_ascii_control (hex bs)"
proof -
  have "\<not> is_ascii_control c" if "is_ascii_hexdigit c" for c
    using that by (auto simp: ascii_defs)
  then show ?thesis using hex_all_hexdigits [of bs] unfolding list_ex_iff list_all_iff by blast
qed

lemma package_keys_wf:
  assumes "mls_lib_ok J"
  shows "wf_key (crypto_key J KeyPackage i)" "wf_key (key_package_state_key J i)"
  using assms hex_no_control [of "ml_sha J i"]
  by (auto simp: wf_key_def crypto_key_def key_package_state_key_def MLS_PREFIX_def mls_lib_ok_def sha_sized_def
      list_ex_iff ascii_defs)

lemma demo_register:
  "fst (register_key_package demo_mls tag_crypto (demo_commit Done) [1] [9] (demo_store, demo_disk)) = Ok ()"
proof -
  note wf = package_keys_wf [OF demo_mls_ok, of "[1]"]
  let ?a = "(ProtocolSession, crypto_key demo_mls KeyPackage [1])"
  let ?b = "(ProtocolSession, key_package_state_key demo_mls [1])"
  let ?m = "fmupd ?b [1] (fmupd ?a [9] fmempty)"
  have "encode_entity (kp_to demo_mls) \<lparr> kp_state = Available, reservation_digest = None,
      not_before = None, not_after = None \<rparr> = Ok [1]"
    by (simp add: encode_entity_def demo_mls_def MAX_SERIALIZED_ENTITY_BYTES_def)
  moreover have "apply_mutations (package_mutations demo_mls [1] [9] [1]) fmempty = (Ok (), ?m)"
    using wf by (simp add: package_mutations_def MAX_VALUE_BYTES_def)
  moreover have "\<exists>pt. encode_records ?m = Ok pt"
    using wf by (auto simp: encode_records_ok_iff fcard_finsert_if fcard_fempty MAX_RECORDS_def MAX_VALUE_BYTES_def)
  then have "fst (commit tag_crypto (demo_commit Done) (demo_store \<lparr> records := ?m \<rparr>) demo_disk) = Ok ()"
    using demo_commit_ok by blast
  ultimately show ?thesis
    by (auto simp: register_key_package_def registered_def read_crypto_item_def read_key_package_record_def
        store_get_def get_def kp_batch_def apply_batch_def Let_def demo_store_def split: prod.splits)
qed

theorem key_package_used_once_witness:
  "fst (kp_step demo_mls tag_crypto (Register [1] [9], demo_commit Done) (demo_store, demo_disk)) \<and>
   length (filter (reserves demo_mls [1]) (kp_trace demo_mls tag_crypto
      [(Register [1] [9], demo_commit Done), (Reserve [1] [5] 0, demo_commit Done),
       (Reserve [1] [6] 0, demo_commit Done)] (demo_store, demo_disk))) \<le> 1"
  using key_package_used_once [OF demo_mls_ok] demo_register by (simp del: kp_trace.simps)

text \<open>The proposal queue: a queued proposal is read back and its reference is listed once; removing it
  takes both away and leaves the other proposals of the group; clearing empties the list.\<close>

lemma mls_keys [simp]: "mls_key g a = mls_key g b \<longleftrightarrow> a = b"
  by (simp add: mls_key_def)

lemma mls_commit_get:
  assumes "mls_commit C io g cs s = (Ok (), s')" "distinct (map fst cs)"
  shows "mls_read g item s' = (case map_of cs item of None \<Rightarrow> mls_read g item s | Some x \<Rightarrow> x)"
proof -
  obtain st d st' d' where s: "s = (st, d)" "s' = (st', d')" by (cases s; cases s')
  have ap: "apply_mutations (map (mls_change g) cs) (records st) = (Ok (), records st')" "\<not> locked st" "\<not> locked st'"
    using apply_batch_records(2,3) [of C io "map (mls_change g) cs" st d "Ok ()" st' d'] assms(1)
    by (simp_all add: mls_commit_def s)
  have "fmlookup m' (ProtocolSession, mls_key g item)
      = (case map_of cs item of None \<Rightarrow> fmlookup m (ProtocolSession, mls_key g item) | Some x \<Rightarrow> x)"
    if "apply_mutations (map (mls_change g) cs) m = (Ok (), m')" for m m'
    using that assms(2)
  proof (induction cs arbitrary: m)
    case (Cons c cs)
    obtain i v where c: "c = (i, v)" by (cases c)
    have "map_of cs i = None" using Cons.prems(2) c by (auto simp: map_of_eq_None_iff)
    then show ?case
      using Cons.prems Cons.IH
      by (cases v) (auto simp: c mls_change_def split: sum.splits if_splits option.splits)
  qed simp
  from this [OF ap(1)] show ?thesis by (simp add: mls_read_def s store_get_def get_def ap split: option.splits)
qed

lemma encode_refs_decode:
  "encode_entity (refs_to J) x = Ok v \<Longrightarrow> mls_lib_ok J \<Longrightarrow> res_ok (decode_entity (refs_of J) v) = Some x"
  by (auto simp: encode_entity_def decode_entity_def mls_lib_ok_def split: if_splits)

theorem proposal_queue:
  assumes "mls_lib_ok J"
  shows "queue_proposal J C io g p v s = (Ok (), s') \<Longrightarrow>
      proposal_ref_key J p \<notin> set (queued_proposal_refs J g s) \<Longrightarrow>
      queued_proposal_refs J g s' = queued_proposal_refs J g s @ [proposal_ref_key J p] \<and>
      queued_proposal J g p s' = Some v \<and>
      (\<forall>q. ml_sha J q \<noteq> ml_sha J p \<longrightarrow> queued_proposal J g q s' = queued_proposal J g q s)"
    and "remove_proposal J C io g p s = (Ok (), s') \<Longrightarrow>
      queued_proposal_refs J g s' = filter (\<lambda>x. x \<noteq> proposal_ref_key J p) (queued_proposal_refs J g s) \<and>
      queued_proposal J g p s' = None \<and>
      (\<forall>q. ml_sha J q \<noteq> ml_sha J p \<longrightarrow> queued_proposal J g q s' = queued_proposal J g q s)"
    and "clear_proposals J C io g s = (Ok (), s') \<Longrightarrow> distinct (queued_proposal_refs J g s) \<Longrightarrow>
      queued_proposal_refs J g s' = [] \<and>
      (\<forall>q. proposal_ref_key J q \<in> set (queued_proposal_refs J g s) \<longrightarrow> queued_proposal J g q s' = None)"
proof -
  assume q: "queue_proposal J C io g p v s = (Ok (), s')"
    and fresh: "proposal_ref_key J p \<notin> set (queued_proposal_refs J g s)"
  obtain rv where rv: "encode_entity (refs_to J) (queued_proposal_refs J g s @ [proposal_ref_key J p]) = Ok rv"
    and c: "mls_commit C io g [(''proposal-refs'', Some rv), (''proposal/'' @ proposal_ref_key J p, Some v)] s = (Ok (), s')"
    using q fresh by (auto simp: queue_proposal_def Let_def split: if_splits sum.splits)
  show "queued_proposal_refs J g s' = queued_proposal_refs J g s @ [proposal_ref_key J p] \<and>
      queued_proposal J g p s' = Some v \<and>
      (\<forall>q. ml_sha J q \<noteq> ml_sha J p \<longrightarrow> queued_proposal J g q s' = queued_proposal J g q s)"
    using mls_commit_get [OF c] encode_refs_decode [OF rv assms]
    by (simp add: queued_proposal_refs_def [of J g s'] queued_proposal_def proposal_ref_key_def)
next
  assume q: "remove_proposal J C io g p s = (Ok (), s')"
  let ?rs = "filter (\<lambda>x. x \<noteq> proposal_ref_key J p) (queued_proposal_refs J g s)"
  obtain rv where rv: "encode_entity (refs_to J) ?rs = Ok rv"
    and c: "mls_commit C io g [(''proposal-refs'', Some rv), (''proposal/'' @ proposal_ref_key J p, None)] s = (Ok (), s')"
    using q by (auto simp: remove_proposal_def Let_def split: sum.splits)
  show "queued_proposal_refs J g s' = filter (\<lambda>x. x \<noteq> proposal_ref_key J p) (queued_proposal_refs J g s) \<and>
      queued_proposal J g p s' = None \<and>
      (\<forall>q. ml_sha J q \<noteq> ml_sha J p \<longrightarrow> queued_proposal J g q s' = queued_proposal J g q s)"
    using mls_commit_get [OF c] encode_refs_decode [OF rv assms]
    by (simp add: queued_proposal_refs_def [of J g s'] queued_proposal_def proposal_ref_key_def)
next
  assume q: "clear_proposals J C io g s = (Ok (), s')" and dist: "distinct (queued_proposal_refs J g s)"
  let ?cs = "(''proposal-refs'', None) # map (\<lambda>r. (''proposal/'' @ r, None)) (queued_proposal_refs J g s)"
  have "distinct (map fst ?cs)"
    using dist by (auto simp: distinct_map inj_on_def o_def)
  note get = mls_commit_get [OF q [unfolded clear_proposals_def] this]
  have m: "map_of (map (\<lambda>r. (''proposal/'' @ r, None :: bytes option)) rs) (''proposal/'' @ x) = Some None"
    if "x \<in> set rs" for rs x
    using that by (induction rs) auto
  show "queued_proposal_refs J g s' = [] \<and>
      (\<forall>q. proposal_ref_key J q \<in> set (queued_proposal_refs J g s) \<longrightarrow> queued_proposal J g q s' = None)"
  proof (intro conjI allI impI)
    have "mls_read g ''proposal-refs'' s' = None" using get [of "''proposal-refs''"] by simp
    then show "queued_proposal_refs J g s' = []" by (simp add: queued_proposal_refs_def [of J g s'])
  next
    fix q assume "proposal_ref_key J q \<in> set (queued_proposal_refs J g s)"
    from m [OF this] show "queued_proposal J g q s' = None"
      using get [of "''proposal/'' @ proposal_ref_key J q"] by (simp add: queued_proposal_def)
  qed
qed

end
