(* ===== verification/Mls_Session.thy ===== *)
theory Mls_Session
  imports Encrypted_Store AD_Text Attachment
begin

text \<open>
  The MLS session boundary (\<^verbatim>\<open>mls_session.rs\<close>): a session wraps an OpenMLS group with its provider
  storage and signing key, the catalog keeps the sessions of all conversations, and checkpoints of
  sessions are records of the encrypted store.

  OpenMLS is third-party code and is the argument \<open>openmls\<close>: each of its calls is a function of the
  provider storage and the objects it is given, and returns the storage and the group it leaves and, when
  it succeeds, its result.  Its objects other than groups are opaque values.  The argument is given anew
  to every operation, so what depends on randomness may differ from call to call.
\<close>

section \<open>OpenMLS\<close>

type_synonym mls_values = "(bytes, bytes) btree"

record CredentialWithKey =
  cred_identity :: bytes
  cred_signature_key :: bytes

datatype 'o MlsBody = WelcomeBody 'o | ProtocolBody 'o | OtherBody

datatype 'o Processed = ApplicationMessage bytes | StagedCommitMessage 'o | OtherContent

record ('g, 'o) openmls =
  om_ed :: ed25519
  om_provider :: bool
  om_key_gen :: "(bytes \<times> bytes) option"
  om_build_key_package :: "mls_values \<Rightarrow> bytes \<Rightarrow> CredentialWithKey \<Rightarrow> u64 \<Rightarrow> mls_values \<times> 'o option"
  om_new_group :: "mls_values \<Rightarrow> bytes \<Rightarrow> CredentialWithKey \<Rightarrow> mls_values \<times> 'g option"
  om_read_key_package :: "bytes \<Rightarrow> ('o \<times> bytes) option"
  om_validate_key_package :: "'o \<Rightarrow> 'o option"
  om_add_members :: "mls_values \<Rightarrow> bytes \<Rightarrow> 'g \<Rightarrow> 'o \<Rightarrow> mls_values \<times> 'g \<times> 'o option"
  om_merge_pending :: "mls_values \<Rightarrow> 'g \<Rightarrow> mls_values \<times> 'g \<times> bool"
  om_members :: "'g \<Rightarrow> (bytes \<times> u32) list"
  om_remove_members :: "mls_values \<Rightarrow> bytes \<Rightarrow> 'g \<Rightarrow> u32 \<Rightarrow> mls_values \<times> 'g \<times> 'o option"
  om_read_message :: "bytes \<Rightarrow> ('o MlsBody \<times> bytes) option"
  om_stage_welcome :: "mls_values \<Rightarrow> 'o \<Rightarrow> mls_values \<times> 'o option"
  om_into_group :: "mls_values \<Rightarrow> 'o \<Rightarrow> mls_values \<times> 'g option"
  om_create_message :: "mls_values \<Rightarrow> bytes \<Rightarrow> 'g \<Rightarrow> bytes \<Rightarrow> mls_values \<times> 'g \<times> 'o option"
  om_process_message :: "mls_values \<Rightarrow> 'g \<Rightarrow> 'o \<Rightarrow> mls_values \<times> 'g \<times> 'o Processed option"
  om_merge_staged :: "mls_values \<Rightarrow> 'g \<Rightarrow> 'o \<Rightarrow> mls_values \<times> 'g \<times> bool"
  om_serialize :: "'o \<Rightarrow> bytes option"
  om_group_id :: "'g \<Rightarrow> bytes option"
  om_group_id_exact :: "bytes \<Rightarrow> bool"
  om_load :: "mls_values \<Rightarrow> bytes \<Rightarrow> 'g option option"
  om_entries :: "mls_values \<Rightarrow> (bytes \<times> bytes) list"

definition MAX_IDENTITY_BYTES :: nat where "MAX_IDENTITY_BYTES = 1024"
definition MAX_MESSAGE_BYTES :: nat where "MAX_MESSAGE_BYTES = 64 * 1024"
definition MAX_WIRE_BYTES :: nat where "MAX_WIRE_BYTES = 4 * 1024 * 1024"
definition ATTACHMENT_MESSAGE_PREFIX :: bytes where "ATTACHMENT_MESSAGE_PREFIX = as_bytes ''ADATT1.''"
definition DEFAULT_KEY_PACKAGE_LIFETIME_SECONDS :: u64 where
  "DEFAULT_KEY_PACKAGE_LIFETIME_SECONDS = 7 * 24 * 60 * 60"
definition MAX_KEY_PACKAGE_LIFETIME_SECONDS :: u64 where
  "MAX_KEY_PACKAGE_LIFETIME_SECONDS = 7 * 24 * 60 * 60"

datatype SessionError =
  ProviderError | IdentityTooLarge | UnsupportedMessage | InvalidWire | WireTooLarge | CryptoError
| NotJoined | OpenMlsError | StorageFailed

datatype SessionCatalogError =
  InvalidConversation | DuplicateConversation | UnknownConversation | SessionFailed SessionError

record 'g MlsSession =
  ms_values :: mls_values
  ms_credential :: CredentialWithKey
  ms_private_key :: bytes
  ms_group :: "'g option"
  ms_poisoned :: bool

record SessionSnapshot =
  sn_credential :: CredentialWithKey
  sn_private_signature_key :: bytes
  sn_group_id :: bytes
  sn_storage :: "(bytes \<times> bytes) list"

text \<open>The JSON of snapshots and of attachment descriptors.\<close>

record session_json =
  snap_to :: "SessionSnapshot \<Rightarrow> bytes option"
  snap_of :: "bytes \<Rightarrow> SessionSnapshot option"
  desc_to :: "AttachmentDescriptor \<Rightarrow> bytes option"
  desc_of :: "bytes \<Rightarrow> AttachmentDescriptor option"

definition strip_bytes :: "bytes \<Rightarrow> bytes \<Rightarrow> bytes option" where
  "strip_bytes prefix bs = (if take (length prefix) bs = prefix then Some (drop (length prefix) bs) else None)"

definition attachment_descriptor_from_plaintext :: "session_json \<Rightarrow> bytes \<Rightarrow> AttachmentDescriptor option" where
  "attachment_descriptor_from_plaintext J plaintext =
     Option.bind (strip_bytes ATTACHMENT_MESSAGE_PREFIX plaintext) (desc_of J)"

definition valid_conversation_id :: "string \<Rightarrow> bool" where
  "valid_conversation_id v \<longleftrightarrow> v \<noteq> [] \<and> length v \<le> 128 \<and>
     list_all (\<lambda>c. is_ascii_alphanumeric c \<or> c = CHR ''-'' \<or> c = CHR ''_'') v"

definition session_key :: "string \<Rightarrow> string" where
  "session_key conversation_id = ''mls/session/'' @ conversation_id"

section \<open>Sessions\<close>

definition ensure_usable :: "'g MlsSession \<Rightarrow> SessionError + unit" where
  "ensure_usable s = (if ms_poisoned s then Err StorageFailed else Ok ())"

definition from_signature_key :: "bytes \<Rightarrow> bytes \<Rightarrow> bytes \<Rightarrow> 'g MlsSession" where
  "from_signature_key identity private_key public_key =
     \<lparr> ms_values = fmempty,
       ms_credential = \<lparr> cred_identity = identity, cred_signature_key = public_key \<rparr>,
       ms_private_key = private_key, ms_group = None, ms_poisoned = False \<rparr>"

definition session_new :: "('g, 'o) openmls \<Rightarrow> bytes \<Rightarrow> SessionError + 'g MlsSession" where
  "session_new M identity =
     (if identity = [] \<or> MAX_IDENTITY_BYTES < length identity then Err IdentityTooLarge
      else if \<not> om_provider M then Err ProviderError
      else case om_key_gen M of
        None \<Rightarrow> Err CryptoError
      | Some (private_key, public_key) \<Rightarrow> Ok (from_signature_key identity private_key public_key))"

definition session_new_with_signature_key ::
    "('g, 'o) openmls \<Rightarrow> bytes \<Rightarrow> bytes \<Rightarrow> SessionError + 'g MlsSession" where
  "session_new_with_signature_key M identity private_key =
     (if identity = [] \<or> MAX_IDENTITY_BYTES < length identity then Err IdentityTooLarge
      else if \<not> om_provider M then Err ProviderError
      else Ok (from_signature_key identity private_key (ed_public (om_ed M) private_key)))"

definition key_package_with_lifetime ::
    "('g, 'o) openmls \<Rightarrow> u64 \<Rightarrow> 'g MlsSession \<Rightarrow> (SessionError + bytes) \<times> 'g MlsSession" where
  "key_package_with_lifetime M lifetime s =
     (if ms_poisoned s then (Err StorageFailed, s)
      else if lifetime = 0 \<or> MAX_KEY_PACKAGE_LIFETIME_SECONDS < lifetime then (Err WireTooLarge, s)
      else case om_build_key_package M (ms_values s) (ms_private_key s) (ms_credential s) lifetime of
        (vs, None) \<Rightarrow> (Err OpenMlsError, s \<lparr> ms_values := vs \<rparr>)
      | (vs, Some kp) \<Rightarrow> (ok_or (om_serialize M kp) InvalidWire, s \<lparr> ms_values := vs \<rparr>))"

definition session_key_package ::
    "('g, 'o) openmls \<Rightarrow> 'g MlsSession \<Rightarrow> (SessionError + bytes) \<times> 'g MlsSession" where
  "session_key_package M s =
     (if ms_poisoned s then (Err StorageFailed, s)
      else key_package_with_lifetime M DEFAULT_KEY_PACKAGE_LIFETIME_SECONDS s)"

definition create_group ::
    "('g, 'o) openmls \<Rightarrow> 'g MlsSession \<Rightarrow> (SessionError + unit) \<times> 'g MlsSession" where
  "create_group M s =
     (if ms_poisoned s then (Err StorageFailed, s)
      else if ms_group s \<noteq> None then (Err OpenMlsError, s)
      else case om_new_group M (ms_values s) (ms_private_key s) (ms_credential s) of
        (vs, None) \<Rightarrow> (Err OpenMlsError, s \<lparr> ms_values := vs \<rparr>)
      | (vs, Some g) \<Rightarrow> (Ok (), s \<lparr> ms_values := vs, ms_group := Some g \<rparr>))"

definition session_add_member ::
    "('g, 'o) openmls \<Rightarrow> bytes \<Rightarrow> 'g MlsSession \<Rightarrow> (SessionError + bytes) \<times> 'g MlsSession" where
  "session_add_member M key_package s =
     (if ms_poisoned s then (Err StorageFailed, s)
      else case om_read_key_package M key_package of
        None \<Rightarrow> (Err InvalidWire, s)
      | Some (kp, rest) \<Rightarrow>
          if rest \<noteq> [] then (Err InvalidWire, s)
          else (case om_validate_key_package M kp of
            None \<Rightarrow> (Err InvalidWire, s)
          | Some valid \<Rightarrow>
              (case ms_group s of
                 None \<Rightarrow> (Err NotJoined, s)
               | Some g \<Rightarrow>
                   (case om_add_members M (ms_values s) (ms_private_key s) g valid of
                      (vs, g1, None) \<Rightarrow> (Err OpenMlsError, s \<lparr> ms_values := vs, ms_group := Some g1 \<rparr>)
                    | (vs, g1, Some welcome) \<Rightarrow>
                        (case om_merge_pending M vs g1 of
                           (vs2, g2, merged) \<Rightarrow>
                             (if merged then ok_or (om_serialize M welcome) InvalidWire else Err OpenMlsError,
                              s \<lparr> ms_values := vs2, ms_group := Some g2 \<rparr>))))))"

definition session_remove_member ::
    "('g, 'o) openmls \<Rightarrow> bytes \<Rightarrow> 'g MlsSession \<Rightarrow> (SessionError + bytes option) \<times> 'g MlsSession" where
  "session_remove_member M device_credential s =
     (if ms_poisoned s then (Err StorageFailed, s)
      else case ms_group s of
        None \<Rightarrow> (Err NotJoined, s)
      | Some g \<Rightarrow>
          (case find (\<lambda>(content, _). content = device_credential) (om_members M g) of
             None \<Rightarrow> (Ok None, s)
           | Some (_, index) \<Rightarrow>
               (case om_remove_members M (ms_values s) (ms_private_key s) g index of
                  (vs, g1, None) \<Rightarrow> (Err OpenMlsError, s \<lparr> ms_values := vs, ms_group := Some g1 \<rparr>)
                | (vs, g1, Some c) \<Rightarrow>
                    (case om_merge_pending M vs g1 of
                       (vs2, g2, merged) \<Rightarrow>
                         (if merged then map_sum id Some (ok_or (om_serialize M c) InvalidWire)
                          else Err OpenMlsError,
                          s \<lparr> ms_values := vs2, ms_group := Some g2 \<rparr>)))))"

definition session_join ::
    "('g, 'o) openmls \<Rightarrow> bytes \<Rightarrow> 'g MlsSession \<Rightarrow> (SessionError + unit) \<times> 'g MlsSession" where
  "session_join M welcome_wire s =
     (if ms_poisoned s then (Err StorageFailed, s)
      else if MAX_WIRE_BYTES < length welcome_wire then (Err WireTooLarge, s)
      else case om_read_message M welcome_wire of
        None \<Rightarrow> (Err InvalidWire, s)
      | Some (body, rest) \<Rightarrow>
          if rest \<noteq> [] then (Err InvalidWire, s)
          else (case body of
            WelcomeBody w \<Rightarrow>
              (case om_stage_welcome M (ms_values s) w of
                 (vs, None) \<Rightarrow> (Err OpenMlsError, s \<lparr> ms_values := vs \<rparr>)
               | (vs, Some staged) \<Rightarrow>
                   (case om_into_group M vs staged of
                      (vs2, None) \<Rightarrow> (Err OpenMlsError, s \<lparr> ms_values := vs2 \<rparr>)
                    | (vs2, Some g) \<Rightarrow> (Ok (), s \<lparr> ms_values := vs2, ms_group := Some g \<rparr>)))
          | _ \<Rightarrow> (Err UnsupportedMessage, s)))"

definition encrypt ::
    "('g, 'o) openmls \<Rightarrow> bytes \<Rightarrow> 'g MlsSession \<Rightarrow> (SessionError + bytes) \<times> 'g MlsSession" where
  "encrypt M plaintext s =
     (if ms_poisoned s then (Err StorageFailed, s)
      else if MAX_MESSAGE_BYTES < length plaintext then (Err WireTooLarge, s)
      else case ms_group s of
        None \<Rightarrow> (Err NotJoined, s)
      | Some g \<Rightarrow>
          (case om_create_message M (ms_values s) (ms_private_key s) g plaintext of
             (vs, g1, m) \<Rightarrow>
               (case m of None \<Rightarrow> Err OpenMlsError | Some msg \<Rightarrow> ok_or (om_serialize M msg) InvalidWire,
                s \<lparr> ms_values := vs, ms_group := Some g1 \<rparr>)))"

definition decrypt_delivery ::
    "('g, 'o) openmls \<Rightarrow> bytes \<Rightarrow> 'g MlsSession \<Rightarrow> (SessionError + bytes option) \<times> 'g MlsSession" where
  "decrypt_delivery M wire s =
     (if ms_poisoned s then (Err StorageFailed, s)
      else if MAX_WIRE_BYTES < length wire then (Err WireTooLarge, s)
      else case om_read_message M wire of
        Some (ProtocolBody m, rest) \<Rightarrow>
          if rest \<noteq> [] then (Err InvalidWire, s)
          else (case ms_group s of
            None \<Rightarrow> (Err NotJoined, s)
          | Some g \<Rightarrow>
              (case om_process_message M (ms_values s) g m of
                 (vs, g1, None) \<Rightarrow> (Err OpenMlsError, s \<lparr> ms_values := vs, ms_group := Some g1 \<rparr>)
               | (vs, g1, Some (ApplicationMessage bs)) \<Rightarrow>
                   (Ok (Some bs), s \<lparr> ms_values := vs, ms_group := Some g1 \<rparr>)
               | (vs, g1, Some (StagedCommitMessage c)) \<Rightarrow>
                   (case om_merge_staged M vs g1 c of
                      (vs2, g2, merged) \<Rightarrow>
                        (if merged then Ok None else Err OpenMlsError,
                         s \<lparr> ms_values := vs2, ms_group := Some g2 \<rparr>))
               | (vs, g1, Some OtherContent) \<Rightarrow>
                   (Err UnsupportedMessage, s \<lparr> ms_values := vs, ms_group := Some g1 \<rparr>)))
      | _ \<Rightarrow> (Err InvalidWire, s))"

definition decrypt ::
    "('g, 'o) openmls \<Rightarrow> bytes \<Rightarrow> 'g MlsSession \<Rightarrow> (SessionError + bytes) \<times> 'g MlsSession" where
  "decrypt M wire s =
     (case decrypt_delivery M wire s of
        (Inl e, s') \<Rightarrow> (Err e, s')
      | (Inr x, s') \<Rightarrow> (ok_or x UnsupportedMessage, s'))"

definition encrypt_attachment ::
    "('g, 'o) openmls \<Rightarrow> session_json \<Rightarrow> AttachmentDescriptor \<Rightarrow> 'g MlsSession
      \<Rightarrow> (SessionError + bytes) \<times> 'g MlsSession" where
  "encrypt_attachment M J descriptor s =
     (case desc_to J descriptor of
        None \<Rightarrow> (Err InvalidWire, s)
      | Some encoded \<Rightarrow> encrypt M (ATTACHMENT_MESSAGE_PREFIX @ encoded) s)"

definition decrypt_attachment ::
    "('g, 'o) openmls \<Rightarrow> session_json \<Rightarrow> bytes \<Rightarrow> 'g MlsSession
      \<Rightarrow> (SessionError + AttachmentDescriptor) \<times> 'g MlsSession" where
  "decrypt_attachment M J wire s =
     (case decrypt M wire s of
        (Inl e, s') \<Rightarrow> (Err e, s')
      | (Inr payload, s') \<Rightarrow>
          (case strip_bytes ATTACHMENT_MESSAGE_PREFIX payload of
             None \<Rightarrow> (Err UnsupportedMessage, s')
           | Some encoded \<Rightarrow> (ok_or (desc_of J encoded) InvalidWire, s')))"

section \<open>Checkpoints\<close>

definition snapshot_bytes :: "('g, 'o) openmls \<Rightarrow> session_json \<Rightarrow> 'g MlsSession \<Rightarrow> SessionError + bytes" where
  "snapshot_bytes M J s =
     (if ms_poisoned s then Err StorageFailed
      else res_bind (ok_or (ms_group s) NotJoined) (\<lambda>g.
           res_bind (ok_or (om_group_id M g) InvalidWire) (\<lambda>gid.
           res_bind (ok_or (snap_to J \<lparr> sn_credential = ms_credential s,
               sn_private_signature_key = ms_private_key s, sn_group_id = gid,
               sn_storage = om_entries M (ms_values s) \<rparr>) StorageFailed) (\<lambda>bs.
             if 4 * 1024 * 1024 < length bs then Err WireTooLarge else Ok bs))))"

definition session_persist ::
    "('g, 'o) openmls \<Rightarrow> session_json \<Rightarrow> store_crypto \<Rightarrow> commit_io \<Rightarrow> string \<Rightarrow> 'g MlsSession
      \<Rightarrow> EncryptedStore \<times> disk \<Rightarrow> (SessionError + unit) \<times> EncryptedStore \<times> disk" where
  "session_persist M J C io conversation_id s st =
     (case snapshot_bytes M J s of
        Inl e \<Rightarrow> (Err e, st)
      | Inr bs \<Rightarrow>
          (case store_put C io (ProtocolSession, session_key conversation_id) bs st of
             (r, st') \<Rightarrow> (map_err (\<lambda>_. StorageFailed) r, st')))"

definition persist_or_poison ::
    "('g, 'o) openmls \<Rightarrow> session_json \<Rightarrow> store_crypto \<Rightarrow> commit_io \<Rightarrow> string
      \<Rightarrow> 'g MlsSession \<times> EncryptedStore \<times> disk
      \<Rightarrow> (SessionError + unit) \<times> 'g MlsSession \<times> EncryptedStore \<times> disk" where
  "persist_or_poison M J C io conversation_id = (\<lambda>(s, st).
     case session_persist M J C io conversation_id s st of
       (Inl e, st') \<Rightarrow> (Err e, s \<lparr> ms_poisoned := True \<rparr>, st')
     | (Inr _, st') \<Rightarrow> (Ok (), s, st'))"

text \<open>An operation of a session followed by a checkpoint, as the four operations that report a state to
  the outside do it.\<close>

definition then_persist ::
    "('g, 'o) openmls \<Rightarrow> session_json \<Rightarrow> store_crypto \<Rightarrow> commit_io \<Rightarrow> string
      \<Rightarrow> (SessionError + 'a) \<times> 'g MlsSession \<Rightarrow> EncryptedStore \<times> disk
      \<Rightarrow> (SessionError + 'a) \<times> 'g MlsSession \<times> EncryptedStore \<times> disk" where
  "then_persist M J C io conversation_id outcome st =
     (case outcome of
        (Inl e, s) \<Rightarrow> (Err e, s, st)
      | (Inr x, s) \<Rightarrow>
          (case persist_or_poison M J C io conversation_id (s, st) of
             (Inl e, s', st') \<Rightarrow> (Err e, s', st')
           | (Inr _, s', st') \<Rightarrow> (Ok x, s', st')))"

definition create_group_and_persist where
  "create_group_and_persist M J C io conversation_id s st =
     then_persist M J C io conversation_id (create_group M s) st"

definition add_member_and_persist where
  "add_member_and_persist M J C io conversation_id key_package s st =
     then_persist M J C io conversation_id (session_add_member M key_package s) st"

definition join_and_persist where
  "join_and_persist M J C io conversation_id welcome_wire s st =
     then_persist M J C io conversation_id (session_join M welcome_wire s) st"

definition remove_member_and_persist ::
    "('g, 'o) openmls \<Rightarrow> session_json \<Rightarrow> store_crypto \<Rightarrow> commit_io \<Rightarrow> string \<Rightarrow> bytes \<Rightarrow> 'g MlsSession
      \<Rightarrow> EncryptedStore \<times> disk \<Rightarrow> (SessionError + bytes option) \<times> 'g MlsSession \<times> EncryptedStore \<times> disk" where
  "remove_member_and_persist M J C io conversation_id device_credential s st =
     (case session_remove_member M device_credential s of
        (Inr None, s') \<Rightarrow> (Ok None, s', st)
      | outcome \<Rightarrow> then_persist M J C io conversation_id outcome st)"

definition signature_key_matches :: "('g, 'o) openmls \<Rightarrow> bytes \<Rightarrow> 'g MlsSession \<Rightarrow> bool" where
  "signature_key_matches M private_key s \<longleftrightarrow>
     cred_signature_key (ms_credential s) = ed_public (om_ed M) private_key"

definition session_restore ::
    "('g, 'o) openmls \<Rightarrow> session_json \<Rightarrow> string \<Rightarrow> EncryptedStore \<times> disk \<Rightarrow> SessionError + 'g MlsSession" where
  "session_restore M J conversation_id st =
     res_bind (ok_or (store_get (ProtocolSession, session_key conversation_id) st) StorageFailed) (\<lambda>bs.
       if 4 * 1024 * 1024 < length bs then Err WireTooLarge
       else res_bind (ok_or (snap_of J bs) StorageFailed) (\<lambda>sn.
         let private_key = sn_private_signature_key sn; vs = fmap_of_list (rev (sn_storage sn)) in
         if length private_key \<noteq> 32 then Err StorageFailed
         else if cred_signature_key (sn_credential sn) \<noteq> ed_public (om_ed M) private_key then Err StorageFailed
         else if \<not> om_provider M then Err ProviderError
         else if \<not> om_group_id_exact M (sn_group_id sn) then Err InvalidWire
         else res_bind (ok_or (om_load M vs (sn_group_id sn)) OpenMlsError) (\<lambda>loaded.
              res_bind (ok_or loaded StorageFailed) (\<lambda>g.
                Ok \<lparr> ms_values = vs, ms_credential = sn_credential sn, ms_private_key = private_key,
                     ms_group = Some g, ms_poisoned = False \<rparr>))))"

section \<open>The catalog\<close>

record 'g MlsSessionCatalog =
  sessions :: "(string, 'g MlsSession) btree"
  device_private_signature_key :: "bytes option"

definition catalog_new :: "'g MlsSessionCatalog" where
  "catalog_new = \<lparr> sessions = fmempty, device_private_signature_key = None \<rparr>"

definition catalog_new_with_device_private_key :: "bytes \<Rightarrow> 'g MlsSessionCatalog" where
  "catalog_new_with_device_private_key k = \<lparr> sessions = fmempty, device_private_signature_key = Some k \<rparr>"

definition new_session ::
    "('g, 'o) openmls \<Rightarrow> 'g MlsSessionCatalog \<Rightarrow> bytes \<Rightarrow> SessionError + 'g MlsSession" where
  "new_session M cat identity =
     (case device_private_signature_key cat of
        Some k \<Rightarrow> session_new_with_signature_key M identity k
      | None \<Rightarrow> session_new M identity)"

definition conversation_ids :: "'g MlsSessionCatalog \<Rightarrow> string list" where
  "conversation_ids cat = map fst (sorted_list_of_fmap (sessions cat))"

definition put_session :: "string \<Rightarrow> 'g MlsSession \<Rightarrow> 'g MlsSessionCatalog \<Rightarrow> 'g MlsSessionCatalog" where
  "put_session c s cat = cat \<lparr> sessions := fmupd c s (sessions cat) \<rparr>"

type_synonym 'g cat_state = "'g MlsSessionCatalog \<times> EncryptedStore \<times> disk"

definition catalog_create ::
    "('g, 'o) openmls \<Rightarrow> session_json \<Rightarrow> store_crypto \<Rightarrow> commit_io \<Rightarrow> string \<Rightarrow> bytes \<Rightarrow> 'g cat_state
      \<Rightarrow> (SessionCatalogError + unit) \<times> 'g cat_state" where
  "catalog_create M J C io c identity = (\<lambda>(cat, st).
     if \<not> valid_conversation_id c then (Err InvalidConversation, cat, st)
     else if fmlookup (sessions cat) c \<noteq> None then (Err DuplicateConversation, cat, st)
     else case new_session M cat identity of
       Inl e \<Rightarrow> (Err (SessionFailed e), cat, st)
     | Inr s \<Rightarrow>
         (case create_group_and_persist M J C io c s st of
            (Inl e, _, st') \<Rightarrow> (Err (SessionFailed e), cat, st')
          | (Inr _, s', st') \<Rightarrow> (Ok (), put_session c s' cat, st')))"

definition catalog_join ::
    "('g, 'o) openmls \<Rightarrow> session_json \<Rightarrow> store_crypto \<Rightarrow> commit_io \<Rightarrow> string \<Rightarrow> bytes \<Rightarrow> bytes \<Rightarrow> 'g cat_state
      \<Rightarrow> (SessionCatalogError + unit) \<times> 'g cat_state" where
  "catalog_join M J C io c identity welcome = (\<lambda>(cat, st).
     if \<not> valid_conversation_id c then (Err InvalidConversation, cat, st)
     else case fmlookup (sessions cat) c of
       Some s \<Rightarrow>
         (case join_and_persist M J C io c welcome s st of
            (r, s', st') \<Rightarrow> (map_err SessionFailed r, put_session c s' cat, st'))
     | None \<Rightarrow>
         (case new_session M cat identity of
            Inl e \<Rightarrow> (Err (SessionFailed e), cat, st)
          | Inr s \<Rightarrow>
              (case join_and_persist M J C io c welcome s st of
                 (Inl e, _, st') \<Rightarrow> (Err (SessionFailed e), cat, st')
               | (Inr _, s', st') \<Rightarrow> (Ok (), put_session c s' cat, st'))))"

definition catalog_prepare ::
    "('g, 'o) openmls \<Rightarrow> session_json \<Rightarrow> store_crypto \<Rightarrow> commit_io \<Rightarrow> string \<Rightarrow> bytes \<Rightarrow> 'g cat_state
      \<Rightarrow> (SessionCatalogError + bytes) \<times> 'g cat_state" where
  "catalog_prepare M J C io c identity = (\<lambda>(cat, st).
     if \<not> valid_conversation_id c then (Err InvalidConversation, cat, st)
     else if fmlookup (sessions cat) c \<noteq> None then (Err DuplicateConversation, cat, st)
     else case new_session M cat identity of
       Inl e \<Rightarrow> (Err (SessionFailed e), cat, st)
     | Inr s \<Rightarrow>
         (case create_group M s of
            (Inl e, _) \<Rightarrow> (Err (SessionFailed e), cat, st)
          | (Inr _, s1) \<Rightarrow>
              (case then_persist M J C io c (session_key_package M s1) st of
                 (Inl e, _, st') \<Rightarrow> (Err (SessionFailed e), cat, st')
               | (Inr kp, s2, st') \<Rightarrow> (Ok kp, put_session c s2 cat, st'))))"

definition catalog_restore ::
    "('g, 'o) openmls \<Rightarrow> session_json \<Rightarrow> string \<Rightarrow> 'g MlsSessionCatalog \<Rightarrow> EncryptedStore \<times> disk
      \<Rightarrow> (SessionCatalogError + unit) \<times> 'g MlsSessionCatalog" where
  "catalog_restore M J c cat st =
     (if \<not> valid_conversation_id c then (Err InvalidConversation, cat)
      else if fmlookup (sessions cat) c \<noteq> None then (Err DuplicateConversation, cat)
      else case session_restore M J c st of
        Inl e \<Rightarrow> (Err (SessionFailed e), cat)
      | Inr s \<Rightarrow>
          if (case device_private_signature_key cat of None \<Rightarrow> False | Some k \<Rightarrow> \<not> signature_key_matches M k s)
          then (Err (SessionFailed StorageFailed), cat)
          else (Ok (), put_session c s cat))"

fun restore_each ::
    "('g, 'o) openmls \<Rightarrow> session_json \<Rightarrow> string list \<Rightarrow> 'g MlsSessionCatalog \<Rightarrow> EncryptedStore \<times> disk
      \<Rightarrow> (SessionCatalogError + unit) \<times> 'g MlsSessionCatalog" where
  "restore_each M J [] cat st = (Ok (), cat)"
| "restore_each M J (c # cs) cat st =
     (case catalog_restore M J c cat st of
        (Inl e, cat') \<Rightarrow> (Err e, cat')
      | (Inr _, cat') \<Rightarrow> restore_each M J cs cat' st)"

definition stored_conversations :: "EncryptedStore \<times> disk \<Rightarrow> string list" where
  "stored_conversations st =
     List.map_filter (\<lambda>(k, _). strip_prefix k ''mls/session/'')
       (records_with_prefix ProtocolSession ''mls/session/'' (fst st))"

definition restore_all ::
    "('g, 'o) openmls \<Rightarrow> session_json \<Rightarrow> 'g MlsSessionCatalog \<Rightarrow> EncryptedStore \<times> disk
      \<Rightarrow> (SessionCatalogError + nat) \<times> 'g MlsSessionCatalog" where
  "restore_all M J cat st =
     (let cs = stored_conversations st in
      case restore_each M J cs cat st of
        (Inl e, cat') \<Rightarrow> (Err e, cat')
      | (Inr _, cat') \<Rightarrow> (Ok (length cs), cat'))"

definition catalog_remove ::
    "store_crypto \<Rightarrow> commit_io \<Rightarrow> string \<Rightarrow> 'g cat_state \<Rightarrow> (SessionCatalogError + unit) \<times> 'g cat_state" where
  "catalog_remove C io c = (\<lambda>(cat, st).
     if \<not> valid_conversation_id c then (Err InvalidConversation, cat, st)
     else if fmlookup (sessions cat) c = None then (Err UnknownConversation, cat, st)
     else (case delete_record C io ProtocolSession (session_key c) st of
             (r, st') \<Rightarrow>
               (case r of Inl _ \<Rightarrow> Err (SessionFailed StorageFailed) | Inr _ \<Rightarrow> Ok (),
                cat \<lparr> sessions := fmdrop c (sessions cat) \<rparr>, st')))"

definition catalog_lock :: "'g MlsSessionCatalog \<Rightarrow> 'g MlsSessionCatalog" where
  "catalog_lock cat = cat \<lparr> sessions := fmempty \<rparr>"

text \<open>The common shape of the operations on a known conversation.\<close>

definition on_session ::
    "string \<Rightarrow> ('g MlsSession \<Rightarrow> (SessionError + 'a) \<times> 'g MlsSession) \<Rightarrow> 'g MlsSessionCatalog
      \<Rightarrow> (SessionCatalogError + 'a) \<times> 'g MlsSessionCatalog" where
  "on_session c f cat =
     (if \<not> valid_conversation_id c then (Err InvalidConversation, cat)
      else case fmlookup (sessions cat) c of
        None \<Rightarrow> (Err UnknownConversation, cat)
      | Some s \<Rightarrow> (case f s of (r, s') \<Rightarrow> (map_err SessionFailed r, put_session c s' cat)))"

definition on_session_stored ::
    "string \<Rightarrow> ('g MlsSession \<Rightarrow> EncryptedStore \<times> disk \<Rightarrow> (SessionError + 'a) \<times> 'g MlsSession \<times> EncryptedStore \<times> disk)
      \<Rightarrow> 'g cat_state \<Rightarrow> (SessionCatalogError + 'a) \<times> 'g cat_state" where
  "on_session_stored c f = (\<lambda>(cat, st).
     if \<not> valid_conversation_id c then (Err InvalidConversation, cat, st)
     else case fmlookup (sessions cat) c of
        None \<Rightarrow> (Err UnknownConversation, cat, st)
      | Some s \<Rightarrow> (case f s st of (r, s', st') \<Rightarrow> (map_err SessionFailed r, put_session c s' cat, st')))"

definition catalog_key_package where
  "catalog_key_package M c cat = on_session c (session_key_package M) cat"

definition catalog_add_member where
  "catalog_add_member M J C io c key_package = on_session_stored c (add_member_and_persist M J C io c key_package)"

definition remove_group_member where
  "remove_group_member M J C io c device_credential =
     on_session_stored c (remove_member_and_persist M J C io c device_credential)"

definition send_unpersisted where
  "send_unpersisted M c plaintext cat = on_session c (encrypt M plaintext) cat"

definition receive_delivery_unpersisted where
  "receive_delivery_unpersisted M c wire cat = on_session c (decrypt_delivery M wire) cat"

definition receive_attachment_unpersisted where
  "receive_attachment_unpersisted M J c wire cat = on_session c (decrypt_attachment M J wire) cat"

definition send_attachment_unpersisted where
  "send_attachment_unpersisted M J c descriptor cat = on_session c (encrypt_attachment M J descriptor) cat"

definition checkpoint_bytes ::
    "('g, 'o) openmls \<Rightarrow> session_json \<Rightarrow> string \<Rightarrow> 'g MlsSessionCatalog \<Rightarrow> SessionCatalogError + bytes" where
  "checkpoint_bytes M J c cat =
     (if \<not> valid_conversation_id c then Err InvalidConversation
      else case fmlookup (sessions cat) c of
        None \<Rightarrow> Err UnknownConversation
      | Some s \<Rightarrow> map_err SessionFailed (snapshot_bytes M J s))"

definition poison_session :: "'g MlsSession \<Rightarrow> 'g MlsSession" where
  "poison_session s = s \<lparr> ms_poisoned := True \<rparr>"

definition poison :: "string \<Rightarrow> 'g MlsSessionCatalog \<Rightarrow> 'g MlsSessionCatalog" where
  "poison c cat = (case fmlookup (sessions cat) c of
     None \<Rightarrow> cat | Some s \<Rightarrow> put_session c (poison_session s) cat)"

definition poison_all :: "'g MlsSessionCatalog \<Rightarrow> 'g MlsSessionCatalog" where
  "poison_all cat = cat \<lparr> sessions := fmmap poison_session (sessions cat) \<rparr>"

fun add_members_loop ::
    "('g, 'o) openmls \<Rightarrow> session_json \<Rightarrow> store_crypto \<Rightarrow> string \<Rightarrow> (bytes \<times> commit_io) list \<Rightarrow> 'g MlsSession
      \<Rightarrow> EncryptedStore \<times> disk \<Rightarrow> (SessionError + bytes list) \<times> 'g MlsSession \<times> EncryptedStore \<times> disk" where
  "add_members_loop M J C c [] s st = (Ok [], s, st)"
| "add_members_loop M J C c ((kp, io) # kps) s st =
     (case add_member_and_persist M J C io c kp s st of
        (Inl e, s', st') \<Rightarrow> (Err e, s', st')
      | (Inr w, s', st') \<Rightarrow>
          (case add_members_loop M J C c kps s' st' of
             (Inl e, s2, st2) \<Rightarrow> (Err e, s2, st2)
           | (Inr ws, s2, st2) \<Rightarrow> (Ok (w # ws), s2, st2)))"

definition add_members_batch where
  "add_members_batch M J C c kps = on_session_stored c (add_members_loop M J C c kps)"

fun remove_device_loop ::
    "('g, 'o) openmls \<Rightarrow> session_json \<Rightarrow> bytes \<Rightarrow> string list \<Rightarrow> (string, 'g MlsSession) btree
      \<Rightarrow> (SessionError + (string \<times> bytes \<times> bytes) list) \<times> (string, 'g MlsSession) btree" where
  "remove_device_loop M J d [] m = (Ok [], m)"
| "remove_device_loop M J d (c # cs) m =
     (case fmlookup m c of
        None \<Rightarrow> remove_device_loop M J d cs m
      | Some s \<Rightarrow>
          (case session_remove_member M d s of
             (Inl e, s') \<Rightarrow> (Err e, fmupd c s' m)
           | (Inr None, s') \<Rightarrow> remove_device_loop M J d cs (fmupd c s' m)
           | (Inr (Some removal), s') \<Rightarrow>
               (case snapshot_bytes M J s' of
                  Inl e \<Rightarrow> (Err e, fmupd c s' m)
                | Inr checkpoint \<Rightarrow>
                    (case remove_device_loop M J d cs (fmupd c s' m) of
                       (Inl e, m') \<Rightarrow> (Err e, m')
                     | (Inr out, m') \<Rightarrow> (Ok ((c, removal, checkpoint) # out), m')))))"

definition remove_device_unpersisted ::
    "('g, 'o) openmls \<Rightarrow> session_json \<Rightarrow> bytes \<Rightarrow> 'g MlsSessionCatalog
      \<Rightarrow> (SessionCatalogError + (string \<times> bytes \<times> bytes) list) \<times> 'g MlsSessionCatalog" where
  "remove_device_unpersisted M J d cat =
     (case remove_device_loop M J d (conversation_ids cat) (sessions cat) of
        (r, m) \<Rightarrow> (map_err SessionFailed r, cat \<lparr> sessions := m \<rparr>))"

section \<open>What the code relies on\<close>

text \<open>The storage of a group is in step with the group: its identifier is readable, and loading it
  gives the group.\<close>

definition group_stored :: "('g, 'o) openmls \<Rightarrow> mls_values \<Rightarrow> 'g \<Rightarrow> bool" where
  "group_stored M vs g \<longleftrightarrow> (\<exists>gid. om_group_id M g = Some gid \<and> om_group_id_exact M gid \<and>
     om_load M vs gid = Some (Some g))"

text \<open>OpenMLS writes the groups it makes and every change of a group to the provider storage, its key
  generation gives an Ed25519 pair, and the entries of the storage are listed once each.\<close>

definition om_keys_ok :: "('g, 'o) openmls \<Rightarrow> bool" where
  "om_keys_ok M \<longleftrightarrow>
     (\<forall>sk pk. om_key_gen M = Some (sk, pk) \<longrightarrow> length sk = 32 \<and> pk = ed_public (om_ed M) sk)"

definition om_entries_ok :: "('g, 'o) openmls \<Rightarrow> bool" where
  "om_entries_ok M \<longleftrightarrow>
     (\<forall>vs. distinct (map fst (om_entries M vs)) \<and> set (om_entries M vs) = {(k, x). fmlookup vs k = Some x})"

definition om_makes_ok :: "('g, 'o) openmls \<Rightarrow> bool" where
  "om_makes_ok M \<longleftrightarrow>
     (\<forall>vs sk cr vs' g. om_new_group M vs sk cr = (vs', Some g) \<longrightarrow> group_stored M vs' g) \<and>
     (\<forall>vs w vs' g. om_into_group M vs w = (vs', Some g) \<longrightarrow> group_stored M vs' g)"

definition keeps_stored :: "('g, 'o) openmls \<Rightarrow> (mls_values \<Rightarrow> mls_values \<times> 'x) \<Rightarrow> bool" where
  "keeps_stored M f \<longleftrightarrow> (\<forall>vs g vs' x. group_stored M vs g \<longrightarrow> f vs = (vs', x) \<longrightarrow> group_stored M vs' g)"

definition steps_stored ::
    "('g, 'o) openmls \<Rightarrow> (mls_values \<Rightarrow> 'g \<Rightarrow> mls_values \<times> 'g \<times> 'x) \<Rightarrow> bool" where
  "steps_stored M f \<longleftrightarrow>
     (\<forall>vs g vs' g' x. group_stored M vs g \<longrightarrow> f vs g = (vs', g', x) \<longrightarrow> group_stored M vs' g')"

definition om_keeps_ok :: "('g, 'o) openmls \<Rightarrow> bool" where
  "om_keeps_ok M \<longleftrightarrow>
     (\<forall>sk cr l. keeps_stored M (\<lambda>vs. om_build_key_package M vs sk cr l)) \<and>
     (\<forall>w. keeps_stored M (\<lambda>vs. om_stage_welcome M vs w)) \<and>
     (\<forall>w. keeps_stored M (\<lambda>vs. om_into_group M vs w))"

definition om_steps_ok :: "('g, 'o) openmls \<Rightarrow> bool" where
  "om_steps_ok M \<longleftrightarrow>
     (\<forall>sk kp. steps_stored M (\<lambda>vs g. om_add_members M vs sk g kp)) \<and>
     steps_stored M (om_merge_pending M) \<and>
     (\<forall>sk i. steps_stored M (\<lambda>vs g. om_remove_members M vs sk g i)) \<and>
     (\<forall>sk p. steps_stored M (\<lambda>vs g. om_create_message M vs sk g p)) \<and>
     (\<forall>m. steps_stored M (\<lambda>vs g. om_process_message M vs g m)) \<and>
     (\<forall>m. steps_stored M (\<lambda>vs g. om_merge_staged M vs g m))"

definition openmls_ok :: "('g, 'o) openmls \<Rightarrow> bool" where
  "openmls_ok M \<longleftrightarrow> om_keys_ok M \<and> om_entries_ok M \<and> om_makes_ok M \<and> om_keeps_ok M \<and> om_steps_ok M"

definition snapshots_ok :: "session_json \<Rightarrow> bool" where
  "snapshots_ok J \<longleftrightarrow> (\<forall>x bs. snap_to J x = Some bs \<longrightarrow> snap_of J bs = Some x)"

lemma entries_fmap:
  assumes "openmls_ok M"
  shows "fmap_of_list (rev (om_entries M vs)) = vs"
proof (rule fmap_ext)
  fix k
  have d: "distinct (map fst (rev (om_entries M vs)))"
    and s: "set (rev (om_entries M vs)) = {(k, x). fmlookup vs k = Some x}"
    using assms by (simp_all add: openmls_ok_def om_entries_ok_def rev_map [symmetric])
  show "fmlookup (fmap_of_list (rev (om_entries M vs))) k = fmlookup vs k"
  proof (cases "fmlookup vs k")
    case None
    then have "k \<notin> fst ` set (rev (om_entries M vs))" unfolding s by force
    then have "map_of (rev (om_entries M vs)) k = None" by (simp only: map_of_eq_None_iff not_False_eq_True)
    then show ?thesis using None by (simp add: fmlookup_of_list)
  next
    case (Some x)
    then have "(k, x) \<in> set (rev (om_entries M vs))" unfolding s by simp
    then show ?thesis using Some d by (simp only: fmlookup_of_list map_of_is_SomeI)
  qed
qed

section \<open>Sessions in step with their storage\<close>

definition session_inv :: "('g, 'o) openmls \<Rightarrow> 'g MlsSession \<Rightarrow> bool" where
  "session_inv M s \<longleftrightarrow> length (ms_private_key s) = 32 \<and>
     cred_signature_key (ms_credential s) = ed_public (om_ed M) (ms_private_key s) \<and>
     (\<forall>g. ms_group s = Some g \<longrightarrow> group_stored M (ms_values s) g)"

lemma openmls_ok_key:
  "openmls_ok M \<Longrightarrow> om_key_gen M = Some (sk, pk) \<Longrightarrow> length sk = 32 \<and> pk = ed_public (om_ed M) sk"
  unfolding openmls_ok_def om_keys_ok_def by blast

lemma new_session_inv:
  assumes "openmls_ok M" "new_session M cat identity = Ok s"
    "\<forall>k. device_private_signature_key cat = Some k \<longrightarrow> length k = 32"
  shows "session_inv M s" "\<not> ms_poisoned s" "ms_group s = None"
    "\<forall>k. device_private_signature_key cat = Some k \<longrightarrow> ms_private_key s = k"
  using assms(2,3) openmls_ok_key [OF assms(1)]
  by (auto simp: new_session_def session_new_def session_new_with_signature_key_def session_inv_def
      from_signature_key_def split: option.splits if_splits)

lemma openmls_ok_makes:
  assumes "openmls_ok M"
  shows "om_new_group M vs sk cr = (vs', Some g) \<Longrightarrow> group_stored M vs' g"
    "om_into_group M vs w = (vs', Some g) \<Longrightarrow> group_stored M vs' g"
  using assms unfolding openmls_ok_def om_makes_ok_def by simp_all

lemma storedD:
  "keeps_stored M f \<Longrightarrow> group_stored M vs g \<Longrightarrow> f vs = (vs', x) \<Longrightarrow> group_stored M vs' g"
  "steps_stored M h \<Longrightarrow> group_stored M vs g \<Longrightarrow> h vs g = (vs', g', y) \<Longrightarrow> group_stored M vs' g'"
  unfolding keeps_stored_def steps_stored_def by blast+

lemma openmls_ok_steps:
  assumes "openmls_ok M" "group_stored M vs g"
  shows "om_add_members M vs sk g kp = (vs', g', x) \<Longrightarrow> group_stored M vs' g'"
    "om_merge_pending M vs g = (vs', g', y) \<Longrightarrow> group_stored M vs' g'"
    "om_remove_members M vs sk g i = (vs', g', x) \<Longrightarrow> group_stored M vs' g'"
    "om_create_message M vs sk g p = (vs', g', x) \<Longrightarrow> group_stored M vs' g'"
    "om_process_message M vs g m = (vs', g', z) \<Longrightarrow> group_stored M vs' g'"
    "om_merge_staged M vs g m = (vs', g', y) \<Longrightarrow> group_stored M vs' g'"
    "om_stage_welcome M vs w = (vs', u) \<Longrightarrow> group_stored M vs' g"
    "om_into_group M vs w = (vs', v) \<Longrightarrow> group_stored M vs' g"
    "om_build_key_package M vs sk cr l = (vs', u) \<Longrightarrow> group_stored M vs' g"
  using assms(1) storedD [OF _ assms(2)] unfolding openmls_ok_def om_keeps_ok_def om_steps_ok_def by metis+

lemma create_group_inv:
  assumes "openmls_ok M" "create_group M s = (r, s')" "session_inv M s"
  shows "session_inv M s'"
  using assms(2,3)
  by (auto simp: create_group_def session_inv_def split: if_splits prod.splits option.splits
      dest: openmls_ok_makes(1) [OF assms(1)])

lemma key_package_inv:
  assumes "openmls_ok M" "session_key_package M s = (r, s')" "session_inv M s"
  shows "session_inv M s'"
  using assms(2,3)
  by (auto simp: session_key_package_def key_package_with_lifetime_def session_inv_def
      split: if_splits prod.splits option.splits dest: openmls_ok_steps(9) [OF assms(1), rotated])

lemma add_member_inv:
  assumes "openmls_ok M" "session_add_member M kp s = (r, s')" "session_inv M s"
  shows "session_inv M s'"
  using assms(2,3) 
  by (auto simp: session_add_member_def session_inv_def split: if_splits prod.splits option.splits
      dest: openmls_ok_steps(1,2) [OF assms(1), rotated])

lemma remove_member_inv:
  assumes "openmls_ok M" "session_remove_member M d s = (r, s')" "session_inv M s"
  shows "session_inv M s'"
  using assms(2,3)
  by (auto simp: session_remove_member_def session_inv_def split: if_splits prod.splits option.splits
      dest: openmls_ok_steps(3,2) [OF assms(1), rotated])

lemma encrypt_inv:
  assumes "openmls_ok M" "encrypt M p s = (r, s')" "session_inv M s"
  shows "session_inv M s'"
  using assms(2,3)
  by (auto simp: encrypt_def session_inv_def split: if_splits prod.splits option.splits
      dest: openmls_ok_steps(4) [OF assms(1), rotated])

lemma decrypt_inv:
  assumes "openmls_ok M" "decrypt_delivery M w s = (r, s')" "session_inv M s"
  shows "session_inv M s'"
  using assms(2,3)
  by (auto simp: decrypt_delivery_def session_inv_def
      split: if_splits prod.splits option.splits MlsBody.splits Processed.splits
      dest: openmls_ok_steps(5,6) [OF assms(1), rotated])

lemma join_inv:
  assumes "openmls_ok M" "session_join M w s = (r, s')" "session_inv M s"
  shows "session_inv M s'"
  using assms(2,3)
  by (auto simp: session_join_def session_inv_def
      split: if_splits prod.splits option.splits MlsBody.splits
      dest: openmls_ok_steps(7,8) [OF assms(1)] openmls_ok_makes(2) [OF assms(1)])
     (metis openmls_ok_steps(7,8) [OF assms(1)])

section \<open>Checkpoints restore the session\<close>

lemma persist_restore:
  assumes M: "openmls_ok M" "om_provider M" and J: "snapshots_ok J" and s: "session_inv M s"
    and p: "session_persist M J C io c s st = (Ok (), st')"
  shows "session_restore M J c st' = Ok s"
proof -
  obtain bs where b: "snapshot_bytes M J s = Ok bs"
    using p by (cases "snapshot_bytes M J s") (simp_all add: session_persist_def)
  obtain r st1 where r: "store_put C io (ProtocolSession, session_key c) bs st = (r, st1)"
    by (cases "store_put C io (ProtocolSession, session_key c) bs st")
  have "r = Ok ()" "st1 = st'" using p by (cases r; simp add: session_persist_def b r)+
  then have put: "store_put C io (ProtocolSession, session_key c) bs st = (Ok (), st')" using r by simp
  obtain g where g: "ms_group s = Some g" "\<not> ms_poisoned s"
    using b by (cases "ms_group s") (simp_all add: snapshot_bytes_def split: if_splits)
  obtain gid where gid: "om_group_id M g = Some gid"
    using b g by (cases "om_group_id M g") (simp_all add: snapshot_bytes_def)
  have sn: "snap_to J \<lparr> sn_credential = ms_credential s, sn_private_signature_key = ms_private_key s,
      sn_group_id = gid, sn_storage = om_entries M (ms_values s) \<rparr> = Some bs" and l: "\<not> 4 * 1024 * 1024 < length bs"
    using b g gid
    by (cases "snap_to J \<lparr> sn_credential = ms_credential s, sn_private_signature_key = ms_private_key s,
      sn_group_id = gid, sn_storage = om_entries M (ms_values s) \<rparr>"; simp add: snapshot_bytes_def split: if_splits)+
  have "om_load M (ms_values s) gid = Some (Some g)" "om_group_id_exact M gid"
    using s g gid by (auto simp: session_inv_def group_stored_def)
  moreover have "snap_of J bs = Some \<lparr> sn_credential = ms_credential s, sn_private_signature_key = ms_private_key s,
      sn_group_id = gid, sn_storage = om_entries M (ms_values s) \<rparr>"
    using J sn by (simp add: snapshots_ok_def)
  moreover have "store_get (ProtocolSession, session_key c) st' = Some bs"
    by (rule es.get_put_ok [OF put])
  moreover have "length (ms_private_key s) = 32" "cred_signature_key (ms_credential s) = ed_public (om_ed M) (ms_private_key s)"
    using s by (simp_all add: session_inv_def)
  ultimately have "session_restore M J c st' = Ok \<lparr> ms_values = ms_values s, ms_credential = ms_credential s,
      ms_private_key = ms_private_key s, ms_group = Some g, ms_poisoned = False \<rparr>"
    using l M(2) entries_fmap [OF M(1), of "ms_values s"] unfolding session_restore_def by (simp only:) simp
  then show ?thesis using g by (cases s) simp
qed

lemma then_persist_restore:
  assumes "openmls_ok M" "om_provider M" "snapshots_ok J" "session_inv M (snd outcome)"
    and "then_persist M J C io c outcome st = (Ok x, s', st')"
  shows "session_restore M J c st' = Ok s' \<and> outcome = (Ok x, s') \<and> \<not> ms_poisoned s'"
proof -
  obtain r s1 where o: "outcome = (r, s1)" by (cases outcome)
  obtain p st1 where p: "session_persist M J C io c s1 st = (p, st1)" by (cases "session_persist M J C io c s1 st")
  have eq: "r = Ok x" "s1 = s'" "p = Ok ()" "st1 = st'"
    using assms(5) by (cases r; cases p; simp add: o p then_persist_def persist_or_poison_def)+
  then have p': "session_persist M J C io c s' st = (Ok (), st')" using p by simp
  then have "\<not> ms_poisoned s'"
    by (auto simp: session_persist_def snapshot_bytes_def)
  then show ?thesis using persist_restore [OF assms(1-3) _ p'] assms(4) by (simp add: o eq)
qed

text \<open>The operations of the catalog that change a conversation and checkpoint it, with what they hand
  out.\<close>

datatype cat_op =
  CreateOp string bytes
| JoinOp string bytes bytes
| PrepareOp string bytes
| AddMemberOp string bytes
| RemoveMemberOp string bytes

fun op_conversation :: "cat_op \<Rightarrow> string" where
  "op_conversation (CreateOp c _) = c"
| "op_conversation (JoinOp c _ _) = c"
| "op_conversation (PrepareOp c _) = c"
| "op_conversation (AddMemberOp c _) = c"
| "op_conversation (RemoveMemberOp c _) = c"

fun cat_step ::
    "('g, 'o) openmls \<Rightarrow> session_json \<Rightarrow> store_crypto \<Rightarrow> commit_io \<Rightarrow> cat_op \<Rightarrow> 'g cat_state
      \<Rightarrow> (SessionCatalogError + bytes option) \<times> 'g cat_state" where
  "cat_step M J C io (CreateOp c i) x = apfst (map_sum id (\<lambda>_. None)) (catalog_create M J C io c i x)"
| "cat_step M J C io (JoinOp c i w) x = apfst (map_sum id (\<lambda>_. None)) (catalog_join M J C io c i w x)"
| "cat_step M J C io (PrepareOp c i) x = apfst (map_sum id Some) (catalog_prepare M J C io c i x)"
| "cat_step M J C io (AddMemberOp c kp) x = apfst (map_sum id Some) (catalog_add_member M J C io c kp x)"
| "cat_step M J C io (RemoveMemberOp c d) x = remove_group_member M J C io c d x"

definition cat_inv :: "('g, 'o) openmls \<Rightarrow> 'g MlsSessionCatalog \<Rightarrow> bool" where
  "cat_inv M cat \<longleftrightarrow> (\<forall>k. device_private_signature_key cat = Some k \<longrightarrow> length k = 32) \<and>
     (\<forall>c s. fmlookup (sessions cat) c = Some s \<longrightarrow> session_inv M s \<and>
        (\<forall>k. device_private_signature_key cat = Some k \<longrightarrow> ms_private_key s = k))"

lemma put_session_simps [simp]:
  "fmlookup (sessions (put_session c s cat)) c' = (if c' = c then Some s else fmlookup (sessions cat) c')"
  "device_private_signature_key (put_session c s cat) = device_private_signature_key cat"
  by (auto simp: put_session_def)

lemma put_session_inv:
  assumes "cat_inv M cat" "session_inv M s"
    "\<forall>k. device_private_signature_key cat = Some k \<longrightarrow> ms_private_key s = k"
  shows "cat_inv M (put_session c s cat)"
  using assms by (auto simp: cat_inv_def)

lemma private_key_kept:
  "create_group M s = (r, s') \<Longrightarrow> ms_private_key s' = ms_private_key s"
  "session_join M w s = (r, s') \<Longrightarrow> ms_private_key s' = ms_private_key s"
  "session_key_package M s = (q, s') \<Longrightarrow> ms_private_key s' = ms_private_key s"
  "session_add_member M kp s = (q, s') \<Longrightarrow> ms_private_key s' = ms_private_key s"
  "session_remove_member M d s = (t, s') \<Longrightarrow> ms_private_key s' = ms_private_key s"
  "decrypt_delivery M w s = (t, s') \<Longrightarrow> ms_private_key s' = ms_private_key s"
  "encrypt M w s = (q, s') \<Longrightarrow> ms_private_key s' = ms_private_key s"
  by (auto simp: create_group_def session_join_def session_key_package_def key_package_with_lifetime_def
      session_add_member_def session_remove_member_def decrypt_delivery_def encrypt_def
      split: if_splits prod.splits option.splits MlsBody.splits Processed.splits)

lemma on_session_stored_ok:
  assumes "on_session_stored c f (cat, st) = (Ok x, cat', st')"
  obtains s s' where "fmlookup (sessions cat) c = Some s" "f s st = (Ok x, s', st')" "cat' = put_session c s' cat"
    "valid_conversation_id c"
proof (cases "fmlookup (sessions cat) c")
  case (Some s)
  obtain r s' st1 where f: "f s st = (r, s', st1)" by (cases "f s st")
  show thesis
    using assms that [of s s'] by (cases r) (auto simp: on_session_stored_def Some f split: if_splits)
qed (use assms in \<open>auto simp: on_session_stored_def split: if_splits\<close>)

lemma catalog_create_ok:
  assumes "catalog_create M J C io c i (cat, st) = (Ok u, cat', st')"
  obtains s s' where "new_session M cat i = Ok s" "create_group_and_persist M J C io c s st = (Ok (), s', st')"
    "cat' = put_session c s' cat"
  using assms by (auto simp: catalog_create_def split: if_splits sum.splits prod.splits)

lemma catalog_join_ok:
  assumes "catalog_join M J C io c i w (cat, st) = (Ok u, cat', st')"
  obtains s s' where "fmlookup (sessions cat) c = Some s \<or> new_session M cat i = Ok s"
    "join_and_persist M J C io c w s st = (Ok (), s', st')" "cat' = put_session c s' cat"
proof (cases "fmlookup (sessions cat) c")
  case None
  then show thesis
    using assms that by (auto simp: catalog_join_def split: if_splits sum.splits prod.splits)
next
  case (Some s)
  obtain r s' st1 where j: "join_and_persist M J C io c w s st = (r, s', st1)"
    by (cases "join_and_persist M J C io c w s st")
  show thesis
    using assms that [of s s'] by (cases r) (auto simp: catalog_join_def Some j split: if_splits)
qed

lemma catalog_prepare_ok:
  assumes "catalog_prepare M J C io c i (cat, st) = (Ok kp, cat', st')"
  obtains s s1 s' where "new_session M cat i = Ok s" "create_group M s = (Ok (), s1)"
    "then_persist M J C io c (session_key_package M s1) st = (Ok kp, s', st')" "cat' = put_session c s' cat"
  using assms by (auto simp: catalog_prepare_def split: if_splits sum.splits prod.splits)

lemma remove_member_persist_ok:
  assumes "remove_member_and_persist M J C io c d s st = (Ok x, s', st')"
  shows "x = None \<and> st' = st \<and> session_remove_member M d s = (Ok None, s') \<or>
    then_persist M J C io c (session_remove_member M d s) st = (Ok x, s', st')"
  using assms by (auto simp: remove_member_and_persist_def split: prod.splits sum.splits option.splits)

lemma map_sum_ok [simp]:
  "map_sum id f r = Ok y \<longleftrightarrow> (\<exists>x. r = Ok x \<and> y = f x)"
  by (cases r) auto

lemma remove_member_none: "session_remove_member M d s = (Ok None, s') \<Longrightarrow> s' = s"
  by (auto simp: session_remove_member_def split: if_splits option.splits prod.splits)

text \<open>The conversation is in the catalog with a usable session, and restoring it from the store gives
  exactly that session.\<close>

definition covered ::
    "('g, 'o) openmls \<Rightarrow> session_json \<Rightarrow> string \<Rightarrow> 'g MlsSessionCatalog \<Rightarrow> 'g cat_state \<Rightarrow> bool" where
  "covered M J c cat x \<longleftrightarrow> (\<exists>s. fst x = put_session c s cat \<and> session_inv M s \<and> \<not> ms_poisoned s \<and>
     (\<forall>k. device_private_signature_key cat = Some k \<longrightarrow> ms_private_key s = k) \<and>
     session_restore M J c (snd x) = Ok s)"

lemma persisted_covered:
  assumes M: "openmls_ok M" "om_provider M" "snapshots_ok J"
    and o: "outcome = (r, s1)" "session_inv M s1"
      "\<forall>k. device_private_signature_key cat = Some k \<longrightarrow> ms_private_key s1 = k"
    and p: "then_persist M J C io c outcome st = (Ok x, s', st')"
  shows "covered M J c cat (put_session c s' cat, st')"
  using then_persist_restore [OF M _ p] o by (auto simp: covered_def)

lemma new_group_inv:
  assumes "openmls_ok M" "cat_inv M cat" "new_session M cat i = Ok s" "create_group M s = (r, s1)"
  shows "session_inv M s1" "\<forall>k. device_private_signature_key cat = Some k \<longrightarrow> ms_private_key s1 = k"
proof -
  note ns = new_session_inv [OF assms(1,3)]
  show "session_inv M s1" using create_group_inv [OF assms(1,4)] ns assms(2) by (simp add: cat_inv_def)
  show "\<forall>k. device_private_signature_key cat = Some k \<longrightarrow> ms_private_key s1 = k"
    using private_key_kept(1) [OF assms(4)] ns assms(2) by (simp add: cat_inv_def)
qed

lemma create_covered:
  assumes M: "openmls_ok M" "om_provider M" "snapshots_ok J" and inv: "cat_inv M cat"
    and "catalog_create M J C io c i (cat, st) = (Ok u, cat', st')"
  shows "covered M J c cat (cat', st')"
proof -
  obtain s s' where n: "new_session M cat i = Ok s" and p: "create_group_and_persist M J C io c s st = (Ok (), s', st')"
    and c: "cat' = put_session c s' cat" using assms(5) by (rule catalog_create_ok)
  obtain r1 s1 where g: "create_group M s = (r1, s1)" by (cases "create_group M s")
  show ?thesis
    unfolding c by (rule persisted_covered [OF M g new_group_inv [OF M(1) inv n g] p [unfolded create_group_and_persist_def]])
qed

lemma join_covered:
  assumes M: "openmls_ok M" "om_provider M" "snapshots_ok J" and inv: "cat_inv M cat"
    and "catalog_join M J C io c i w (cat, st) = (Ok u, cat', st')"
  shows "covered M J c cat (cat', st')"
proof -
  obtain s s' where n: "fmlookup (sessions cat) c = Some s \<or> new_session M cat i = Ok s"
    and p: "join_and_persist M J C io c w s st = (Ok (), s', st')"
    and c: "cat' = put_session c s' cat" using assms(5) by (rule catalog_join_ok)
  obtain r1 s1 where g: "session_join M w s = (r1, s1)" by (cases "session_join M w s")
  have s: "session_inv M s" "\<forall>k. device_private_signature_key cat = Some k \<longrightarrow> ms_private_key s = k"
    using n inv new_session_inv [OF M(1)] unfolding cat_inv_def by blast+
  show ?thesis
    unfolding c
    by (rule persisted_covered [OF M g join_inv [OF M(1) g s(1)] _ p [unfolded join_and_persist_def]])
       (use s(2) private_key_kept(2) [OF g] in simp)
qed

lemma prepare_covered:
  assumes M: "openmls_ok M" "om_provider M" "snapshots_ok J" and inv: "cat_inv M cat"
    and "catalog_prepare M J C io c i (cat, st) = (Ok kp, cat', st')"
  shows "covered M J c cat (cat', st')"
proof -
  obtain s s1 s' where n: "new_session M cat i = Ok s" and g: "create_group M s = (Ok (), s1)"
    and p: "then_persist M J C io c (session_key_package M s1) st = (Ok kp, s', st')"
    and c: "cat' = put_session c s' cat" using assms(5) by (rule catalog_prepare_ok)
  obtain r2 s2 where k: "session_key_package M s1 = (r2, s2)" by (cases "session_key_package M s1")
  note s1 = new_group_inv [OF M(1) inv n g]
  show ?thesis
    unfolding c
    by (rule persisted_covered [OF M k key_package_inv [OF M(1) k s1(1)] _ p])
       (use s1(2) private_key_kept(3) [OF k] in simp)
qed

lemma add_member_covered:
  assumes M: "openmls_ok M" "om_provider M" "snapshots_ok J" and inv: "cat_inv M cat"
    and "catalog_add_member M J C io c kp (cat, st) = (Ok w, cat', st')"
  shows "covered M J c cat (cat', st')"
proof -
  obtain s s' where s: "fmlookup (sessions cat) c = Some s"
    and p: "add_member_and_persist M J C io c kp s st = (Ok w, s', st')" and c: "cat' = put_session c s' cat"
    using assms(5) unfolding catalog_add_member_def by (rule on_session_stored_ok)
  obtain r1 s1 where a: "session_add_member M kp s = (r1, s1)" by (cases "session_add_member M kp s")
  have si: "session_inv M s" "\<forall>k. device_private_signature_key cat = Some k \<longrightarrow> ms_private_key s = k"
    using inv s by (auto simp: cat_inv_def)
  show ?thesis
    unfolding c
    by (rule persisted_covered [OF M a add_member_inv [OF M(1) a si(1)] _ p [unfolded add_member_and_persist_def]])
       (use si(2) private_key_kept(4) [OF a] in simp)
qed

lemma remove_member_covered:
  assumes M: "openmls_ok M" "om_provider M" "snapshots_ok J" and inv: "cat_inv M cat"
    and "remove_group_member M J C io c d (cat, st) = (Ok out, cat', st')"
  shows "out = None \<and> (cat', st') = (cat, st) \<or> covered M J c cat (cat', st')"
proof -
  obtain s s' where s: "fmlookup (sessions cat) c = Some s"
    and p: "remove_member_and_persist M J C io c d s st = (Ok out, s', st')" and c: "cat' = put_session c s' cat"
    using assms(5) unfolding remove_group_member_def by (rule on_session_stored_ok)
  obtain r1 s1 where a: "session_remove_member M d s = (r1, s1)" by (cases "session_remove_member M d s")
  have si: "session_inv M s" "\<forall>k. device_private_signature_key cat = Some k \<longrightarrow> ms_private_key s = k"
    using inv s by (auto simp: cat_inv_def)
  have same: "put_session c s cat = cat" using s by (simp add: put_session_def)
  have cov: "covered M J c cat (put_session c s' cat, st')"
    if "then_persist M J C io c (session_remove_member M d s) st = (Ok out, s', st')"
    by (rule persisted_covered [OF M a remove_member_inv [OF M(1) a si(1)] _ that])
       (use si(2) private_key_kept(5) [OF a] in simp)
  from remove_member_persist_ok [OF p] show ?thesis
    using cov same by (auto simp: c dest: remove_member_none)
qed

text \<open>A successful operation of the catalog leaves a session whose checkpoint is in the store.\<close>

lemma cat_step_covered:
  assumes "openmls_ok M" "om_provider M" "snapshots_ok J" "cat_inv M cat"
    and "cat_step M J C io op (cat, st) = (Ok out, cat', st')"
  shows "out = None \<and> (cat', st') = (cat, st) \<or> covered M J (op_conversation op) cat (cat', st')"
proof -
  have ap: "apfst (map_sum id f) x = (Ok y, z) \<longleftrightarrow> (\<exists>u. x = (Ok u, z) \<and> y = f u)"
    for f :: "'x \<Rightarrow> 'y" and x :: "('e + 'x) \<times> 'z" and y z
    by (cases x) auto
  show ?thesis
  proof (cases op)
    case (CreateOp c i)
    then show ?thesis using assms(5) create_covered [OF assms(1-4)] by (simp add: ap) blast
  next
    case (JoinOp c i w)
    then show ?thesis using assms(5) join_covered [OF assms(1-4)] by (simp add: ap) blast
  next
    case (PrepareOp c i)
    then show ?thesis using assms(5) prepare_covered [OF assms(1-4)] by (simp add: ap) blast
  next
    case (AddMemberOp c kp)
    then show ?thesis using assms(5) add_member_covered [OF assms(1-4)] by (simp add: ap) blast
  next
    case (RemoveMemberOp c d)
    then show ?thesis using assms(5) remove_member_covered [OF assms(1-4)] by simp
  qed
qed

lemma cat_step_valid:
  "cat_step M J C io op (cat, st) = (Ok out, cat', st') \<Longrightarrow> valid_conversation_id (op_conversation op)"
  by (cases op)
     (auto simp: catalog_create_def catalog_join_def catalog_prepare_def catalog_add_member_def
        remove_group_member_def on_session_stored_def split: if_splits)

lemma covered_inv: "covered M J c cat (cat', st') \<Longrightarrow> cat_inv M cat \<Longrightarrow> cat_inv M cat'"
  by (auto simp: covered_def intro: put_session_inv)

lemma covered_restore:
  assumes "covered M J c cat (cat', st')" "cat_inv M cat" "valid_conversation_id c"
    "fmlookup (sessions cat0) c = None"
    "device_private_signature_key cat0 = device_private_signature_key cat"
  shows "\<exists>s. fmlookup (sessions cat') c = Some s \<and> catalog_restore M J c cat0 st' = (Ok (), put_session c s cat0)"
proof -
  obtain s where s: "cat' = put_session c s cat" "session_inv M s"
    "\<forall>k. device_private_signature_key cat = Some k \<longrightarrow> ms_private_key s = k" "session_restore M J c st' = Ok s"
    using assms(1) by (auto simp: covered_def)
  have "signature_key_matches M k s" if "device_private_signature_key cat = Some k" for k
    using s(2,3) that by (simp add: signature_key_matches_def session_inv_def)
  then show ?thesis
    using s(1,4) assms(3-5) by (auto simp: catalog_restore_def split: option.splits)
qed

section \<open>Poisoned sessions\<close>

definition stopped :: "string \<Rightarrow> 'g MlsSessionCatalog \<Rightarrow> bool" where
  "stopped c cat \<longleftrightarrow> (\<exists>s. fmlookup (sessions cat) c = Some s \<and> ms_poisoned s)"

lemma stopped_session:
  assumes "stopped c cat" "valid_conversation_id c" "\<And>s. ms_poisoned s \<Longrightarrow> f s = (Err StorageFailed, s)"
  shows "on_session c f cat = (Err (SessionFailed StorageFailed), cat)"
  using assms by (auto simp: stopped_def on_session_def put_session_def)

lemma stopped_session_stored:
  assumes "stopped c cat" "valid_conversation_id c" "\<And>s. ms_poisoned s \<Longrightarrow> f s st = (Err StorageFailed, s, st)"
  shows "on_session_stored c f (cat, st) = (Err (SessionFailed StorageFailed), cat, st)"
  using assms by (auto simp: stopped_def on_session_stored_def put_session_def)

lemma poisoned_session_ops:
  assumes "ms_poisoned s"
  shows "encrypt M p s = (Err StorageFailed, s)" "decrypt_delivery M w s = (Err StorageFailed, s)"
    "session_key_package M s = (Err StorageFailed, s)" "session_join M w s = (Err StorageFailed, s)"
    "session_add_member M kp s = (Err StorageFailed, s)" "session_remove_member M d s = (Err StorageFailed, s)"
    "snapshot_bytes M J s = Err StorageFailed"
  using assms
  by (simp_all add: encrypt_def decrypt_delivery_def session_key_package_def session_join_def
      session_add_member_def session_remove_member_def snapshot_bytes_def)

text \<open>Every operation on a conversation whose session is poisoned is refused and changes nothing.\<close>

definition refuses :: "('g, 'o) openmls \<Rightarrow> session_json \<Rightarrow> string \<Rightarrow> 'g MlsSessionCatalog \<Rightarrow> bool" where
  "refuses M J c cat \<longleftrightarrow>
     (\<forall>p. send_unpersisted M c p cat = (Err (SessionFailed StorageFailed), cat)) \<and>
     (\<forall>w. receive_delivery_unpersisted M c w cat = (Err (SessionFailed StorageFailed), cat)) \<and>
     catalog_key_package M c cat = (Err (SessionFailed StorageFailed), cat) \<and>
     checkpoint_bytes M J c cat = Err (SessionFailed StorageFailed) \<and>
     (\<forall>C io i w st. catalog_join M J C io c i w (cat, st) = (Err (SessionFailed StorageFailed), cat, st)) \<and>
     (\<forall>C io kp st. catalog_add_member M J C io c kp (cat, st) = (Err (SessionFailed StorageFailed), cat, st)) \<and>
     (\<forall>C io d st. remove_group_member M J C io c d (cat, st) = (Err (SessionFailed StorageFailed), cat, st))"

lemma stopped_refuses:
  assumes "stopped c cat" "valid_conversation_id c"
  shows "refuses M J c cat"
  unfolding refuses_def
proof (intro conjI allI)
  fix p w kp d C io i st
  note single = stopped_session [OF assms] and stored = stopped_session_stored [OF assms]
  show "send_unpersisted M c p cat = (Err (SessionFailed StorageFailed), cat)"
    unfolding send_unpersisted_def by (rule single) (simp add: poisoned_session_ops)
  show "receive_delivery_unpersisted M c w cat = (Err (SessionFailed StorageFailed), cat)"
    unfolding receive_delivery_unpersisted_def by (rule single) (simp add: poisoned_session_ops)
  show "catalog_key_package M c cat = (Err (SessionFailed StorageFailed), cat)"
    unfolding catalog_key_package_def by (rule single) (simp add: poisoned_session_ops)
  show "checkpoint_bytes M J c cat = Err (SessionFailed StorageFailed)"
    using assms by (auto simp: checkpoint_bytes_def stopped_def poisoned_session_ops)
  show "catalog_join M J C io c i w (cat, st) = (Err (SessionFailed StorageFailed), cat, st)"
    using assms by (auto simp: catalog_join_def stopped_def join_and_persist_def then_persist_def
        poisoned_session_ops put_session_def)
  show "catalog_add_member M J C io c kp (cat, st) = (Err (SessionFailed StorageFailed), cat, st)"
    unfolding catalog_add_member_def
    by (rule stored) (simp add: add_member_and_persist_def then_persist_def poisoned_session_ops)
  show "remove_group_member M J C io c d (cat, st) = (Err (SessionFailed StorageFailed), cat, st)"
    unfolding remove_group_member_def
    by (rule stored) (simp add: remove_member_and_persist_def then_persist_def poisoned_session_ops)
qed

text \<open>The session part of an operation on a known conversation succeeds, so that what is left is the
  checkpoint.\<close>

fun session_part_ok :: "('g, 'o) openmls \<Rightarrow> cat_op \<Rightarrow> 'g MlsSession \<Rightarrow> bool" where
  "session_part_ok M (AddMemberOp _ kp) s \<longleftrightarrow> is_ok (fst (session_add_member M kp s))"
| "session_part_ok M (JoinOp _ _ w) s \<longleftrightarrow> is_ok (fst (session_join M w s))"
| "session_part_ok M (RemoveMemberOp _ d) s \<longleftrightarrow> (\<exists>x. fst (session_remove_member M d s) = Ok (Some x))"
| "session_part_ok M _ s \<longleftrightarrow> False"

lemma then_persist_poisons:
  assumes "outcome = (Ok x, s1)" "then_persist M J C io c outcome st = (r, s', st')" "\<not> is_ok r"
  shows "ms_poisoned s'"
proof -
  obtain p st1 where p: "session_persist M J C io c s1 st = (p, st1)" by (cases "session_persist M J C io c s1 st")
  show ?thesis
    using assms(2,3) by (cases p) (auto simp: assms(1) then_persist_def persist_or_poison_def p)
qed

lemma failed_checkpoint_stops:
  assumes s: "fmlookup (sessions cat) (op_conversation op) = Some s" and ok: "session_part_ok M op s"
    and "valid_conversation_id (op_conversation op)" "cat_step M J C io op (cat, st) = (Err e, cat', st')"
  shows "stopped (op_conversation op) cat'"
proof (cases op)
  case (AddMemberOp c kp)
  obtain w s1 where a: "session_add_member M kp s = (Ok w, s1)"
    using ok by (cases "session_add_member M kp s"; cases "fst (session_add_member M kp s)") (auto simp: AddMemberOp)
  obtain r s' st1 where p: "then_persist M J C io c (session_add_member M kp s) st = (r, s', st1)"
    by (cases "then_persist M J C io c (session_add_member M kp s) st")
  have "\<not> is_ok r \<and> cat' = put_session c s' cat"
    using assms(4) s assms(3)
    by (cases r) (auto simp: AddMemberOp catalog_add_member_def on_session_stored_def add_member_and_persist_def p)
  then show ?thesis
    using then_persist_poisons [OF a p] by (simp add: AddMemberOp stopped_def)
next
  case (JoinOp c i w)
  obtain s1 where a: "session_join M w s = (Ok (), s1)"
    using ok by (cases "session_join M w s"; cases "fst (session_join M w s)") (auto simp: JoinOp)
  obtain r s' st1 where p: "then_persist M J C io c (session_join M w s) st = (r, s', st1)"
    by (cases "then_persist M J C io c (session_join M w s) st")
  have "\<not> is_ok r \<and> cat' = put_session c s' cat"
    using assms(4) s assms(3)
    by (cases r) (auto simp: JoinOp catalog_join_def join_and_persist_def p)
  then show ?thesis
    using then_persist_poisons [OF a p] by (simp add: JoinOp stopped_def)
next
  case (RemoveMemberOp c d)
  obtain x s1 where a: "session_remove_member M d s = (Ok (Some x), s1)"
    using ok by (cases "session_remove_member M d s") (auto simp: RemoveMemberOp)
  obtain r s' st1 where p: "then_persist M J C io c (session_remove_member M d s) st = (r, s', st1)"
    by (cases "then_persist M J C io c (session_remove_member M d s) st")
  have "\<not> is_ok r \<and> cat' = put_session c s' cat"
    using assms(4) s assms(3)
    by (cases r) (auto simp: RemoveMemberOp remove_group_member_def on_session_stored_def
        remove_member_and_persist_def p [unfolded a] a)
  then show ?thesis
    using then_persist_poisons [OF a p] by (simp add: RemoveMemberOp stopped_def)
qed (use ok in simp_all)

section \<open>Properties\<close>



section \<open>A concrete instance\<close>

text \<open>A stand-in for OpenMLS whose groups are byte strings kept under one storage key.\<close>

definition demo_openmls :: "(bytes, bytes) openmls" where
  "demo_openmls = \<lparr> om_ed = demo_ed, om_provider = True,
     om_key_gen = Some (replicate 32 1, replicate 32 1),
     om_build_key_package = (\<lambda>vs sk cr l. (vs, Some [5])),
     om_new_group = (\<lambda>vs sk cr. (fmupd [0] [] vs, Some [])),
     om_read_key_package = (\<lambda>bs. Some (bs, [])), om_validate_key_package = Some,
     om_add_members = (\<lambda>vs sk g kp. (fmupd [0] (g @ [1]) vs, g @ [1], Some kp)),
     om_merge_pending = (\<lambda>vs g. (vs, g, True)), om_members = (\<lambda>g. []),
     om_remove_members = (\<lambda>vs sk g i. (vs, g, None)),
     om_read_message = (\<lambda>bs. Some (ProtocolBody bs, [])),
     om_stage_welcome = (\<lambda>vs w. (vs, Some w)), om_into_group = (\<lambda>vs w. (vs, None)),
     om_create_message = (\<lambda>vs sk g p. (fmupd [0] (g @ [2]) vs, g @ [2], Some p)),
     om_process_message = (\<lambda>vs g m. (fmupd [0] (g @ [3]) vs, g @ [3], Some (ApplicationMessage m))),
     om_merge_staged = (\<lambda>vs g c. (vs, g, True)), om_serialize = Some,
     om_group_id = (\<lambda>g. Some [0]), om_group_id_exact = (\<lambda>i. True),
     om_load = (\<lambda>vs i. Some (fmlookup vs i)), om_entries = sorted_list_of_fmap \<rparr>"

lemma demo_openmls_ok: "openmls_ok demo_openmls" "om_provider demo_openmls"
proof -
  have st: "group_stored demo_openmls vs g \<longleftrightarrow> fmlookup vs [0] = Some g" for vs g
    by (simp add: group_stored_def demo_openmls_def)
  have "om_keys_ok demo_openmls"
    by (simp add: om_keys_ok_def demo_openmls_def demo_ed_def)
  moreover have "om_entries_ok demo_openmls"
  proof -
    have "om_entries demo_openmls vs = sorted_list_of_fmap vs" for vs by (simp add: demo_openmls_def)
    then show ?thesis
      by (auto simp: om_entries_ok_def set_sorted_list_of_fmap keys_sorted_list_of_fmap sorted_list_of_fset.rep_eq)
  qed
  moreover have "om_makes_ok demo_openmls"
    unfolding om_makes_ok_def st by (auto simp: demo_openmls_def)
  moreover have "om_keeps_ok demo_openmls"
    unfolding om_keeps_ok_def keeps_stored_def st by (simp add: demo_openmls_def)
  moreover have "om_steps_ok demo_openmls"
    unfolding om_steps_ok_def steps_stored_def st
  proof (intro conjI allI impI)
    fix vs vs' :: mls_values and g g' sk kp p m :: bytes and i
    assume g: "fmlookup vs [0] = Some g"
    show "fmlookup vs' [0] = Some g'" if "om_add_members demo_openmls vs sk g kp = (vs', g', x)" for x
      using that by (auto simp: demo_openmls_def)
    show "fmlookup vs' [0] = Some g'" if "om_merge_pending demo_openmls vs g = (vs', g', x)" for x
      using that g by (simp add: demo_openmls_def)
    show "fmlookup vs' [0] = Some g'" if "om_remove_members demo_openmls vs sk g i = (vs', g', x)" for x
      using that g by (simp add: demo_openmls_def)
    show "fmlookup vs' [0] = Some g'" if "om_create_message demo_openmls vs sk g p = (vs', g', x)" for x
      using that by (auto simp: demo_openmls_def)
    show "fmlookup vs' [0] = Some g'" if "om_process_message demo_openmls vs g m = (vs', g', x)" for x
      using that by (auto simp: demo_openmls_def)
    show "fmlookup vs' [0] = Some g'" if "om_merge_staged demo_openmls vs g m = (vs', g', x)" for x
      using that g by (simp add: demo_openmls_def)
  qed
  ultimately show "openmls_ok demo_openmls" by (simp add: openmls_ok_def)
qed (simp add: demo_openmls_def)

definition demo_session :: "bytes MlsSession" where
  "demo_session = \<lparr> ms_values = fmupd [0] [] fmempty,
     ms_credential = \<lparr> cred_identity = [7], cred_signature_key = replicate 32 1 \<rparr>,
     ms_private_key = replicate 32 1, ms_group = Some [], ms_poisoned = False \<rparr>"

definition demo_snapshot :: SessionSnapshot where
  "demo_snapshot = \<lparr> sn_credential = ms_credential demo_session, sn_private_signature_key = replicate 32 1,
     sn_group_id = [0], sn_storage = sorted_list_of_fmap (ms_values demo_session) \<rparr>"

text \<open>An encoding that knows one snapshot only.\<close>

definition demo_json :: session_json where
  "demo_json = \<lparr> snap_to = (\<lambda>x. if x = demo_snapshot then Some [1] else None),
     snap_of = (\<lambda>bs. if bs = [1] then Some demo_snapshot else None),
     desc_to = (\<lambda>_. None), desc_of = (\<lambda>_. None) \<rparr>"

lemma demo_json_ok: "snapshots_ok demo_json"
  by (simp add: snapshots_ok_def demo_json_def)

definition demo_catalog :: "bytes MlsSessionCatalog" where
  "demo_catalog = catalog_new_with_device_private_key (replicate 32 1)"

lemma demo_catalog_inv: "cat_inv demo_openmls demo_catalog"
  by (simp add: cat_inv_def demo_catalog_def catalog_new_with_device_private_key_def)

lemma demo_valid: "valid_conversation_id ''c''"
  by (simp add: valid_conversation_id_def ascii_defs)

lemma demo_snapshot_bytes: "snapshot_bytes demo_openmls demo_json demo_session = Ok [1]"
proof -
  have "om_group_id demo_openmls g = Some [0]" "om_entries demo_openmls = sorted_list_of_fmap" for g
    by (simp_all add: demo_openmls_def)
  then show ?thesis
    by (simp add: snapshot_bytes_def demo_session_def demo_json_def demo_snapshot_def)
qed

lemma demo_key_package:
  "new_session demo_openmls demo_catalog [7] = Ok (from_signature_key [7] (replicate 32 1) (replicate 32 1))"
  "create_group demo_openmls (from_signature_key [7] (replicate 32 1) (replicate 32 1)) = (Ok (), demo_session)"
  "session_key_package demo_openmls demo_session = (Ok [5], demo_session)"
proof -
  show "new_session demo_openmls demo_catalog [7] = Ok (from_signature_key [7] (replicate 32 1) (replicate 32 1))"
    by (simp add: new_session_def demo_catalog_def catalog_new_with_device_private_key_def
        session_new_with_signature_key_def MAX_IDENTITY_BYTES_def demo_openmls_def demo_ed_def)
  show "create_group demo_openmls (from_signature_key [7] (replicate 32 1) (replicate 32 1)) = (Ok (), demo_session)"
    by (simp add: create_group_def from_signature_key_def demo_session_def demo_openmls_def)
  show "session_key_package demo_openmls demo_session = (Ok [5], demo_session)"
    by (simp add: session_key_package_def key_package_with_lifetime_def demo_session_def demo_openmls_def
        DEFAULT_KEY_PACKAGE_LIFETIME_SECONDS_def MAX_KEY_PACKAGE_LIFETIME_SECONDS_def)
qed

lemma demo_prepare:
  obtains st' where "cat_step demo_openmls demo_json tag_crypto (demo_commit Done) (PrepareOp ''c'' [7])
      (demo_catalog, demo_store, demo_disk) = (Ok (Some [5]), put_session ''c'' demo_session demo_catalog, st')"
proof -
  have "wf_key (session_key ''c'')" by (auto simp: session_key_def wf_key_def ascii_defs)
  then have "fst (store_put tag_crypto (demo_commit Done) (ProtocolSession, session_key ''c'') [1] (demo_store, demo_disk)) = Ok ()"
    by (intro demo_store_put) (simp_all add: MAX_VALUE_BYTES_def)
  then obtain st' where "store_put tag_crypto (demo_commit Done) (ProtocolSession, session_key ''c'') [1]
      (demo_store, demo_disk) = (Ok (), st')" by (metis prod.collapse)
  then have "session_persist demo_openmls demo_json tag_crypto (demo_commit Done) ''c'' demo_session (demo_store, demo_disk)
      = (Ok (), st')"
    by (simp add: session_persist_def demo_snapshot_bytes)
  then have "then_persist demo_openmls demo_json tag_crypto (demo_commit Done) ''c''
      (session_key_package demo_openmls demo_session) (demo_store, demo_disk) = (Ok [5], demo_session, st')"
    by (simp add: then_persist_def demo_key_package persist_or_poison_def)
  moreover have "fmlookup (sessions demo_catalog) ''c'' = None"
    by (simp add: demo_catalog_def catalog_new_with_device_private_key_def)
  ultimately have "catalog_prepare demo_openmls demo_json tag_crypto (demo_commit Done) ''c'' [7] (demo_catalog, demo_store, demo_disk)
      = (Ok [5], put_session ''c'' demo_session demo_catalog, st')"
    by (simp add: catalog_prepare_def demo_valid demo_key_package)
  then show thesis by (intro that) simp
qed



end
