(* ===== verification/Spec2Isabelle.thy ===== *)
theory Spec2Isabelle
  imports Domain_Model Delivery Device_Registry Device_Link Contacts Bridge Relay_Invites Authority Mls_State
    Mls_Session
begin

text \<open>HEADER\<close>

section \<open>An invite from one daemon to another through the relay\<close>


text \<open>The relay of the example: it stores any list of invites, and its origin is that of the example invite.\<close>

definition demo_relay_lib :: relay_lib where
  "demo_relay_lib = demo_lib \<lparr> invites_to := (\<lambda>_. Some []) \<rparr>"

definition demo_relay :: AppState where
  "demo_relay = demo_app \<lparr> origin := inv_relay_origin demo_invite \<rparr>"

definition demo_signed :: string where
  "demo_signed = signed_invite_text demo_ed demo_root demo_payload"

lemma demo_relay_lib_fields [simp]:
  "relay_ed demo_relay_lib = demo_ed" "sha256 demo_relay_lib = fit 32" "invites_to demo_relay_lib is = Some []"
  "parse_value demo_relay_lib b = parse_value demo_lib b"
  by (simp_all add: demo_relay_lib_def demo_lib_def)

lemma demo_signed_length: "length demo_signed \<le> 96 * 1024"
proof -
  have "unat (700 :: u64) = 700" by simp
  then have "length demo_payload \<le> 1000"
    by (simp add: demo_payload_def invite_payload_def demo_invite_def root_account_id_def account_id_from_public_def
        demo_ed_def u64_to_string_def dec_string.simps)
  then show ?thesis by (simp add: demo_signed_def signed_invite_text_def demo_ed_def)
qed

lemma demo_relay_origin:
  "utf8_valid (inv_relay_origin demo_invite)" "1 < inv_expires_at demo_invite" "0 < MAX_INVITES"
  by (rule utf8_valid_ascii) (simp_all add: demo_invite_def is_ascii_def MAX_INVITES_def)


section \<open>Attachments on the relay\<close>

text \<open>The daemon encrypts files of up to 32 MiB, and encryption adds sixteen bytes per chunk; the relay stores
  blobs of up to 32 MiB.  The upload of a file of the largest size is refused by the relay.\<close>

lemma largest_attachment_refused:
  assumes "aead_correct C" "job_inv C job ps" "job_received job = job_total job"
    "job_total job = Attachment.MAX_ATTACHMENT_BYTES" "header_usize (h_offset h) 0 = Some offset"
    "header_usize (h_total h) 0 = Some (length (job_blob job))"
  shows "blob_upload J io now h i body d = (error_reply BAD_REQUEST ''invalid_blob_metadata'', d)"
proof -
  have s: "sealed_as C (job_key job) (of_nat (job_total job)) 0 ps (job_chunks job) (job_blob job)"
    "job_received job = length (concat ps)"
    using assms(2) unfolding job_inv_def by blast+
  then have "ps \<noteq> []" using assms(3,4) by (auto simp: Attachment.MAX_ATTACHMENT_BYTES_def)
  then have "0 < length ps" by simp
  then have "MAX_BLOB_BYTES < length (job_blob job)"
    unfolding sealed_length [OF assms(1) s(1)] s(2) [symmetric] assms(3,4)
    by (simp add: MAX_BLOB_BYTES_def Attachment.MAX_ATTACHMENT_BYTES_def)
  then show ?thesis using assms(5,6) by (simp add: blob_upload_def)
qed

end
